theory Spec2Isabelle
  imports Complex_Main "HOL-Library.Word"
begin

section \<open>IEEE 754 arithmetic (float, double)\<close>

text \<open>
  The camera controllers compute in IEEE single precision (\<open>float\<close>, \<open>glm::vec3\<close>) and
  read the cursor in double precision (\<open>glm::dvec2\<close>). A value of either format is a real
  number, an infinity or NaN. The sign of a zero is not kept: the two zeros compare equal,
  and the one operation that tells them apart, the division by zero, takes its divisor as
  \<open>+0\<close>, which it is wherever the code divides (every divisor there is a square root).
\<close>

datatype ieee = Finite real | PInf | NInf | NaN

text \<open>The power of two with an integer exponent.\<close>

definition pow2 :: "int \<Rightarrow> real" where
  "pow2 e = (if 0 \<le> e then 2 ^ nat e else 1 / 2 ^ nat (- e))"

text \<open>The integer nearest to \<open>q\<close>; of two equally near integers the even one.\<close>

definition ties_even :: "real \<Rightarrow> int" where
  "ties_even q =
     (if q - of_int \<lfloor>q\<rfloor> < 1 / 2 then \<lfloor>q\<rfloor>
      else if 1 / 2 < q - of_int \<lfloor>q\<rfloor> then \<lfloor>q\<rfloor> + 1
      else if even \<lfloor>q\<rfloor> then \<lfloor>q\<rfloor> else \<lfloor>q\<rfloor> + 1)"

text \<open>
  Rounding to nearest, ties to even, into the format with \<open>p\<close> significand bits and the
  exponent range \<open>emin .. emax\<close>: the result is a multiple of the unit in the last place
  of the binade of \<open>x\<close> (of the lowest binade for a subnormal \<open>x\<close>), and an infinity when
  it leaves the range.
\<close>

definition round_to :: "nat \<Rightarrow> int \<Rightarrow> int \<Rightarrow> real \<Rightarrow> ieee" where
  "round_to p emin emax x =
     (if x = 0 then Finite 0
      else
        let e = max \<lfloor>log 2 \<bar>x\<bar>\<rfloor> emin;
            ulp = pow2 (e - int p + 1);
            y = of_int (ties_even (x / ulp)) * ulp
        in if pow2 (emax + 1) \<le> \<bar>y\<bar> then (if 0 < x then PInf else NInf) else Finite y)"

text \<open>\<open>float\<close> is binary32 and \<open>double\<close> is binary64.\<close>

definition round32 :: "real \<Rightarrow> ieee" where
  "round32 = round_to 24 (- 126) 127"

definition round64 :: "real \<Rightarrow> ieee" where
  "round64 = round_to 53 (- 1022) 1023"

text \<open>
  The operations, each rounding its exact result once with the rounding \<open>rnd\<close> of its
  format (no fused multiply-add).
\<close>

fun ieee_neg :: "ieee \<Rightarrow> ieee" where
  "ieee_neg (Finite x) = Finite (- x)"
| "ieee_neg PInf = NInf"
| "ieee_neg NInf = PInf"
| "ieee_neg NaN = NaN"

fun ieee_add :: "(real \<Rightarrow> ieee) \<Rightarrow> ieee \<Rightarrow> ieee \<Rightarrow> ieee" where
  "ieee_add rnd (Finite x) (Finite y) = rnd (x + y)"
| "ieee_add rnd NaN b = NaN"
| "ieee_add rnd a NaN = NaN"
| "ieee_add rnd PInf NInf = NaN"
| "ieee_add rnd NInf PInf = NaN"
| "ieee_add rnd PInf b = PInf"
| "ieee_add rnd NInf b = NInf"
| "ieee_add rnd a PInf = PInf"
| "ieee_add rnd a NInf = NInf"

definition ieee_sub :: "(real \<Rightarrow> ieee) \<Rightarrow> ieee \<Rightarrow> ieee \<Rightarrow> ieee" where
  "ieee_sub rnd a b = ieee_add rnd a (ieee_neg b)"

text \<open>The sign of a value, and the infinity of a sign (NaN where the sign is that of zero times infinity).\<close>

fun ieee_sign :: "ieee \<Rightarrow> real" where
  "ieee_sign (Finite x) = sgn x"
| "ieee_sign PInf = 1"
| "ieee_sign NInf = - 1"
| "ieee_sign NaN = 0"

definition ieee_inf :: "real \<Rightarrow> ieee" where
  "ieee_inf s = (if 0 < s then PInf else if s < 0 then NInf else NaN)"

fun ieee_mul :: "(real \<Rightarrow> ieee) \<Rightarrow> ieee \<Rightarrow> ieee \<Rightarrow> ieee" where
  "ieee_mul rnd (Finite x) (Finite y) = rnd (x * y)"
| "ieee_mul rnd NaN b = NaN"
| "ieee_mul rnd a NaN = NaN"
| "ieee_mul rnd a b = ieee_inf (ieee_sign a * ieee_sign b)"

text \<open>
  The division: \<open>0 / 0\<close> and an infinity over an infinity are NaN, \<open>x / 0\<close> is the
  infinity of the sign of \<open>x\<close>, a finite value over an infinity is zero.
\<close>

fun ieee_div :: "(real \<Rightarrow> ieee) \<Rightarrow> ieee \<Rightarrow> ieee \<Rightarrow> ieee" where
  "ieee_div rnd (Finite x) (Finite y) = (if y = 0 then ieee_inf x else rnd (x / y))"
| "ieee_div rnd NaN b = NaN"
| "ieee_div rnd a NaN = NaN"
| "ieee_div rnd (Finite x) b = Finite 0"
| "ieee_div rnd a (Finite y) = ieee_inf (ieee_sign a * (if y < 0 then - 1 else 1))"
| "ieee_div rnd a b = NaN"

fun ieee_sqrt :: "(real \<Rightarrow> ieee) \<Rightarrow> ieee \<Rightarrow> ieee" where
  "ieee_sqrt rnd (Finite x) = (if x < 0 then NaN else rnd (sqrt x))"
| "ieee_sqrt rnd PInf = PInf"
| "ieee_sqrt rnd NInf = NaN"
| "ieee_sqrt rnd NaN = NaN"

text \<open>The comparisons \<open><\<close> and \<open>==\<close>: false whenever an operand is NaN.\<close>

fun ieee_less :: "ieee \<Rightarrow> ieee \<Rightarrow> bool" where
  "ieee_less (Finite x) (Finite y) = (x < y)"
| "ieee_less NaN b = False"
| "ieee_less a NaN = False"
| "ieee_less a NInf = False"
| "ieee_less NInf b = True"
| "ieee_less PInf b = False"
| "ieee_less a PInf = True"

definition ieee_eq :: "ieee \<Rightarrow> ieee \<Rightarrow> bool" where
  "ieee_eq a b = (a \<noteq> NaN \<and> a = b)"

text \<open>The conversion of a \<open>float\<close> to \<open>bool\<close> (in \<open>a || b\<close>): true unless the value is zero.\<close>

definition to_bool :: "ieee \<Rightarrow> bool" where
  "to_bool a = (a \<noteq> Finite 0)"

text \<open>The conversion \<open>float(d)\<close> of a \<open>double\<close>.\<close>

fun to_float :: "ieee \<Rightarrow> ieee" where
  "to_float (Finite x) = round32 x"
| "to_float PInf = PInf"
| "to_float NInf = NInf"
| "to_float NaN = NaN"

text \<open>The literals \<open>0.01f\<close>, \<open>0.001f\<close> and \<open>1e-4f\<close>.\<close>

definition f_0_01 :: ieee where
  "f_0_01 = round32 (1 / 100)"

definition f_0_001 :: ieee where
  "f_0_001 = round32 (1 / 1000)"

definition f_1e_4 :: ieee where
  "f_1e_4 = round32 (1 / 10000)"

section \<open>Vectors (glm::vec3, glm::dvec2)\<close>

text \<open>
  The operators of \<open>glm::vec3\<close> work component by component. The glm library is not part
  of the sources at hand; its functions are taken as the library defines them:
  \<open>dot(a, b)\<close> sums the three products from left to right, \<open>length(v) = sqrt(dot(v, v))\<close>,
  \<open>normalize(v) = v * inversesqrt(dot(v, v))\<close> with \<open>inversesqrt(x) = 1 / sqrt(x)\<close>, and
  \<open>min(x, y) = (y < x) ? y : x\<close>. The rounding \<open>rnd\<close> is that of the component type.
\<close>

type_synonym vec3 = "ieee \<times> ieee \<times> ieee"

text \<open>The vector of three finite components.\<close>

fun vec3_of :: "real \<times> real \<times> real \<Rightarrow> vec3" where
  "vec3_of (x, y, z) = (Finite x, Finite y, Finite z)"

fun vec3_add :: "(real \<Rightarrow> ieee) \<Rightarrow> vec3 \<Rightarrow> vec3 \<Rightarrow> vec3" where
  "vec3_add rnd (ax, ay, az) (bx, by, bz) =
     (ieee_add rnd ax bx, ieee_add rnd ay by, ieee_add rnd az bz)"

fun vec3_sub :: "(real \<Rightarrow> ieee) \<Rightarrow> vec3 \<Rightarrow> vec3 \<Rightarrow> vec3" where
  "vec3_sub rnd (ax, ay, az) (bx, by, bz) =
     (ieee_sub rnd ax bx, ieee_sub rnd ay by, ieee_sub rnd az bz)"

fun vec3_scale :: "(real \<Rightarrow> ieee) \<Rightarrow> ieee \<Rightarrow> vec3 \<Rightarrow> vec3" where
  "vec3_scale rnd k (x, y, z) = (ieee_mul rnd k x, ieee_mul rnd k y, ieee_mul rnd k z)"

fun vec3_div :: "(real \<Rightarrow> ieee) \<Rightarrow> vec3 \<Rightarrow> ieee \<Rightarrow> vec3" where
  "vec3_div rnd (x, y, z) k = (ieee_div rnd x k, ieee_div rnd y k, ieee_div rnd z k)"

fun dot :: "(real \<Rightarrow> ieee) \<Rightarrow> vec3 \<Rightarrow> vec3 \<Rightarrow> ieee" where
  "dot rnd (ax, ay, az) (bx, by, bz) =
     ieee_add rnd (ieee_add rnd (ieee_mul rnd ax bx) (ieee_mul rnd ay by)) (ieee_mul rnd az bz)"

fun cross :: "(real \<Rightarrow> ieee) \<Rightarrow> vec3 \<Rightarrow> vec3 \<Rightarrow> vec3" where
  "cross rnd (ax, ay, az) (bx, by, bz) =
     (ieee_sub rnd (ieee_mul rnd ay bz) (ieee_mul rnd by az),
      ieee_sub rnd (ieee_mul rnd az bx) (ieee_mul rnd bz ax),
      ieee_sub rnd (ieee_mul rnd ax by) (ieee_mul rnd bx ay))"

definition glm_length :: "(real \<Rightarrow> ieee) \<Rightarrow> vec3 \<Rightarrow> ieee" where
  "glm_length rnd v = ieee_sqrt rnd (dot rnd v v)"

definition glm_normalize :: "(real \<Rightarrow> ieee) \<Rightarrow> vec3 \<Rightarrow> vec3" where
  "glm_normalize rnd v =
     vec3_scale rnd (ieee_div rnd (Finite 1) (ieee_sqrt rnd (dot rnd v v))) v"

definition glm_min :: "ieee \<Rightarrow> ieee \<Rightarrow> ieee" where
  "glm_min x y = (if ieee_less y x then y else x)"

text \<open>
  The cursor position that GLFW reports is a pair of finite doubles, taken here as the
  real numbers they are. The difference of two positions is computed in double precision.
\<close>

type_synonym cursor = "real \<times> real"
type_synonym dvec2 = "ieee \<times> ieee"

fun dvec2_sub :: "cursor \<Rightarrow> cursor \<Rightarrow> dvec2" where
  "dvec2_sub (ax, ay) (bx, by) = (round64 (ax - bx), round64 (ay - by))"

section \<open>Camera\<close>

text \<open>
  Modelled from the spec: the class \<open>Camera\<close> (header \<open>utils/cameras.hpp\<close>) is not part
  of the sources at hand. The spec gives a camera as the value \<open>eye\<close>, \<open>center\<close>, \<open>up\<close>,
  with the frame derived on demand.
\<close>

record Camera =
  m_eye :: vec3
  m_center :: vec3
  m_up :: vec3

text \<open>
  Modelled from the spec: the constructor \<open>Camera(eye, center, up)\<close>, which keeps the three
  vectors.
\<close>

definition mkCamera :: "vec3 \<Rightarrow> vec3 \<Rightarrow> vec3 \<Rightarrow> Camera" where
  "mkCamera e c u = \<lparr>m_eye = e, m_center = c, m_up = u\<rparr>"

text \<open>Modelled from the spec: \<open>front = normalize(center - eye)\<close>.\<close>

definition front :: "Camera \<Rightarrow> vec3" where
  "front cam = glm_normalize round32 (vec3_sub round32 (m_center cam) (m_eye cam))"

text \<open>Modelled from the spec: \<open>left = normalize(cross(up, front))\<close>.\<close>

definition left :: "Camera \<Rightarrow> vec3" where
  "left cam = glm_normalize round32 (cross round32 (m_up cam) (front cam))"

text \<open>
  Modelled from the spec: \<open>moveLocal\<close> translates eye and center together by
  \<open>truckLeft*left + pedestalUp*up + dollyIn*front\<close>.
\<close>

definition moveLocal :: "ieee \<Rightarrow> ieee \<Rightarrow> ieee \<Rightarrow> Camera \<Rightarrow> Camera" where
  "moveLocal truckLeft pedestalUp dollyIn cam =
     (let translationVector =
            vec3_add round32
              (vec3_add round32 (vec3_scale round32 truckLeft (left cam))
                                (vec3_scale round32 pedestalUp (m_up cam)))
              (vec3_scale round32 dollyIn (front cam))
      in cam\<lparr>m_eye := vec3_add round32 (m_eye cam) translationVector,
              m_center := vec3_add round32 (m_center cam) translationVector\<rparr>)"

section \<open>Input device (GLFW queries)\<close>

datatype mouse_button = GLFW_MOUSE_BUTTON_LEFT | GLFW_MOUSE_BUTTON_MIDDLE

datatype key =
    GLFW_KEY_W | GLFW_KEY_A | GLFW_KEY_S | GLFW_KEY_D
  | GLFW_KEY_UP | GLFW_KEY_DOWN | GLFW_KEY_Q | GLFW_KEY_E
  | GLFW_KEY_LEFT_SHIFT | GLFW_KEY_LEFT_CONTROL

text \<open>
  The state of the window that \<open>glfwGetMouseButton\<close>, \<open>glfwGetCursorPos\<close> and
  \<open>glfwGetKey\<close> read. It changes only in \<open>glfwPollEvents\<close>, never during an update.
\<close>

record GLFWwindow =
  glfwGetMouseButton :: "mouse_button \<Rightarrow> bool"
  glfwGetCursorPos :: cursor
  glfwGetKey :: "key \<Rightarrow> bool"

section \<open>Camera controllers\<close>

record CameraController =
  m_camera :: Camera
  m_fSpeed :: ieee
  m_worldUpAxis :: vec3
  m_LastCursorPosition :: cursor

record FirstPersonCameraController = CameraController +
  m_LeftButtonPressed :: bool

record TrackballCameraController = CameraController +
  m_MiddleButtonPressed :: bool

subsection \<open>FirstPersonCameraController::update\<close>

text \<open>The press and release edges of the left button (first statement of the update).\<close>

definition fp_edge :: "GLFWwindow \<Rightarrow> FirstPersonCameraController \<Rightarrow> FirstPersonCameraController" where
  "fp_edge w c =
     (if glfwGetMouseButton w GLFW_MOUSE_BUTTON_LEFT \<and> \<not> m_LeftButtonPressed c
      then c\<lparr>m_LeftButtonPressed := True, m_LastCursorPosition := glfwGetCursorPos w\<rparr>
      else if \<not> glfwGetMouseButton w GLFW_MOUSE_BUTTON_LEFT \<and> m_LeftButtonPressed c
      then c\<lparr>m_LeftButtonPressed := False\<rparr>
      else c)"

text \<open>The lambda computing \<open>cursorDelta\<close>: the delta and the controller with the new snapshot.\<close>

definition fp_cursorDelta :: "GLFWwindow \<Rightarrow> FirstPersonCameraController \<Rightarrow> dvec2 \<times> FirstPersonCameraController" where
  "fp_cursorDelta w c =
     (if m_LeftButtonPressed c
      then (dvec2_sub (glfwGetCursorPos w) (m_LastCursorPosition c),
            c\<lparr>m_LastCursorPosition := glfwGetCursorPos w\<rparr>)
      else ((Finite 0, Finite 0), c))"

definition fp_dollyIn :: "GLFWwindow \<Rightarrow> ieee \<Rightarrow> ieee \<Rightarrow> ieee" where
  "fp_dollyIn w speed elapsedTime =
     (let d0 = Finite 0;
          d1 = (if glfwGetKey w GLFW_KEY_W
                then ieee_add round32 d0 (ieee_mul round32 speed elapsedTime) else d0);
          d2 = (if glfwGetKey w GLFW_KEY_S
                then ieee_sub round32 d1 (ieee_mul round32 speed elapsedTime) else d1)
      in d2)"

definition fp_truckLeft :: "GLFWwindow \<Rightarrow> ieee \<Rightarrow> ieee \<Rightarrow> ieee" where
  "fp_truckLeft w speed elapsedTime =
     (let t0 = Finite 0;
          t1 = (if glfwGetKey w GLFW_KEY_A
                then ieee_add round32 t0 (ieee_mul round32 speed elapsedTime) else t0);
          t2 = (if glfwGetKey w GLFW_KEY_D
                then ieee_sub round32 t1 (ieee_mul round32 speed elapsedTime) else t1)
      in t2)"

definition fp_pedestalUp :: "GLFWwindow \<Rightarrow> ieee \<Rightarrow> ieee \<Rightarrow> ieee" where
  "fp_pedestalUp w speed elapsedTime =
     (let p0 = Finite 0;
          p1 = (if glfwGetKey w GLFW_KEY_UP
                then ieee_add round32 p0 (ieee_mul round32 speed elapsedTime) else p0);
          p2 = (if glfwGetKey w GLFW_KEY_DOWN
                then ieee_sub round32 p1 (ieee_mul round32 speed elapsedTime) else p1)
      in p2)"

definition fp_rollRightAngle :: "GLFWwindow \<Rightarrow> ieee" where
  "fp_rollRightAngle w =
     (let r0 = Finite 0;
          r1 = (if glfwGetKey w GLFW_KEY_Q then ieee_sub round32 r0 f_0_001 else r0);
          r2 = (if glfwGetKey w GLFW_KEY_E then ieee_add round32 r1 f_0_001 else r1)
      in r2)"

definition fp_panLeftAngle :: "dvec2 \<Rightarrow> ieee" where
  "fp_panLeftAngle cursorDelta = ieee_mul round32 (ieee_neg f_0_01) (to_float (fst cursorDelta))"

definition fp_tiltDownAngle :: "dvec2 \<Rightarrow> ieee" where
  "fp_tiltDownAngle cursorDelta = ieee_mul round32 f_0_01 (to_float (snd cursorDelta))"

text \<open>
  The methods \<open>Camera::rotateLocal\<close> and \<open>Camera::rotateWorld\<close> are declared in the
  missing header and the spec does not fix their formulas; the update takes them as
  parameters.
\<close>

definition FirstPerson_update ::
  "(ieee \<Rightarrow> ieee \<Rightarrow> ieee \<Rightarrow> Camera \<Rightarrow> Camera) \<Rightarrow> (ieee \<Rightarrow> vec3 \<Rightarrow> Camera \<Rightarrow> Camera) \<Rightarrow>
   GLFWwindow \<Rightarrow> ieee \<Rightarrow> FirstPersonCameraController \<Rightarrow> bool \<times> FirstPersonCameraController" where
  "FirstPerson_update rotateLocal rotateWorld w elapsedTime c0 =
     (let c1 = fp_edge w c0;
          (cursorDelta, c2) = fp_cursorDelta w c1;
          truckLeft = fp_truckLeft w (m_fSpeed c2) elapsedTime;
          pedestalUp = fp_pedestalUp w (m_fSpeed c2) elapsedTime;
          dollyIn = fp_dollyIn w (m_fSpeed c2) elapsedTime;
          rollRightAngle = fp_rollRightAngle w;
          panLeftAngle = fp_panLeftAngle cursorDelta;
          tiltDownAngle = fp_tiltDownAngle cursorDelta;
          hasMoved = (to_bool truckLeft \<or> to_bool pedestalUp \<or> to_bool dollyIn
                      \<or> to_bool panLeftAngle \<or> to_bool tiltDownAngle \<or> to_bool rollRightAngle)
      in if \<not> hasMoved then (False, c2)
         else (True,
               c2\<lparr>m_camera :=
                    rotateWorld panLeftAngle (m_worldUpAxis c2)
                      (rotateLocal rollRightAngle tiltDownAngle (Finite 0)
                        (moveLocal truckLeft pedestalUp dollyIn (m_camera c2)))\<rparr>))"

subsection \<open>TrackballCameraController::update\<close>

definition tb_edge :: "GLFWwindow \<Rightarrow> TrackballCameraController \<Rightarrow> TrackballCameraController" where
  "tb_edge w c =
     (if glfwGetMouseButton w GLFW_MOUSE_BUTTON_MIDDLE \<and> \<not> m_MiddleButtonPressed c
      then c\<lparr>m_MiddleButtonPressed := True, m_LastCursorPosition := glfwGetCursorPos w\<rparr>
      else if \<not> glfwGetMouseButton w GLFW_MOUSE_BUTTON_MIDDLE \<and> m_MiddleButtonPressed c
      then c\<lparr>m_MiddleButtonPressed := False\<rparr>
      else c)"

definition tb_cursorDelta :: "GLFWwindow \<Rightarrow> TrackballCameraController \<Rightarrow> dvec2 \<times> TrackballCameraController" where
  "tb_cursorDelta w c =
     (if m_MiddleButtonPressed c
      then (dvec2_sub (glfwGetCursorPos w) (m_LastCursorPosition c),
            c\<lparr>m_LastCursorPosition := glfwGetCursorPos w\<rparr>)
      else ((Finite 0, Finite 0), c))"

text \<open>
  The CTRL branch: the clamp of a zoom-in, the division by the view length, the new eye.
  Nothing guards the division: with a view length of zero the components of the quotient
  are NaN (zero over zero) or infinite, and the camera is rebuilt from them.
\<close>

definition tb_zoom :: "ieee \<Rightarrow> TrackballCameraController \<Rightarrow> bool \<times> TrackballCameraController" where
  "tb_zoom horizontalMovement0 c =
     (if ieee_eq horizontalMovement0 (Finite 0) then (False, c)
      else
        let viewVector = vec3_sub round32 (m_center (m_camera c)) (m_eye (m_camera c));
            viewLength = glm_length round32 viewVector;
            horizontalMovement =
              (if ieee_less (Finite 0) horizontalMovement0
               then glm_min horizontalMovement0 (ieee_sub round32 viewLength f_1e_4)
               else horizontalMovement0);
            front = vec3_div round32 viewVector viewLength;
            translationVector = vec3_scale round32 horizontalMovement front;
            newEye = vec3_add round32 (m_eye (m_camera c)) translationVector
        in (True, c\<lparr>m_camera := mkCamera newEye (m_center (m_camera c)) (m_worldUpAxis c)\<rparr>))"

text \<open>
  The default branch: the orbit about the center. \<open>glm::rotate\<close> and the product of a
  matrix with a vector are functions of the glm library; the update takes their
  composition \<open>vec3(glm::rotate(mat4(1), angle, axis) * vec4(v, 0))\<close> as the parameter
  \<open>rotation angle axis v\<close>.
\<close>

definition tb_rotate ::
  "(ieee \<Rightarrow> vec3 \<Rightarrow> vec3 \<Rightarrow> vec3) \<Rightarrow> ieee \<Rightarrow> ieee \<Rightarrow> TrackballCameraController \<Rightarrow> TrackballCameraController" where
  "tb_rotate rotation horizontalMovement verticalMovement c =
     (let depthAxis = vec3_sub round32 (m_eye (m_camera c)) (m_center (m_camera c));
          horizontalAxis = left (m_camera c);
          rotatedDepthAxis = rotation verticalMovement horizontalAxis depthAxis;
          result = rotation (ieee_neg horizontalMovement) (m_worldUpAxis c) rotatedDepthAxis;
          newEye = vec3_add round32 (m_center (m_camera c)) result
      in c\<lparr>m_camera := mkCamera newEye (m_center (m_camera c)) (m_worldUpAxis c)\<rparr>)"

definition Trackball_update ::
  "(ieee \<Rightarrow> vec3 \<Rightarrow> vec3 \<Rightarrow> vec3) \<Rightarrow> GLFWwindow \<Rightarrow> ieee \<Rightarrow> TrackballCameraController
   \<Rightarrow> bool \<times> TrackballCameraController" where
  "Trackball_update rotation w elapsedTime c0 =
     (let c1 = tb_edge w c0;
          (cursorDelta, c2) = tb_cursorDelta w c1;
          pedestalUp = Finite 0;
          dollyIn = Finite 0;
          horizontalMovement = ieee_mul round32 f_0_01 (to_float (fst cursorDelta));
          verticalMovement = ieee_mul round32 f_0_01 (to_float (snd cursorDelta));
          hasMoved = (to_bool horizontalMovement \<or> to_bool verticalMovement)
      in if \<not> hasMoved then (False, c2)
         else if glfwGetKey w GLFW_KEY_LEFT_SHIFT
         then (True, c2\<lparr>m_camera := moveLocal horizontalMovement pedestalUp dollyIn (m_camera c2)\<rparr>)
         else if glfwGetKey w GLFW_KEY_LEFT_CONTROL
         then tb_zoom horizontalMovement c2
         else (True, tb_rotate rotation horizontalMovement verticalMovement c2))"

section \<open>Auxiliary notions for the statements about the controllers\<close>

text \<open>The cursor delta an update computes, and the controller after the two input statements.\<close>

definition fp_delta :: "GLFWwindow \<Rightarrow> FirstPersonCameraController \<Rightarrow> dvec2" where
  "fp_delta w c = fst (fp_cursorDelta w (fp_edge w c))"

definition fp_polled :: "GLFWwindow \<Rightarrow> FirstPersonCameraController \<Rightarrow> FirstPersonCameraController" where
  "fp_polled w c = snd (fp_cursorDelta w (fp_edge w c))"

definition tb_delta :: "GLFWwindow \<Rightarrow> TrackballCameraController \<Rightarrow> dvec2" where
  "tb_delta w c = fst (tb_cursorDelta w (tb_edge w c))"

definition tb_polled :: "GLFWwindow \<Rightarrow> TrackballCameraController \<Rightarrow> TrackballCameraController" where
  "tb_polled w c = snd (tb_cursorDelta w (tb_edge w c))"

text \<open>The two movements of the trackball update, \<open>0.01f * float(cursorDelta)\<close>.\<close>

definition tb_horizontalMovement :: "GLFWwindow \<Rightarrow> TrackballCameraController \<Rightarrow> ieee" where
  "tb_horizontalMovement w c = ieee_mul round32 f_0_01 (to_float (fst (tb_delta w c)))"

definition tb_verticalMovement :: "GLFWwindow \<Rightarrow> TrackballCameraController \<Rightarrow> ieee" where
  "tb_verticalMovement w c = ieee_mul round32 f_0_01 (to_float (snd (tb_delta w c)))"

text \<open>All six accumulated quantities of the first-person update are zero.\<close>

definition fp_still :: "GLFWwindow \<Rightarrow> ieee \<Rightarrow> FirstPersonCameraController \<Rightarrow> bool" where
  "fp_still w elapsedTime c =
     (fp_truckLeft w (m_fSpeed c) elapsedTime = Finite 0
      \<and> fp_pedestalUp w (m_fSpeed c) elapsedTime = Finite 0
      \<and> fp_dollyIn w (m_fSpeed c) elapsedTime = Finite 0 \<and> fp_rollRightAngle w = Finite 0
      \<and> fp_panLeftAngle (fp_delta w c) = Finite 0 \<and> fp_tiltDownAngle (fp_delta w c) = Finite 0)"

text \<open>The view vector \<open>center - eye\<close> and its length \<open>glm::length(center - eye)\<close>, as the zoom computes them.\<close>

definition view_vector :: "TrackballCameraController \<Rightarrow> vec3" where
  "view_vector c = vec3_sub round32 (m_center (m_camera c)) (m_eye (m_camera c))"

definition view_length :: "TrackballCameraController \<Rightarrow> ieee" where
  "view_length c = glm_length round32 (view_vector c)"

text \<open>A frame that reaches the CTRL branch when the cursor has moved: CTRL held, SHIFT not.\<close>

definition zoom_frame :: "GLFWwindow \<Rightarrow> bool" where
  "zoom_frame w = (glfwGetKey w GLFW_KEY_LEFT_CONTROL \<and> \<not> glfwGetKey w GLFW_KEY_LEFT_SHIFT)"

subsection \<open>Concrete inputs\<close>

text \<open>A window with the middle button held, the cursor at \<open>p\<close> and the given keys.\<close>

definition drag_window :: "cursor \<Rightarrow> (key \<Rightarrow> bool) \<Rightarrow> GLFWwindow" where
  "drag_window p keys =
     \<lparr>glfwGetMouseButton = (\<lambda>b. b = GLFW_MOUSE_BUTTON_MIDDLE), glfwGetCursorPos = p, glfwGetKey = keys\<rparr>"

text \<open>A window with no mouse button held, the cursor at the origin and the given keys.\<close>

definition keys_window :: "(key \<Rightarrow> bool) \<Rightarrow> GLFWwindow" where
  "keys_window keys =
     \<lparr>glfwGetMouseButton = (\<lambda>b. False), glfwGetCursorPos = (0, 0), glfwGetKey = keys\<rparr>"

text \<open>A trackball controller in mid-drag, last cursor position at the origin, world up \<open>+y\<close>.\<close>

definition ex_trackball :: "real \<times> real \<times> real \<Rightarrow> real \<times> real \<times> real \<Rightarrow> TrackballCameraController" where
  "ex_trackball e c =
     \<lparr>m_camera = mkCamera (vec3_of e) (vec3_of c) (vec3_of (0, 1, 0)), m_fSpeed = Finite 1,
      m_worldUpAxis = vec3_of (0, 1, 0), m_LastCursorPosition = (0, 0),
      m_MiddleButtonPressed = True\<rparr>"

definition ex_firstperson :: FirstPersonCameraController where
  "ex_firstperson =
     \<lparr>m_camera = mkCamera (vec3_of (0, 0, 0)) (vec3_of (0, 0, - 1)) (vec3_of (0, 1, 0)),
      m_fSpeed = Finite 1, m_worldUpAxis = vec3_of (0, 1, 0), m_LastCursorPosition = (0, 0),
      m_LeftButtonPressed = False\<rparr>"

text \<open>A distance whose square is below the range of \<open>float\<close>: \<open>2^-100\<close>.\<close>

definition ex_tiny :: real where
  "ex_tiny = 1 / 2 ^ 100"

text \<open>A stand-in for the rotation of the library in the concrete runs: it returns its vector.\<close>

definition ex_rotation :: "ieee \<Rightarrow> vec3 \<Rightarrow> vec3 \<Rightarrow> vec3" where
  "ex_rotation angle axis v = v"

section \<open>Matrices (glm::mat4)\<close>

text \<open>
  A \<open>glm::mat4\<close> is column-major: four columns, each a \<open>glm::vec4\<close>. The matrices of the
  render loop are idealised: their entries are real numbers and their products exact.
  Where the render loop normalises a vector, the vector is taken as a \<open>glm::vec3\<close> of
  finite components and normalised by the function of the library with the exact
  rounding \<open>Finite\<close>, which keeps the NaN of a vector of length zero.
\<close>

type_synonym rvec3 = "real \<times> real \<times> real"
type_synonym vec4 = "real \<times> real \<times> real \<times> real"

datatype mat4 = Mat4 vec4 vec4 vec4 vec4

fun vec4_add :: "vec4 \<Rightarrow> vec4 \<Rightarrow> vec4" where
  "vec4_add (ax, ay, az, aw) (bx, by, bz, bw) = (ax + bx, ay + by, az + bz, aw + bw)"

fun vec4_scale :: "real \<Rightarrow> vec4 \<Rightarrow> vec4" where
  "vec4_scale k (x, y, z, w) = (k * x, k * y, k * z, k * w)"

text \<open>\<open>glm::vec4(v, w)\<close> and \<open>glm::vec3(v4)\<close>.\<close>

fun mk_vec4 :: "rvec3 \<Rightarrow> real \<Rightarrow> vec4" where
  "mk_vec4 (x, y, z) w = (x, y, z, w)"

fun vec4_xyz :: "vec4 \<Rightarrow> rvec3" where
  "vec4_xyz (x, y, z, w) = (x, y, z)"

text \<open>\<open>m * v\<close>: the combination of the columns of \<open>m\<close> with the components of \<open>v\<close>.\<close>

fun mat4_mul_vec4 :: "mat4 \<Rightarrow> vec4 \<Rightarrow> vec4" where
  "mat4_mul_vec4 (Mat4 c0 c1 c2 c3) (x, y, z, w) =
     vec4_add (vec4_add (vec4_add (vec4_scale x c0) (vec4_scale y c1)) (vec4_scale z c2))
              (vec4_scale w c3)"

text \<open>\<open>a * b\<close>: column \<open>j\<close> of the product is \<open>a\<close> times column \<open>j\<close> of \<open>b\<close>.\<close>

fun mat4_mul :: "mat4 \<Rightarrow> mat4 \<Rightarrow> mat4" where
  "mat4_mul a (Mat4 b0 b1 b2 b3) =
     Mat4 (mat4_mul_vec4 a b0) (mat4_mul_vec4 a b1) (mat4_mul_vec4 a b2) (mat4_mul_vec4 a b3)"

text \<open>\<open>glm::mat4(1)\<close>.\<close>

definition mat4_identity :: mat4 where
  "mat4_identity = Mat4 (1, 0, 0, 0) (0, 1, 0, 0) (0, 0, 1, 0) (0, 0, 0, 1)"

fun mat4_transpose :: "mat4 \<Rightarrow> mat4" where
  "mat4_transpose (Mat4 (a0, a1, a2, a3) (b0, b1, b2, b3) (c0, c1, c2, c3) (d0, d1, d2, d3)) =
     Mat4 (a0, b0, c0, d0) (a1, b1, c1, d1) (a2, b2, c2, d2) (a3, b3, c3, d3)"

text \<open>The matrix of the translation by \<open>t\<close>.\<close>

fun translation_matrix :: "rvec3 \<Rightarrow> mat4" where
  "translation_matrix (x, y, z) = Mat4 (1, 0, 0, 0) (0, 1, 0, 0) (0, 0, 1, 0) (x, y, z, 1)"

section \<open>The scene (tinygltf::Model) and the graphics device\<close>

text \<open>
  The fields of the tinygltf structures that the render loop reads. The indices are C++
  \<open>int\<close>s (negative for an absent reference); \<open>byteOffset\<close> and \<open>count\<close> are \<open>size_t\<close>,
  64-bit words whose addition wraps. The attributes of a primitive are a
  \<open>std::map<std::string, int>\<close>, given by its entries in iteration (key) order.
\<close>

record Accessor =
  acc_bufferView :: int
  acc_byteOffset :: "64 word"
  acc_componentType :: int
  acc_count :: "64 word"

record BufferView =
  bv_byteOffset :: "64 word"

record Primitive =
  attributes :: "(string \<times> int) list"
  indices :: int
  mode :: int

record Mesh =
  primitives :: "Primitive list"

text \<open>
  Modelled from the spec: the function \<open>getLocalToWorldMatrix(node, parentMatrix)\<close> is not
  part of the sources at hand. The spec gives \<open>localToWorld = parentTransform *
  node.localTransform\<close>, where the local transform is the explicit matrix of the node or
  the composition \<open>T * R * S\<close> of its translation, rotation and scale. The model keeps that
  local transform of a node as one matrix.
\<close>

record Node =
  localTransform :: mat4
  mesh :: int
  children :: "int list"

text \<open>Modelled from the spec: \<open>localToWorld = parentTransform * node.localTransform\<close>.\<close>

definition getLocalToWorldMatrix :: "Node \<Rightarrow> mat4 \<Rightarrow> mat4" where
  "getLocalToWorldMatrix node parentMatrix = mat4_mul parentMatrix (localTransform node)"

record Scene =
  scene_nodes :: "int list"

record Model =
  nodes :: "Node list"
  meshes :: "Mesh list"
  accessors :: "Accessor list"
  bufferViews :: "BufferView list"
  scenes :: "Scene list"
  defaultScene :: int

record VaoRange =
  vao_begin :: int
  vao_count :: int

text \<open>
  What the lambdas \<open>drawScene\<close> and \<open>drawNode\<close> capture from \<open>ViewerApplication::run\<close>.
  \<open>glm::inverse\<close> is a function of the glm library that nothing proved here depends on; it is a
  field here and not defined.
\<close>

record RenderContext =
  m_nWindowWidth :: int
  m_nWindowHeight :: int
  projMatrix :: mat4
  modelViewProjMatrixLocation :: int
  modelViewMatrixLocation :: int
  normalMatrixLocation :: int
  lightDirectionLocation :: int
  lightIntensityLocation :: int
  lightDirection :: rvec3
  lightIntensity :: rvec3
  lightFromCamera :: bool
  vertexArrayObjects :: "nat list"
  meshToVertexArrays :: "VaoRange list"
  glm_inverse :: "mat4 \<Rightarrow> mat4"

text \<open>The calls to the graphics device, with their arguments. \<open>GLsizei\<close> is a 32-bit integer.\<close>

datatype gl_call =
    glViewport int int int int
  | glClear
  | glUniform3f int ieee ieee ieee
  | glUniformMatrix4fv int mat4
  | glBindVertexArray nat
  | glDrawElements int "32 word" int "64 word"
  | glDrawArrays int int "32 word"

datatype error = IndexOutOfRange | EmptyAttributes | RecursionLimit

text \<open>
  \<open>v[i]\<close> on a \<open>std::vector\<close>: an index outside the vector is undefined behaviour in C++;
  in the model it is the error \<open>IndexOutOfRange\<close>.
\<close>

definition at_index :: "'a list \<Rightarrow> int \<Rightarrow> error + 'a" where
  "at_index xs i = (if 0 \<le> i \<and> i < int (length xs) then Inr (xs ! nat i) else Inl IndexOutOfRange)"

section \<open>Drawing a frame\<close>

text \<open>The body of the loop over the primitives of a mesh: bind the VAO, issue one draw call.\<close>

definition drawPrimitive ::
  "RenderContext \<Rightarrow> Model \<Rightarrow> VaoRange \<Rightarrow> nat \<Rightarrow> Primitive \<Rightarrow> error + gl_call list" where
  "drawPrimitive ctx model vaoRange pIdx primitive =
     (case at_index (vertexArrayObjects ctx) (vao_begin vaoRange + int pIdx) of
        Inl e \<Rightarrow> Inl e
      | Inr vao \<Rightarrow>
          if indices primitive \<ge> 0 then
            (case at_index (accessors model) (indices primitive) of
               Inl e \<Rightarrow> Inl e
             | Inr accessor \<Rightarrow>
                 (case at_index (bufferViews model) (acc_bufferView accessor) of
                    Inl e \<Rightarrow> Inl e
                  | Inr bufferView \<Rightarrow>
                      let byteOffset = acc_byteOffset accessor + bv_byteOffset bufferView
                      in Inr [glBindVertexArray vao,
                              glDrawElements (mode primitive) (ucast (acc_count accessor))
                                (acc_componentType accessor) byteOffset]))
          else
            (case attributes primitive of
               [] \<Rightarrow> Inl EmptyAttributes
             | first # rest \<Rightarrow>
                 let accessorIdx = snd first
                 in (case at_index (accessors model) accessorIdx of
                       Inl e \<Rightarrow> Inl e
                     | Inr accessor \<Rightarrow>
                         Inr [glBindVertexArray vao,
                              glDrawArrays (mode primitive) 0 (ucast (acc_count accessor))])))"

text \<open>The loop \<open>for (size_t pIdx = 0; pIdx < mesh.primitives.size(); ++pIdx)\<close>, from \<open>pIdx\<close> on.\<close>

fun drawPrimitives ::
  "RenderContext \<Rightarrow> Model \<Rightarrow> VaoRange \<Rightarrow> nat \<Rightarrow> Primitive list \<Rightarrow> error + gl_call list" where
  "drawPrimitives ctx model vaoRange pIdx [] = Inr []"
| "drawPrimitives ctx model vaoRange pIdx (primitive # rest) =
     (case drawPrimitive ctx model vaoRange pIdx primitive of
        Inl e \<Rightarrow> Inl e
      | Inr issued \<Rightarrow>
          (case drawPrimitives ctx model vaoRange (Suc pIdx) rest of
             Inl e \<Rightarrow> Inl e
           | Inr others \<Rightarrow> Inr (issued @ others)))"

text \<open>The block \<open>if (node.mesh >= 0)\<close> of \<open>drawNode\<close>: three matrix uniforms, then the primitives.\<close>

definition drawMesh ::
  "RenderContext \<Rightarrow> Model \<Rightarrow> mat4 \<Rightarrow> Node \<Rightarrow> mat4 \<Rightarrow> error + gl_call list" where
  "drawMesh ctx model viewMatrix node modelMatrix =
     (if mesh node \<ge> 0 then
        let mvMatrix = mat4_mul viewMatrix modelMatrix;
            mvpMatrix = mat4_mul (projMatrix ctx) mvMatrix;
            normalMatrix = mat4_transpose (glm_inverse ctx mvMatrix);
            uniforms = [glUniformMatrix4fv (modelViewProjMatrixLocation ctx) mvpMatrix,
                        glUniformMatrix4fv (modelViewMatrixLocation ctx) mvMatrix,
                        glUniformMatrix4fv (normalMatrixLocation ctx) normalMatrix]
        in (case at_index (meshes model) (mesh node) of
              Inl e \<Rightarrow> Inl e
            | Inr m \<Rightarrow>
                (case at_index (meshToVertexArrays ctx) (mesh node) of
                   Inl e \<Rightarrow> Inl e
                 | Inr vaoRange \<Rightarrow>
                     (case drawPrimitives ctx model vaoRange 0 (primitives m) of
                        Inl e \<Rightarrow> Inl e
                      | Inr issued \<Rightarrow> Inr (uniforms @ issued))))
      else Inr [])"

text \<open>
  One invocation of \<open>drawNode\<close>: the node it was called on, the model matrix it computed
  and the device calls it issued itself (those of its recursive calls are their own
  entries).
\<close>

record NodeVisit =
  visited :: int
  modelMatrix :: mat4
  calls :: "gl_call list"

text \<open>
  The recursive lambda \<open>drawNode\<close> and its loop over the children. On a cyclic graph the
  C++ recursion does not end; the model bounds the recursion depth by its first argument
  and yields \<open>RecursionLimit\<close> when the bound is reached.
\<close>

fun drawNode ::
  "nat \<Rightarrow> RenderContext \<Rightarrow> Model \<Rightarrow> mat4 \<Rightarrow> int \<Rightarrow> mat4 \<Rightarrow> error + NodeVisit list"
and drawChildren ::
  "nat \<Rightarrow> RenderContext \<Rightarrow> Model \<Rightarrow> mat4 \<Rightarrow> int list \<Rightarrow> mat4 \<Rightarrow> error + NodeVisit list" where
  "drawNode 0 ctx model viewMatrix nodeIdx parentMatrix = Inl RecursionLimit"
| "drawNode (Suc depth) ctx model viewMatrix nodeIdx parentMatrix =
     (case at_index (nodes model) nodeIdx of
        Inl e \<Rightarrow> Inl e
      | Inr node \<Rightarrow>
          (case drawMesh ctx model viewMatrix node (getLocalToWorldMatrix node parentMatrix) of
             Inl e \<Rightarrow> Inl e
           | Inr own \<Rightarrow>
               (case drawChildren depth ctx model viewMatrix (children node)
                       (getLocalToWorldMatrix node parentMatrix) of
                  Inl e \<Rightarrow> Inl e
                | Inr below \<Rightarrow>
                    Inr (\<lparr>visited = nodeIdx,
                          modelMatrix = getLocalToWorldMatrix node parentMatrix,
                          calls = own\<rparr> # below))))"
| "drawChildren depth ctx model viewMatrix [] parentMatrix = Inr []"
| "drawChildren depth ctx model viewMatrix (childNodeIdx # rest) parentMatrix =
     (case drawNode depth ctx model viewMatrix childNodeIdx parentMatrix of
        Inl e \<Rightarrow> Inl e
      | Inr first \<Rightarrow>
          (case drawChildren depth ctx model viewMatrix rest parentMatrix of
             Inl e \<Rightarrow> Inl e
           | Inr others \<Rightarrow> Inr (first @ others)))"

text \<open>The light uniforms of \<open>drawScene\<close>.\<close>

definition lightDirectionCalls :: "RenderContext \<Rightarrow> mat4 \<Rightarrow> gl_call list" where
  "lightDirectionCalls ctx viewMatrix =
     (if lightDirectionLocation ctx \<ge> 0 then
        if lightFromCamera ctx
        then [glUniform3f (lightDirectionLocation ctx) (Finite 0) (Finite 0) (Finite 1)]
        else
          let viewLightDirection =
                glm_normalize Finite
                  (vec3_of (vec4_xyz (mat4_mul_vec4 viewMatrix (mk_vec4 (lightDirection ctx) 0))))
          in [glUniform3f (lightDirectionLocation ctx) (fst viewLightDirection)
                (fst (snd viewLightDirection)) (snd (snd viewLightDirection))]
      else [])"

definition lightIntensityCalls :: "RenderContext \<Rightarrow> gl_call list" where
  "lightIntensityCalls ctx =
     (if lightIntensityLocation ctx \<ge> 0 then
        [glUniform3f (lightIntensityLocation ctx) (Finite (fst (lightIntensity ctx)))
           (Finite (fst (snd (lightIntensity ctx)))) (Finite (snd (snd (lightIntensity ctx))))]
      else [])"

text \<open>
  A rendered frame: the calls before the traversal, the invocations of \<open>drawNode\<close> in the
  order in which they were entered, and the calls after the traversal.
\<close>

record Frame =
  prologue :: "gl_call list"
  visits :: "NodeVisit list"
  epilogue :: "gl_call list"

text \<open>
  The lambda \<open>drawScene\<close>. The view matrix is \<open>camera.getViewMatrix()\<close>, a method of the
  missing header, and is taken as an argument. The loop over the roots of the default
  scene has the shape of the loop over the children of a node, with \<open>glm::mat4(1)\<close> as the
  parent matrix.
\<close>

definition drawScene :: "nat \<Rightarrow> RenderContext \<Rightarrow> Model \<Rightarrow> mat4 \<Rightarrow> error + Frame" where
  "drawScene depth ctx model viewMatrix =
     (let before = [glViewport 0 0 (m_nWindowWidth ctx) (m_nWindowHeight ctx), glClear]
                     @ lightDirectionCalls ctx viewMatrix @ lightIntensityCalls ctx
      in if defaultScene model \<ge> 0 then
           (case at_index (scenes model) (defaultScene model) of
              Inl e \<Rightarrow> Inl e
            | Inr scene \<Rightarrow>
                (case drawChildren depth ctx model viewMatrix (scene_nodes scene) mat4_identity of
                   Inl e \<Rightarrow> Inl e
                 | Inr vs \<Rightarrow> Inr \<lparr>prologue = before, visits = vs, epilogue = [glBindVertexArray 0]\<rparr>))
         else Inr \<lparr>prologue = before, visits = [], epilogue = [glBindVertexArray 0]\<rparr>)"

text \<open>The sequence of device calls of a frame.\<close>

definition gl_trace :: "Frame \<Rightarrow> gl_call list" where
  "gl_trace f = prologue f @ concat (map calls (visits f)) @ epilogue f"

section \<open>Auxiliary notions for the statements about a frame\<close>

subsection \<open>Concrete scenes\<close>

text \<open>A context with a light-direction uniform at location 3 and two vertex array objects.\<close>

definition ex_ctx :: RenderContext where
  "ex_ctx =
     \<lparr>m_nWindowWidth = 1280, m_nWindowHeight = 720, projMatrix = mat4_identity,
      modelViewProjMatrixLocation = 0, modelViewMatrixLocation = 1, normalMatrixLocation = 2,
      lightDirectionLocation = 3, lightIntensityLocation = 4,
      lightDirection = (0, 3, 4), lightIntensity = (1, 1, 1), lightFromCamera = False,
      vertexArrayObjects = [7, 8], meshToVertexArrays = [\<lparr>vao_begin = 0, vao_count = 2\<rparr>],
      glm_inverse = (\<lambda>m. m)\<rparr>"

text \<open>
  Two primitives of one mesh: the first indexed through accessor 1 (36 indices of
  component type 5123 at byte offset 8 of a buffer view at byte offset 1024), the second
  not indexed, with the attributes NORMAL and POSITION (accessors 2 and 0).
\<close>

definition ex_indexed :: Primitive where
  "ex_indexed = \<lparr>attributes = [(''POSITION'', 0)], indices = 1, mode = 4\<rparr>"

definition ex_plain :: Primitive where
  "ex_plain = \<lparr>attributes = [(''NORMAL'', 2), (''POSITION'', 0)], indices = - 1, mode = 4\<rparr>"

definition ex_model :: "Node list \<Rightarrow> int list \<Rightarrow> Model" where
  "ex_model ns roots =
     \<lparr>nodes = ns,
      meshes = [\<lparr>primitives = [ex_indexed, ex_plain]\<rparr>],
      accessors =
        [\<lparr>acc_bufferView = 0, acc_byteOffset = 0, acc_componentType = 5126, acc_count = 24\<rparr>,
         \<lparr>acc_bufferView = 1, acc_byteOffset = 8, acc_componentType = 5123, acc_count = 36\<rparr>,
         \<lparr>acc_bufferView = 0, acc_byteOffset = 288, acc_componentType = 5126, acc_count = 24\<rparr>],
      bufferViews = [\<lparr>bv_byteOffset = 0\<rparr>, \<lparr>bv_byteOffset = 1024\<rparr>],
      scenes = [\<lparr>scene_nodes = roots\<rparr>],
      defaultScene = 0\<rparr>"

subsection \<open>The scene graph and its unfolding\<close>

text \<open>The edges of the scene graph: \<open>(i, c)\<close> when node \<open>i\<close> exists and lists \<open>c\<close> as a child.\<close>

definition child_edge :: "Model \<Rightarrow> (int \<times> int) set" where
  "child_edge model =
     {(i, c). 0 \<le> i \<and> i < int (length (nodes model)) \<and> c \<in> set (children (nodes model ! nat i))}"

text \<open>Every child index names a node of the model.\<close>

definition children_in_range :: "Model \<Rightarrow> bool" where
  "children_in_range model =
     (\<forall>node \<in> set (nodes model). \<forall>c \<in> set (children node). 0 \<le> c \<and> c < int (length (nodes model)))"

text \<open>
  The mesh block of every node succeeds: its mesh, its VAO range, its VAOs and the
  accessors and buffer views of its primitives are in range.
\<close>

definition meshes_drawable :: "RenderContext \<Rightarrow> Model \<Rightarrow> bool" where
  "meshes_drawable ctx model =
     (\<forall>node \<in> set (nodes model). \<forall>viewMatrix modelMatrix.
        \<exists>issued. drawMesh ctx model viewMatrix node modelMatrix = Inr issued)"

text \<open>
  No node is listed twice, neither among the roots of the scene nor among the children of
  the nodes: every node has at most one parent, and a root has none.
\<close>

definition listed_once :: "Model \<Rightarrow> int list \<Rightarrow> bool" where
  "listed_once model roots = distinct (roots @ concat (map children (nodes model)))"

text \<open>
  The tree that a traversal from a node walks: the node, and below it the trees of its
  children in listed order. It is the unfolding of the graph from that node; a graph
  with a cycle through the node has none.
\<close>

datatype scene_tree = Tree int "scene_tree list"

inductive unfolds_to :: "Model \<Rightarrow> int \<Rightarrow> scene_tree \<Rightarrow> bool" for model :: Model where
  unfolds_to_node:
    "0 \<le> i \<Longrightarrow> i < int (length (nodes model)) \<Longrightarrow>
     list_all2 (unfolds_to model) (children (nodes model ! nat i)) ts \<Longrightarrow>
     unfolds_to model i (Tree i ts)"

text \<open>
  The depth-first pre-order of a tree, children in listed order, each node with its world
  transform: the transform of its parent (for a root, the given one) times its local
  transform.
\<close>

fun preorder :: "Model \<Rightarrow> mat4 \<Rightarrow> scene_tree \<Rightarrow> (int \<times> mat4) list" where
  "preorder model parentMatrix (Tree i ts) =
     (i, mat4_mul parentMatrix (localTransform (nodes model ! nat i)))
       # concat (map (preorder model (mat4_mul parentMatrix (localTransform (nodes model ! nat i)))) ts)"

fun tree_nodes :: "scene_tree \<Rightarrow> int list" where
  "tree_nodes (Tree i ts) = i # concat (map tree_nodes ts)"

fun tree_height :: "scene_tree \<Rightarrow> nat" where
  "tree_height (Tree i ts) = Suc (fold max (map tree_height ts) 0)"

text \<open>What a visit says about the traversal: the node and its world transform.\<close>

definition visit_key :: "NodeVisit \<Rightarrow> int \<times> mat4" where
  "visit_key v = (visited v, modelMatrix v)"

subsection \<open>Concrete scene graphs\<close>

definition ex_node :: "rvec3 \<Rightarrow> int list \<Rightarrow> Node" where
  "ex_node t cs = \<lparr>localTransform = translation_matrix t, mesh = - 1, children = cs\<rparr>"

text \<open>A diamond: node 0 has the children 1 and 2, and both have the child 3.\<close>

definition ex_diamond :: Model where
  "ex_diamond =
     ex_model [ex_node (0, 0, 0) [1, 2], ex_node (1, 0, 0) [3], ex_node (0, 1, 0) [3],
               ex_node (0, 0, 1) []] [0]"

text \<open>A chain of three nodes under the translations \<open>(1,0,0)\<close>, \<open>(0,1,0)\<close>, \<open>(0,0,1)\<close>.\<close>

definition ex_chain :: Model where
  "ex_chain =
     ex_model [ex_node (1, 0, 0) [1], ex_node (0, 1, 0) [2], ex_node (0, 0, 1) []] [0]"

section \<open>Rounding\<close>

lemma pow2_powr: "pow2 e = 2 powr (real_of_int e)"
  by (simp add: pow2_def powr_int)

lemma pow2_pos: "0 < pow2 e"
  by (simp add: pow2_powr)

lemma pow2_add: "pow2 (a + b) = pow2 a * pow2 b"
  by (simp add: pow2_powr powr_add)

lemma pow2_nat: "pow2 (int n) = 2 ^ n"
  by (simp add: pow2_def)

text \<open>The nearest integer, where there is one, and the even one of two.\<close>

lemma ties_even_near:
  assumes "\<bar>q - of_int n\<bar> < 1 / 2"
  shows "ties_even q = n"
proof (cases "of_int n \<le> q")
  case True
  with assms have "\<lfloor>q\<rfloor> = n" by (intro floor_unique) auto
  with assms True show ?thesis by (simp add: ties_even_def)
next
  case False
  with assms have f: "\<lfloor>q\<rfloor> = n - 1" by (intro floor_unique) auto
  from False assms have "1 / 2 < q - of_int (n - 1)" by auto
  with f show ?thesis by (simp add: ties_even_def)
qed

lemma ties_even_int: "ties_even (of_int n) = n"
  by (rule ties_even_near) simp

lemma ties_even_tie:
  assumes "\<bar>q - of_int n\<bar> = 1 / 2" and "even n"
  shows "ties_even q = n"
proof (cases "of_int n \<le> q")
  case True
  with assms(1) have q: "q = of_int n + 1 / 2" by auto
  then have "\<lfloor>q\<rfloor> = n" by (intro floor_unique) auto
  with q assms(2) show ?thesis by (simp add: ties_even_def)
next
  case False
  with assms(1) have q: "q = of_int (n - 1) + 1 / 2" by auto
  then have "\<lfloor>q\<rfloor> = n - 1" by (intro floor_unique) auto
  with q assms(2) show ?thesis by (simp add: ties_even_def)
qed

text \<open>The binade that the rounding of \<open>x\<close> works in.\<close>

lemma used_exponent:
  assumes "x \<noteq> 0" and "\<bar>x\<bar> < pow2 (e + 1)" and "emin \<le> e" and "e = emin \<or> pow2 e \<le> \<bar>x\<bar>"
  shows "max \<lfloor>log 2 \<bar>x\<bar>\<rfloor> emin = e"
proof (cases "pow2 e \<le> \<bar>x\<bar>")
  case True
  have "\<lfloor>log 2 \<bar>x\<bar>\<rfloor> = e"
    using assms(1,2) True by (subst floor_log_eq_powr_iff) (simp_all add: pow2_powr)
  with assms(3) show ?thesis by simp
next
  case False
  with assms(4) have e: "e = emin" by simp
  from False have "\<bar>x\<bar> < 2 powr (real_of_int e)" by (simp add: pow2_powr)
  then have "log 2 \<bar>x\<bar> < real_of_int e" using assms(1) by (subst log_less_iff) simp_all
  then have "\<lfloor>log 2 \<bar>x\<bar>\<rfloor> < e" by linarith
  with e show ?thesis by simp
qed

lemma round_to_eval:
  assumes "x \<noteq> 0" and "\<bar>x\<bar> < pow2 (e + 1)" and "emin \<le> e" and "e = emin \<or> pow2 e \<le> \<bar>x\<bar>"
    and "ties_even (x / pow2 (e - int p + 1)) = n"
    and "\<bar>of_int n * pow2 (e - int p + 1)\<bar> < pow2 (emax + 1)"
  shows "round_to p emin emax x = Finite (of_int n * pow2 (e - int p + 1))"
  using assms(1,5,6) by (simp add: round_to_def used_exponent [OF assms(1-4)] Let_def)

text \<open>A number of the format is its own rounding.\<close>

lemma round_to_exact:
  assumes x: "x = of_int m * pow2 k" and m: "\<bar>m\<bar> < 2 ^ p"
    and k: "emin - int p + 1 \<le> k" and b: "\<bar>x\<bar> < pow2 (emax + 1)"
  shows "round_to p emin emax x = Finite x"
proof (cases "x = 0")
  case True
  then show ?thesis by (simp add: round_to_def)
next
  case False
  let ?e = "max \<lfloor>log 2 \<bar>x\<bar>\<rfloor> emin"
  let ?s = "?e - int p + 1"
  have "\<bar>x\<bar> = real_of_int \<bar>m\<bar> * pow2 k" using x pow2_pos [of k] by (simp add: abs_mult)
  also have "\<dots> < 2 ^ p * pow2 k"
  proof -
    have "real_of_int \<bar>m\<bar> < 2 ^ p" using m by (metis of_int_less_iff of_int_numeral of_int_power)
    then show ?thesis using pow2_pos [of k] by simp
  qed
  also have "\<dots> = 2 powr (real_of_int (int p + k))"
    by (simp add: pow2_powr powr_add powr_realpow)
  finally have "log 2 \<bar>x\<bar> < real_of_int (int p + k)"
    using False by (subst log_less_iff) simp_all
  then have "\<lfloor>log 2 \<bar>x\<bar>\<rfloor> < int p + k" by linarith
  with k have s: "?s \<le> k" by simp
  define j where "j = nat (k - ?s)"
  define u where "u = pow2 ?s"
  have kj: "k = ?s + int j" using s by (simp add: j_def)
  have "pow2 k = pow2 ?s * 2 ^ j" by (subst kj, simp only: pow2_add pow2_nat)
  then have pk: "pow2 k = u * 2 ^ j" by (simp add: u_def)
  have u: "0 < u" by (simp add: u_def pow2_pos)
  have xu: "x = of_int (m * 2 ^ j) * u" using x pk by simp
  then have q: "x / u = of_int (m * 2 ^ j)" using u by simp
  have y: "of_int (ties_even (x / u)) * u = x"
    unfolding q ties_even_int using xu by simp
  show ?thesis
    using False b y by (simp add: round_to_def Let_def u_def)
qed

text \<open>The three ways in which the rounding of a given number is computed below.\<close>

lemma round32_near:
  assumes "x \<noteq> 0" and "\<bar>x\<bar> < pow2 (e + 1)" and "- 126 \<le> e" and "e = - 126 \<or> pow2 e \<le> \<bar>x\<bar>"
    and "\<bar>x / pow2 (e - 23) - of_int n\<bar> < 1 / 2"
    and "v = of_int n * pow2 (e - 23)" and "\<bar>v\<bar> < pow2 128"
  shows "round32 x = Finite v"
  unfolding round32_def
  using round_to_eval [where p = 24 and emin = "- 126" and emax = 127 and e = e and n = n and x = x]
    assms ties_even_near [OF assms(5)]
  by simp

lemma round32_tie:
  assumes "x \<noteq> 0" and "\<bar>x\<bar> < pow2 (e + 1)" and "- 126 \<le> e" and "e = - 126 \<or> pow2 e \<le> \<bar>x\<bar>"
    and "\<bar>x / pow2 (e - 23) - of_int n\<bar> = 1 / 2" and "even n"
    and "v = of_int n * pow2 (e - 23)" and "\<bar>v\<bar> < pow2 128"
  shows "round32 x = Finite v"
  unfolding round32_def
  using round_to_eval [where p = 24 and emin = "- 126" and emax = 127 and e = e and n = n and x = x]
    assms ties_even_tie [OF assms(5,6)]
  by simp

lemma round32_val:
  assumes "x = v" and "v = of_int m * pow2 k" and "\<bar>m\<bar> < 16777216" and "- 149 \<le> k"
    and "\<bar>v\<bar> < pow2 128"
  shows "round32 x = Finite v"
  unfolding round32_def assms(1)
  using assms(2-5) by (intro round_to_exact [where m = m and k = k]) simp_all

lemma round64_val:
  assumes "x = v" and "v = of_int m * pow2 k" and "\<bar>m\<bar> < 9007199254740992" and "- 1074 \<le> k"
    and "\<bar>v\<bar> < pow2 1024"
  shows "round64 x = Finite v"
  unfolding round64_def assms(1)
  using assms(2-5) by (intro round_to_exact [where m = m and k = k]) simp_all

lemma round32_0 [simp]: "round32 0 = Finite 0"
  by (simp add: round32_def round_to_def)

lemma round64_0 [simp]: "round64 0 = Finite 0"
  by (simp add: round64_def round_to_def)

lemma round32_int:
  assumes "\<bar>m\<bar> < 16777216"
  shows "round32 (of_int m) = Finite (of_int m)"
  using assms by (intro round32_val [where m = m and k = 0]) (simp_all add: pow2_def)

lemma round64_int:
  assumes "\<bar>m\<bar> < 16777216"
  shows "round64 (of_int m) = Finite (of_int m)"
  using assms by (intro round64_val [where m = m and k = 0]) (simp_all add: pow2_def)

lemma round32_1 [simp]: "round32 1 = Finite 1"
  using round32_int [of 1] by simp

lemma round32_minus_1 [simp]: "round32 (- 1) = Finite (- 1)"
  using round32_int [of "- 1"] by simp

lemma round32_numeral [simp]:
  "(numeral k :: int) < 16777216 \<Longrightarrow> round32 (numeral k) = Finite (numeral k)"
  using round32_int [of "numeral k"] by simp

lemma round32_neg_numeral [simp]:
  "(numeral k :: int) < 16777216 \<Longrightarrow> round32 (- numeral k) = Finite (- numeral k)"
  using round32_int [of "- numeral k"] by simp

lemma round64_numeral [simp]:
  "(numeral k :: int) < 16777216 \<Longrightarrow> round64 (numeral k) = Finite (numeral k)"
  using round64_int [of "numeral k"] by simp

lemma round64_neg_numeral [simp]:
  "(numeral k :: int) < 16777216 \<Longrightarrow> round64 (- numeral k) = Finite (- numeral k)"
  using round64_int [of "- numeral k"] by simp

text \<open>The literals: \<open>0.01f = 10737418 * 2^-30\<close> and \<open>1e-4f = 13743895 * 2^-37\<close>.\<close>

lemma f_0_01_val: "f_0_01 = Finite (5368709 / 536870912)"
  unfolding f_0_01_def
  by (rule round32_near [where e = "- 7" and n = 10737418]) (simp_all add: pow2_def)

lemma f_1e_4_val: "f_1e_4 = Finite (13743895 / 137438953472)"
  unfolding f_1e_4_def
  by (rule round32_near [where e = "- 14" and n = 13743895]) (simp_all add: pow2_def)

lemma round_to_nonneg:
  assumes "0 \<le> x" and "round_to p emin emax x = Finite y"
  shows "0 \<le> y"
proof (cases "x = 0")
  case True
  with assms(2) show ?thesis by (simp add: round_to_def)
next
  case False
  define u where "u = pow2 (max \<lfloor>log 2 \<bar>x\<bar>\<rfloor> emin - int p + 1)"
  have u: "0 < u" by (simp add: u_def pow2_pos)
  with assms(1) have "0 \<le> x / u" by simp
  then have "0 \<le> \<lfloor>x / u\<rfloor>" by simp
  then have "0 \<le> ties_even (x / u)" by (simp add: ties_even_def)
  then have "0 \<le> real_of_int (ties_even (x / u)) * u" using u by simp
  moreover from assms(2) False have "y = real_of_int (ties_even (x / u)) * u"
    by (simp add: round_to_def Let_def u_def split: if_splits)
  ultimately show ?thesis by simp
qed

text \<open>The rounding of a number does not fall below the binade of the number.\<close>

lemma ties_even_lower:
  assumes "of_int N \<le> q"
  shows "N \<le> ties_even q"
proof -
  from assms have "N \<le> \<lfloor>q\<rfloor>" by (simp add: le_floor_iff)
  then show ?thesis by (simp add: ties_even_def)
qed

lemma ties_even_upper:
  assumes "q \<le> of_int N"
  shows "ties_even q \<le> N"
proof (cases "q = of_int \<lfloor>q\<rfloor>")
  case True
  with assms have "\<lfloor>q\<rfloor> \<le> N" by (metis of_int_le_iff)
  with True show ?thesis by (simp add: ties_even_def)
next
  case False
  then have "of_int \<lfloor>q\<rfloor> < q" by (metis of_int_floor_le order_le_less)
  with assms have "\<lfloor>q\<rfloor> < N" by (metis of_int_less_iff order_less_le_trans)
  then show ?thesis by (simp add: ties_even_def)
qed

lemma round_to_magnitude:
  assumes "pow2 e \<le> \<bar>x\<bar>" and "emin \<le> e" and "0 < p"
    and "round_to p emin emax x = Finite y"
  shows "pow2 e \<le> \<bar>y\<bar>"
proof -
  from assms(1) pow2_pos [of e] have x0: "x \<noteq> 0" by auto
  define f where "f = \<lfloor>log 2 \<bar>x\<bar>\<rfloor>"
  have "2 powr (real_of_int e) \<le> \<bar>x\<bar>" using assms(1) by (simp add: pow2_powr)
  then have "real_of_int e \<le> log 2 \<bar>x\<bar>" using x0 by (simp add: le_log_iff)
  then have ef: "e \<le> f" by (simp add: f_def le_floor_iff)
  with assms(2) have m: "max f emin = f" by simp
  have "real_of_int f \<le> log 2 \<bar>x\<bar>" by (simp add: f_def)
  then have fx: "pow2 f \<le> \<bar>x\<bar>" using x0 by (simp add: pow2_powr le_log_iff)
  define u where "u = pow2 (f - int p + 1)"
  have u: "0 < u" by (simp add: u_def pow2_pos)
  define N :: int where "N = 2 ^ (p - 1)"
  have "pow2 f = pow2 (int (p - 1)) * u"
    unfolding u_def pow2_add [symmetric] using assms(3) by (simp add: of_nat_diff)
  then have Nu: "pow2 f = of_int N * u" by (simp add: N_def pow2_nat)
  from assms(4) x0 have y: "y = of_int (ties_even (x / u)) * u"
    by (simp add: round_to_def Let_def f_def [symmetric] m u_def split: if_splits)
  have "pow2 f \<le> \<bar>y\<bar>"
  proof (cases "0 < x")
    case True
    with fx Nu have "of_int N * u \<le> x" by simp
    then have "of_int N \<le> x / u" using u by (simp add: pos_le_divide_eq)
    then have "N \<le> ties_even (x / u)" by (rule ties_even_lower)
    then have "of_int N * u \<le> of_int (ties_even (x / u)) * u" using u by simp
    with y Nu show ?thesis by simp
  next
    case False
    with x0 fx Nu have "x \<le> - (of_int N * u)" by simp
    then have "x / u \<le> of_int (- N)" using u by (simp add: pos_divide_le_eq)
    then have "ties_even (x / u) \<le> - N" by (rule ties_even_upper)
    then have "of_int (ties_even (x / u)) * u \<le> of_int (- N) * u"
      using u by (metis mult_le_cancel_right of_int_le_iff order_less_asym)
    with y Nu show ?thesis by simp
  qed
  moreover have "pow2 e \<le> pow2 f" using ef by (simp add: pow2_powr)
  ultimately show ?thesis by linarith
qed

text \<open>The rounding of a number within a power of two stays within it, and is finite.\<close>

lemma round_to_bounded:
  assumes "\<bar>x\<bar> \<le> pow2 k" and "emin - int p + 1 \<le> k" and "k \<le> emax" and "0 < p"
  shows "\<exists>y. round_to p emin emax x = Finite y \<and> \<bar>y\<bar> \<le> pow2 k"
proof (cases "x = 0")
  case True
  then show ?thesis using pow2_pos [of k] by (simp add: round_to_def)
next
  case False
  define f where "f = \<lfloor>log 2 \<bar>x\<bar>\<rfloor>"
  define e where "e = max f emin"
  define u where "u = pow2 (e - int p + 1)"
  have u: "0 < u" by (simp add: u_def pow2_pos)
  have "\<bar>x\<bar> \<le> 2 powr (real_of_int k)" using assms(1) by (simp add: pow2_powr)
  then have "log 2 \<bar>x\<bar> \<le> real_of_int k" using False by (simp add: log_le_iff)
  then have "f \<le> k" unfolding f_def by (simp add: floor_le_iff)
  with assms(2,4) have ek: "e - int p + 1 \<le> k" by (simp add: e_def)
  define j where "j = nat (k - (e - int p + 1))"
  define N :: int where "N = 2 ^ j"
  have "k = (e - int p + 1) + int j" using ek by (simp add: j_def)
  then have "pow2 k = u * pow2 (int j)" unfolding u_def by (simp only: pow2_add)
  then have kN: "pow2 k = of_int N * u" by (simp add: N_def pow2_nat)
  from assms(1) kN have "x \<le> of_int N * u" and "- (of_int N * u) \<le> x" by linarith+
  then have "x / u \<le> of_int N" and "of_int (- N) \<le> x / u"
    using u by (simp_all add: pos_divide_le_eq pos_le_divide_eq)
  then have "ties_even (x / u) \<le> N" and "- N \<le> ties_even (x / u)"
    by (simp_all only: ties_even_upper ties_even_lower)
  then have "\<bar>ties_even (x / u)\<bar> \<le> N" by linarith
  then have "real_of_int \<bar>ties_even (x / u)\<bar> \<le> real_of_int N" by (simp only: of_int_le_iff)
  then have "\<bar>real_of_int (ties_even (x / u)) * u\<bar> \<le> of_int N * u"
    using u by (simp add: abs_mult)
  then have b: "\<bar>real_of_int (ties_even (x / u)) * u\<bar> \<le> pow2 k" by (simp add: kN)
  have "pow2 k < pow2 (emax + 1)" using assms(3) by (simp add: pow2_powr)
  with b have "\<not> pow2 (emax + 1) \<le> \<bar>real_of_int (ties_even (x / u)) * u\<bar>" by linarith
  then have "round_to p emin emax x = Finite (real_of_int (ties_even (x / u)) * u)"
    using False by (simp add: round_to_def Let_def f_def [symmetric] e_def [symmetric] u_def)
  with b show ?thesis by blast
qed

text \<open>A rounding is never NaN, that of a number that is not negative is not negative, and a
  finite rounding that is not zero has at least the size of the smallest number of the format.\<close>

lemma round_to_not_NaN: "round_to p emin emax x \<noteq> NaN"
  by (simp add: round_to_def Let_def)

lemma round_to_not_NInf:
  assumes "0 \<le> x"
  shows "round_to p emin emax x \<noteq> NInf"
  using assms by (simp add: round_to_def Let_def)

lemma round_to_least:
  assumes "round_to p emin emax x = Finite y" and "y \<noteq> 0"
  shows "pow2 (emin - int p + 1) \<le> \<bar>y\<bar>"
proof -
  define e where "e = max \<lfloor>log 2 \<bar>x\<bar>\<rfloor> emin"
  define u where "u = pow2 (e - int p + 1)"
  define n where "n = ties_even (x / u)"
  have u: "0 < u" by (simp add: u_def pow2_pos)
  from assms have x0: "x \<noteq> 0" by (auto simp: round_to_def)
  with assms(1) have y: "y = of_int n * u"
    by (simp add: round_to_def Let_def e_def [symmetric] u_def n_def split: if_splits)
  with assms(2) have "n \<noteq> 0" by auto
  then have "1 \<le> \<bar>n\<bar>" by linarith
  then have "1 \<le> real_of_int \<bar>n\<bar>" by (metis of_int_1_le_iff)
  then have "u \<le> real_of_int \<bar>n\<bar> * u" using u by simp
  then have "u \<le> \<bar>y\<bar>" using u by (simp add: y abs_mult)
  moreover have "pow2 (emin - int p + 1) \<le> u" by (simp add: u_def e_def pow2_powr)
  ultimately show ?thesis by linarith
qed

section \<open>Facts about the operations\<close>

lemma ieee_add_NaN [simp]: "ieee_add rnd a NaN = NaN"
  by (cases a) simp_all

lemma ieee_mul_NaN [simp]: "ieee_mul rnd a NaN = NaN"
  by (cases a) simp_all

lemma ieee_eq_zero: "ieee_eq a (Finite 0) \<longleftrightarrow> a = Finite 0"
  by (auto simp: ieee_eq_def)

text \<open>A finite result comes from finite operands.\<close>

lemma ieee_add_Finite:
  assumes "ieee_add rnd a b = Finite r"
  shows "(\<exists>x. a = Finite x) \<and> (\<exists>y. b = Finite y)"
  using assms by (cases a; cases b) simp_all

lemma ieee_square_Finite:
  assumes "ieee_mul rnd a a = Finite r"
  shows "\<exists>x. a = Finite x"
  using assms by (cases a) (simp_all add: ieee_inf_def)

lemma ieee_sqrt_Finite:
  assumes "ieee_sqrt rnd a = Finite r"
  shows "\<exists>x. a = Finite x"
  using assms by (cases a) simp_all

lemma glm_length_Finite:
  assumes "glm_length rnd v = Finite L"
  shows "\<exists>x y z. v = (Finite x, Finite y, Finite z)"
proof -
  obtain a b c where v: "v = (a, b, c)" by (cases v)
  from assms obtain d where
    d: "ieee_add rnd (ieee_add rnd (ieee_mul rnd a a) (ieee_mul rnd b b)) (ieee_mul rnd c c) = Finite d"
    unfolding glm_length_def v dot.simps by (blast dest: ieee_sqrt_Finite)
  from ieee_add_Finite [OF d] obtain s t where
    s: "ieee_add rnd (ieee_mul rnd a a) (ieee_mul rnd b b) = Finite s"
    and t: "ieee_mul rnd c c = Finite t" by blast
  from ieee_add_Finite [OF s] obtain p q where
    "ieee_mul rnd a a = Finite p" "ieee_mul rnd b b = Finite q" by blast
  with t v show ?thesis by (blast dest: ieee_square_Finite)
qed

text \<open>A length is not negative.\<close>

lemma glm_length_nonneg:
  assumes "glm_length round32 v = Finite L"
  shows "0 \<le> L"
proof -
  from assms obtain d where d: "dot round32 v v = Finite d"
    unfolding glm_length_def by (blast dest: ieee_sqrt_Finite)
  with assms have "\<not> d < 0" and "round32 (sqrt d) = Finite L"
    by (auto simp: glm_length_def split: if_splits)
  then show ?thesis
    unfolding round32_def using round_to_nonneg [of "sqrt d"] by simp
qed

text \<open>The vector of length zero has no direction: its normalisation is NaN.\<close>

lemma glm_normalize_zero:
  assumes "rnd 0 = Finite 0"
  shows "glm_normalize rnd (Finite 0, Finite 0, Finite 0) = (NaN, NaN, NaN)"
  using assms by (simp add: glm_normalize_def ieee_inf_def)

text \<open>The smaller of two values is not greater than the second.\<close>

lemma glm_min_bound: "\<not> ieee_less y (glm_min x y)"
  by (cases y) (simp_all add: glm_min_def)

text \<open>The squared length of a vector is at least the square of each component, as far as
  powers of two tell.\<close>

lemma round32_lower:
  assumes "pow2 e \<le> x" and "- 126 \<le> e" and "round32 x = Finite y"
  shows "pow2 e \<le> y"
proof -
  from assms(1) pow2_pos [of e] have x: "0 \<le> x" "pow2 e \<le> \<bar>x\<bar>" by linarith+
  from round_to_magnitude [OF x(2) assms(2), of 24 127 y] assms(3)
  have "pow2 e \<le> \<bar>y\<bar>" by (simp add: round32_def)
  moreover from round_to_nonneg [OF x(1), of 24 "- 126" 127 y] assms(3)
  have "0 \<le> y" by (simp add: round32_def)
  ultimately show ?thesis by simp
qed

lemma round32_nonneg:
  assumes "0 \<le> x" and "round32 x = Finite y"
  shows "0 \<le> y"
  using round_to_nonneg [OF assms(1), of 24 "- 126" 127 y] assms(2) by (simp add: round32_def)

lemma dot_lower:
  assumes d: "dot round32 (Finite a, Finite b, Finite c) (Finite a, Finite b, Finite c) = Finite d"
    and e: "- 126 \<le> e"
    and t: "pow2 e \<le> a * a \<or> pow2 e \<le> b * b \<or> pow2 e \<le> c * c"
  shows "pow2 e \<le> d"
proof -
  from d have d': "ieee_add round32 (ieee_add round32 (round32 (a * a)) (round32 (b * b)))
                     (round32 (c * c)) = Finite d"
    by simp
  from ieee_add_Finite [OF d'] obtain s sc where
    s: "ieee_add round32 (round32 (a * a)) (round32 (b * b)) = Finite s"
    and sc: "round32 (c * c) = Finite sc" by blast
  from d' s sc have ds: "round32 (s + sc) = Finite d" by simp
  from ieee_add_Finite [OF s] obtain sa sb where
    sa: "round32 (a * a) = Finite sa" and sb: "round32 (b * b) = Finite sb" by blast
  from s sa sb have ss: "round32 (sa + sb) = Finite s" by simp
  have nn: "0 \<le> sa" "0 \<le> sb" "0 \<le> sc"
    using round32_nonneg [OF _ sa] round32_nonneg [OF _ sb] round32_nonneg [OF _ sc] by simp_all
  then have ns: "0 \<le> s" using round32_nonneg [OF _ ss] by simp
  from t consider "pow2 e \<le> a * a" | "pow2 e \<le> b * b" | "pow2 e \<le> c * c" by blast
  then show ?thesis
  proof cases
    case 1
    from round32_lower [OF 1 e sa] nn have "pow2 e \<le> sa + sb" by linarith
    from round32_lower [OF this e ss] nn have "pow2 e \<le> s + sc" by linarith
    from round32_lower [OF this e ds] show ?thesis .
  next
    case 2
    from round32_lower [OF 2 e sb] nn have "pow2 e \<le> sa + sb" by linarith
    from round32_lower [OF this e ss] nn have "pow2 e \<le> s + sc" by linarith
    from round32_lower [OF this e ds] show ?thesis .
  next
    case 3
    from round32_lower [OF 3 e sc] ns have "pow2 e \<le> s + sc" by linarith
    from round32_lower [OF this e ds] show ?thesis .
  qed
qed

text \<open>
  Each component of a vector of finite length other than zero, divided by that length,
  is a finite number: the length is at least about as large as the component, or the
  component is tiny.
\<close>

lemma quotient_bounded:
  assumes len: "glm_length round32 (Finite a, Finite b, Finite c) = Finite L" and L0: "L \<noteq> 0"
    and t: "t = a \<or> t = b \<or> t = c"
  shows "\<exists>q. round32 (t / L) = Finite q \<and> \<bar>q\<bar> \<le> pow2 86"
proof (cases "t = 0")
  case True
  then show ?thesis using pow2_pos [of 86] by simp
next
  case False
  from glm_length_nonneg [OF len] L0 have Lpos: "0 < L" by simp
  from len obtain d where d: "dot round32 (Finite a, Finite b, Finite c) (Finite a, Finite b, Finite c) = Finite d"
    unfolding glm_length_def by (blast dest: ieee_sqrt_Finite)
  with len have dn: "\<not> d < 0" and rl: "round32 (sqrt d) = Finite L"
    by (auto simp: glm_length_def split: if_splits)
  define k where "k = \<lfloor>log 2 \<bar>t\<bar>\<rfloor>"
  have "real_of_int k \<le> log 2 \<bar>t\<bar>" and "log 2 \<bar>t\<bar> < real_of_int (k + 1)"
    unfolding k_def by linarith+
  then have kt: "pow2 k \<le> \<bar>t\<bar>" and tk: "\<bar>t\<bar> < pow2 (k + 1)"
    using False by (simp_all add: pow2_powr le_log_iff log_less_iff)
  show ?thesis
  proof (cases "- 63 \<le> k")
    case True
    have "pow2 (k + k) = pow2 k * pow2 k" by (rule pow2_add)
    also have "\<dots> \<le> \<bar>t\<bar> * \<bar>t\<bar>" using kt pow2_pos [of k] by (intro mult_mono) simp_all
    finally have sq: "pow2 (k + k) \<le> t * t" by simp
    with t have "pow2 (k + k) \<le> a * a \<or> pow2 (k + k) \<le> b * b \<or> pow2 (k + k) \<le> c * c" by blast
    from dot_lower [OF d _ this] True have "pow2 (k + k) \<le> d" by simp
    then have "pow2 k * pow2 k \<le> d" by (simp only: pow2_add)
    then have "sqrt (pow2 k * pow2 k) \<le> sqrt d" by (simp only: real_sqrt_le_iff)
    then have "pow2 k \<le> sqrt d" using pow2_pos [of k] by simp
    from round32_lower [OF this _ rl] True have kL: "pow2 k \<le> L" by simp
    have "\<bar>t / L\<bar> = \<bar>t\<bar> / L" using Lpos by simp
    also have "\<dots> \<le> \<bar>t\<bar> / pow2 k" using kL pow2_pos [of k] by (simp add: frac_le)
    also have "\<dots> < pow2 (k + 1) / pow2 k" using tk pow2_pos [of k] by (simp add: divide_strict_right_mono)
    also have "\<dots> = pow2 1" using pow2_pos [of k] by (simp add: pow2_add)
    finally have "\<bar>t / L\<bar> \<le> pow2 1" by simp
    from round_to_bounded [OF this, of "- 126" 24 127] obtain q where
      "round32 (t / L) = Finite q" "\<bar>q\<bar> \<le> pow2 1" by (auto simp: round32_def)
    moreover have "pow2 1 \<le> pow2 86" by (simp add: pow2_def)
    ultimately show ?thesis by (intro exI [of _ q]) simp
  next
    case False
    then have "k + 1 \<le> - 63" by simp
    then have "pow2 (k + 1) \<le> pow2 (- 63)" by (simp add: pow2_powr)
    with tk have ts: "\<bar>t\<bar> \<le> pow2 (- 63)" by linarith
    from round_to_least [of 24 "- 126" 127 "sqrt d" L] rl L0 Lpos
    have least: "pow2 (- 149) \<le> L" by (simp add: round32_def)
    have "\<bar>t / L\<bar> = \<bar>t\<bar> / L" using Lpos by simp
    also have "\<dots> \<le> pow2 (- 63) / pow2 (- 149)"
      using ts least pow2_pos [of "- 149"] by (intro frac_le) simp_all
    also have "\<dots> = pow2 86" by (simp add: pow2_def)
    finally have "\<bar>t / L\<bar> \<le> pow2 86" .
    from round_to_bounded [OF this, of "- 126" 24 127] show ?thesis
      by (auto simp: round32_def)
  qed
qed

text \<open>The clamped movement of a zoom-in is a number, no larger than the movement asked for or 1.\<close>

lemma clamp_bounded:
  assumes "0 < L"
  shows "\<exists>mv. (if ieee_less (Finite 0) (Finite hv)
               then glm_min (Finite hv) (ieee_sub round32 (Finite L) f_1e_4) else Finite hv)
              = Finite mv \<and> \<bar>mv\<bar> \<le> max \<bar>hv\<bar> 1"
proof (cases "0 < hv")
  case False
  then show ?thesis by simp
next
  case True
  define x where "x = L - 13743895 / 137438953472"
  have s: "ieee_sub round32 (Finite L) f_1e_4 = round32 x"
    by (simp add: ieee_sub_def f_1e_4_val x_def)
  show ?thesis
  proof (cases "0 \<le> x")
    case nonneg: True
    show ?thesis
    proof (cases "round32 x")
      case (Finite u)
      from round32_nonneg [OF nonneg Finite] have "0 \<le> u" .
      with True Finite show ?thesis by (auto simp: s glm_min_def)
    next
      case PInf
      with True show ?thesis by (simp add: s glm_min_def)
    next
      case NInf
      with round_to_not_NInf [OF nonneg, of 24 "- 126" 127] show ?thesis by (simp add: round32_def)
    next
      case NaN
      with round_to_not_NaN [of 24 "- 126" 127 x] show ?thesis by (simp add: round32_def)
    qed
  next
    case False
    with assms have "\<bar>x\<bar> \<le> pow2 0" by (simp add: x_def pow2_def)
    from round_to_bounded [OF this, of "- 126" 24 127] obtain u where
      "round32 x = Finite u" "\<bar>u\<bar> \<le> 1" by (auto simp: round32_def pow2_def)
    with True show ?thesis by (auto simp: s glm_min_def)
  qed
qed

text \<open>
  The new eye of a zoom step is finite where the view length is a number other than zero,
  the movement is at most \<open>2^30\<close> and the coordinates of the eye are at most \<open>2^100\<close>.
\<close>

lemma component_finite:
  assumes q: "round32 (t / L) = Finite q" "\<bar>q\<bar> \<le> pow2 86" and L: "L \<noteq> 0"
    and m: "\<bar>mv\<bar> \<le> pow2 30" and e: "\<bar>e\<bar> \<le> pow2 100"
  shows "\<exists>x. ieee_add round32 (Finite e)
               (ieee_mul round32 (Finite mv) (ieee_div round32 (Finite t) (Finite L))) = Finite x"
proof -
  have "\<bar>mv * q\<bar> \<le> pow2 30 * pow2 86"
    unfolding abs_mult using m q(2) by (intro mult_mono) simp_all
  then have "\<bar>mv * q\<bar> \<le> pow2 116" by (simp add: pow2_add [symmetric])
  from round_to_bounded [OF this, of "- 126" 24 127] obtain p where
    p: "round32 (mv * q) = Finite p" "\<bar>p\<bar> \<le> pow2 116" by (auto simp: round32_def)
  have "pow2 100 + pow2 116 \<le> pow2 117" by (simp add: pow2_def)
  with e p(2) have "\<bar>e + p\<bar> \<le> pow2 117" by linarith
  from round_to_bounded [OF this, of "- 126" 24 127] obtain x where
    "round32 (e + p) = Finite x" by (auto simp: round32_def)
  with q(1) p(1) L show ?thesis by simp
qed

lemma zoom_eye_finite:
  assumes len: "glm_length round32 (Finite a, Finite b, Finite c) = Finite L" and L: "L \<noteq> 0"
    and m: "\<bar>mv\<bar> \<le> pow2 30"
    and e: "\<bar>ex\<bar> \<le> pow2 100" "\<bar>ey\<bar> \<le> pow2 100" "\<bar>ez\<bar> \<le> pow2 100"
  shows "\<exists>x y z.
           vec3_add round32 (Finite ex, Finite ey, Finite ez)
             (vec3_scale round32 (Finite mv)
                (vec3_div round32 (Finite a, Finite b, Finite c) (Finite L)))
           = (Finite x, Finite y, Finite z)"
proof -
  from quotient_bounded [OF len L, of a] obtain qa where
    qa: "round32 (a / L) = Finite qa" "\<bar>qa\<bar> \<le> pow2 86" by blast
  from quotient_bounded [OF len L, of b] obtain qb where
    qb: "round32 (b / L) = Finite qb" "\<bar>qb\<bar> \<le> pow2 86" by blast
  from quotient_bounded [OF len L, of c] obtain qc where
    qc: "round32 (c / L) = Finite qc" "\<bar>qc\<bar> \<le> pow2 86" by blast
  from component_finite [OF qa L m e(1)] component_finite [OF qb L m e(2)]
    component_finite [OF qc L m e(3)]
  show ?thesis by (simp only: vec3_add.simps vec3_scale.simps vec3_div.simps) blast
qed

section \<open>The updates, unfolded\<close>

lemma mkCamera_sel [simp]:
  "m_eye (mkCamera e c u) = e" "m_center (mkCamera e c u) = c" "m_up (mkCamera e c u) = u"
  by (simp_all add: mkCamera_def)


lemma fp_polled_camera [simp]: "m_camera (fp_polled w c) = m_camera c"
  by (simp add: fp_polled_def fp_cursorDelta_def fp_edge_def)

lemma fp_polled_up [simp]: "m_worldUpAxis (fp_polled w c) = m_worldUpAxis c"
  by (simp add: fp_polled_def fp_cursorDelta_def fp_edge_def)

lemma fp_polled_speed [simp]: "m_fSpeed (fp_polled w c) = m_fSpeed c"
  by (simp add: fp_polled_def fp_cursorDelta_def fp_edge_def)

lemma tb_polled_camera [simp]: "m_camera (tb_polled w c) = m_camera c"
  by (simp add: tb_polled_def tb_cursorDelta_def tb_edge_def)

lemma tb_polled_up [simp]: "m_worldUpAxis (tb_polled w c) = m_worldUpAxis c"
  by (simp add: tb_polled_def tb_cursorDelta_def tb_edge_def)

lemma view_vector_polled [simp]: "view_vector (tb_polled w c) = view_vector c"
  by (simp add: view_vector_def)

lemma view_length_polled [simp]: "view_length (tb_polled w c) = view_length c"
  by (simp add: view_length_def)

lemma view_vector_cursor [simp]: "view_vector (c\<lparr>m_LastCursorPosition := p\<rparr>) = view_vector c"
  by (simp add: view_vector_def)

lemma view_length_cursor [simp]: "view_length (c\<lparr>m_LastCursorPosition := p\<rparr>) = view_length c"
  by (simp add: view_length_def)

lemma FirstPerson_update_unfold:
  "FirstPerson_update rotateLocal rotateWorld w elapsedTime c =
     (if fp_still w elapsedTime c then (False, fp_polled w c)
      else (True,
            (fp_polled w c)\<lparr>m_camera :=
               rotateWorld (fp_panLeftAngle (fp_delta w c)) (m_worldUpAxis c)
                 (rotateLocal (fp_rollRightAngle w) (fp_tiltDownAngle (fp_delta w c)) (Finite 0)
                   (moveLocal (fp_truckLeft w (m_fSpeed c) elapsedTime)
                              (fp_pedestalUp w (m_fSpeed c) elapsedTime)
                              (fp_dollyIn w (m_fSpeed c) elapsedTime) (m_camera c)))\<rparr>))"
proof -
  have cam: "m_camera (snd (fp_cursorDelta w (fp_edge w c))) = m_camera c"
    and up: "m_worldUpAxis (snd (fp_cursorDelta w (fp_edge w c))) = m_worldUpAxis c"
    and sp: "m_fSpeed (snd (fp_cursorDelta w (fp_edge w c))) = m_fSpeed c"
    by (simp_all add: fp_cursorDelta_def fp_edge_def)
  show ?thesis
    unfolding FirstPerson_update_def fp_still_def fp_delta_def fp_polled_def Let_def split_beta
      to_bool_def
    by (simp add: cam up sp)
qed

lemma fp_delta_released:
  assumes "\<not> glfwGetMouseButton w GLFW_MOUSE_BUTTON_LEFT"
  shows "fp_delta w c = (Finite 0, Finite 0)"
  using assms by (simp add: fp_delta_def fp_cursorDelta_def fp_edge_def)

lemma fp_no_input_still:
  assumes "\<forall>k. \<not> glfwGetKey w k" and "fp_delta w c = (Finite 0, Finite 0)"
  shows "fp_still w elapsedTime c"
  using assms
  by (simp add: fp_still_def fp_truckLeft_def fp_pedestalUp_def fp_dollyIn_def
      fp_rollRightAngle_def fp_panLeftAngle_def fp_tiltDownAngle_def f_0_01_val)

lemma tb_still:
  assumes "tb_delta w c = (Finite 0, Finite 0)"
  shows "tb_horizontalMovement w c = Finite 0" and "tb_verticalMovement w c = Finite 0"
  using assms by (simp_all add: tb_horizontalMovement_def tb_verticalMovement_def f_0_01_val)



lemma Trackball_update_unfold:
  "Trackball_update rotation w dt c =
     (if tb_horizontalMovement w c = Finite 0 \<and> tb_verticalMovement w c = Finite 0
      then (False, tb_polled w c)
      else if glfwGetKey w GLFW_KEY_LEFT_SHIFT
      then (True, (tb_polled w c)\<lparr>m_camera :=
                     moveLocal (tb_horizontalMovement w c) (Finite 0) (Finite 0) (m_camera c)\<rparr>)
      else if glfwGetKey w GLFW_KEY_LEFT_CONTROL
      then tb_zoom (tb_horizontalMovement w c) (tb_polled w c)
      else (True, tb_rotate rotation (tb_horizontalMovement w c) (tb_verticalMovement w c)
                    (tb_polled w c)))"
proof -
  have cam: "m_camera (snd (tb_cursorDelta w (tb_edge w c))) = m_camera c"
    by (simp add: tb_cursorDelta_def tb_edge_def)
  show ?thesis
    by (simp add: Trackball_update_def tb_horizontalMovement_def tb_verticalMovement_def
        tb_delta_def tb_polled_def to_bool_def Let_def split_beta cam)
qed

text \<open>The CTRL branch in terms of the view vector and the view length.\<close>

lemma tb_zoom_unfold:
  "tb_zoom h c =
     (if h = Finite 0 then (False, c)
      else (True,
            c\<lparr>m_camera :=
                mkCamera
                  (vec3_add round32 (m_eye (m_camera c))
                     (vec3_scale round32
                        (if ieee_less (Finite 0) h
                         then glm_min h (ieee_sub round32 (view_length c) f_1e_4) else h)
                        (vec3_div round32 (view_vector c) (view_length c))))
                  (m_center (m_camera c)) (m_worldUpAxis c)\<rparr>))"
  by (simp add: tb_zoom_def ieee_eq_zero view_length_def view_vector_def Let_def)

text \<open>A zoom frame: the update in the CTRL branch.\<close>

lemma zoom_frame_update:
  assumes "zoom_frame w"
  shows "Trackball_update rotation w dt c =
     (if tb_horizontalMovement w c = Finite 0 then (False, tb_polled w c)
      else (True,
            (tb_polled w c)\<lparr>m_camera :=
                mkCamera
                  (vec3_add round32 (m_eye (m_camera c))
                     (vec3_scale round32
                        (if ieee_less (Finite 0) (tb_horizontalMovement w c)
                         then glm_min (tb_horizontalMovement w c)
                                (ieee_sub round32 (view_length c) f_1e_4)
                         else tb_horizontalMovement w c)
                        (vec3_div round32 (view_vector c) (view_length c))))
                  (m_center (m_camera c)) (m_worldUpAxis c)\<rparr>))"
  using assms by (simp add: Trackball_update_unfold tb_zoom_unfold zoom_frame_def)

section \<open>Concrete runs\<close>

lemma tb_delta_ex_trackball:
  "tb_delta (drag_window (px, py) keys) (ex_trackball e c) = (round64 px, round64 py)"
  by (simp add: tb_delta_def tb_cursorDelta_def tb_edge_def drag_window_def ex_trackball_def)

lemma tb_polled_ex_trackball:
  "tb_polled (drag_window p keys) (ex_trackball e c) = (ex_trackball e c)\<lparr>m_LastCursorPosition := p\<rparr>"
  by (simp add: tb_polled_def tb_cursorDelta_def tb_edge_def drag_window_def ex_trackball_def)

lemma zoom_frame_ctrl: "zoom_frame (drag_window p (\<lambda>k. k = GLFW_KEY_LEFT_CONTROL))"
  by (simp add: zoom_frame_def drag_window_def)

text \<open>The movements of a drag by 100, by -100 and by -300 pixels: 1, -1 and -3.\<close>

lemma movement_100: "ieee_mul round32 f_0_01 (Finite 100) = Finite 1"
  unfolding f_0_01_val ieee_mul.simps
  by (rule round32_near [where e = "- 1" and n = 16777216]) (simp_all add: pow2_def)

lemma movement_minus_100: "ieee_mul round32 f_0_01 (Finite (- 100)) = Finite (- 1)"
  unfolding f_0_01_val ieee_mul.simps
  by (rule round32_near [where e = "- 1" and n = "- 16777216"]) (simp_all add: pow2_def)

lemma movement_minus_300: "ieee_mul round32 f_0_01 (Finite (- 300)) = Finite (- 3)"
  unfolding f_0_01_val ieee_mul.simps
  by (rule round32_near [where e = 1 and n = "- 12582912"]) (simp_all add: pow2_def)

lemma movement_0: "ieee_mul round32 f_0_01 (Finite 0) = Finite 0"
  by (simp add: f_0_01_val)

lemma round32_half [simp]: "round32 (1 / 2) = Finite (1 / 2)"
  by (rule round32_val [where m = 1 and k = "- 1"]) (simp_all add: pow2_def)

lemma round32_minus_half [simp]: "round32 (- (1 / 2)) = Finite (- (1 / 2))"
  by (rule round32_val [where m = "- 1" and k = "- 1"]) (simp_all add: pow2_def)

lemma round32_quarter [simp]: "round32 (1 / 4) = Finite (1 / 4)"
  by (rule round32_val [where m = 1 and k = "- 2"]) (simp_all add: pow2_def)

lemma sqrt_quarter: "sqrt (1 / 4) = 1 / 2"
  by (rule real_sqrt_unique) (simp_all add: power2_eq_square)

lemma ex1_vv: "view_vector (ex_trackball (4097 / 2, 0, 0) (2048, 0, 0)) = (Finite (- (1 / 2)), Finite 0, Finite 0)"
  by (simp add: view_vector_def ex_trackball_def mkCamera_def ieee_sub_def)

lemma ex1_len: "view_length (ex_trackball (4097 / 2, 0, 0) (2048, 0, 0)) = Finite (1 / 2)"
  by (simp add: view_length_def ex1_vv glm_length_def sqrt_quarter)

lemma ex1_limit: "ieee_sub round32 (Finite (1 / 2)) f_1e_4 = Finite (16773861 / 33554432)"
  unfolding f_1e_4_val ieee_sub_def ieee_neg.simps ieee_add.simps
  by (rule round32_near [where e = "- 2" and n = 16773861]) (simp_all add: pow2_def)

lemma ex1_step: "round32 (68719480091 / 33554432) = Finite 2048"
  by (rule round32_near [where e = 11 and n = 8388608]) (simp_all add: pow2_def)

lemma ex1_move: "round32 (- (16773861 / 33554432)) = Finite (- (16773861 / 33554432))"
  by (rule round32_val [where m = "- 16773861" and k = "- 25"]) (simp_all add: pow2_def)

lemma ex1_h: "tb_horizontalMovement (drag_window (100, 0) keys) (ex_trackball e c) = Finite 1"
  by (simp add: tb_horizontalMovement_def tb_delta_ex_trackball movement_100)

lemma ex1_frame1:
  "Trackball_update ex_rotation (drag_window (100, 0) (\<lambda>k. k = GLFW_KEY_LEFT_CONTROL)) (Finite 0)
     (ex_trackball (4097 / 2, 0, 0) (2048, 0, 0))
   = (True, (ex_trackball (2048, 0, 0) (2048, 0, 0))\<lparr>m_LastCursorPosition := (100, 0)\<rparr>)"
  apply (simp add: zoom_frame_update [OF zoom_frame_ctrl] ex1_h ex1_vv ex1_len ex1_limit
      tb_polled_ex_trackball glm_min_def)
  apply (simp add: ex_trackball_def mkCamera_def ex1_move ex1_step)
  done

text \<open>
  With the eye on the center the view vector and the view length are zero, and the zoom
  stores an eye of NaN components, whatever the movement is.
\<close>

lemma zoom_at_center:
  assumes "zoom_frame w" and "view_vector c = (Finite 0, Finite 0, Finite 0)"
    and "tb_horizontalMovement w c \<noteq> Finite 0"
  shows "view_length c = Finite 0"
    and "Trackball_update rotation w dt c =
           (True, (tb_polled w c)\<lparr>m_camera :=
                     mkCamera (NaN, NaN, NaN) (m_center (m_camera c)) (m_worldUpAxis c)\<rparr>)"
proof -
  show l: "view_length c = Finite 0"
    by (simp add: view_length_def assms(2) glm_length_def)
  obtain ex ey ez where e: "m_eye (m_camera c) = (ex, ey, ez)" by (cases "m_eye (m_camera c)")
  show "Trackball_update rotation w dt c =
           (True, (tb_polled w c)\<lparr>m_camera :=
                     mkCamera (NaN, NaN, NaN) (m_center (m_camera c)) (m_worldUpAxis c)\<rparr>)"
    using assms(3)
    by (simp add: zoom_frame_update [OF assms(1)] assms(2) l e ieee_inf_def)
qed

lemma ex1_h2:
  "tb_horizontalMovement (drag_window (200, 0) keys)
     ((ex_trackball e c)\<lparr>m_LastCursorPosition := (100, 0)\<rparr>) = Finite 1"
  by (simp add: tb_horizontalMovement_def tb_delta_def tb_cursorDelta_def tb_edge_def
      drag_window_def ex_trackball_def movement_100)

lemma ex1_vv2:
  "view_vector ((ex_trackball (2048, 0, 0) (2048, 0, 0))\<lparr>m_LastCursorPosition := (100, 0)\<rparr>)
   = (Finite 0, Finite 0, Finite 0)"
  by (simp add: view_vector_def ex_trackball_def mkCamera_def ieee_sub_def)

text \<open>The movement of a drag by 5 pixels: \<open>0.01f * 5\<close> is halfway between two floats.\<close>

lemma movement_5: "ieee_mul round32 f_0_01 (Finite 5) = Finite (3355443 / 67108864)"
  unfolding f_0_01_val ieee_mul.simps
  by (rule round32_tie [where e = "- 5" and n = 13421772]) (simp_all add: pow2_def)

text \<open>The camera at the origin that looks along \<open>-z\<close>: its frame, and a move by nothing.\<close>

lemma front_example:
  "front (mkCamera (Finite 0, Finite 0, Finite 0) (Finite 0, Finite 0, Finite (- 1)) (Finite 0, Finite 1, Finite 0))
   = (Finite 0, Finite 0, Finite (- 1))"
  by (simp add: front_def mkCamera_def glm_normalize_def ieee_sub_def)

lemma left_example:
  "left (mkCamera (Finite 0, Finite 0, Finite 0) (Finite 0, Finite 0, Finite (- 1)) (Finite 0, Finite 1, Finite 0))
   = (Finite (- 1), Finite 0, Finite 0)"
  unfolding left_def front_example
  by (simp add: mkCamera_def glm_normalize_def ieee_sub_def)

lemma moveLocal_pan_example:
  "moveLocal (Finite 0) (Finite 0) (Finite 0)
     (mkCamera (Finite 0, Finite 0, Finite 0) (Finite 0, Finite 0, Finite (- 1)) (Finite 0, Finite 1, Finite 0))
   = mkCamera (Finite 0, Finite 0, Finite 0) (Finite 0, Finite 0, Finite (- 1)) (Finite 0, Finite 1, Finite 0)"
  unfolding moveLocal_def left_example front_example
  by (simp add: mkCamera_def)



lemma sqrt_25: "sqrt 25 = 5"
  by (rule real_sqrt_unique) simp_all


text \<open>
  The eye at \<open>(0, 0, 2^-100)\<close> and the center at the origin: the square of \<open>2^-100\<close> is
  below half the smallest float and rounds to zero.
\<close>

lemma ex_tiny_pos: "0 < ex_tiny"
  by (simp add: ex_tiny_def)

lemma round32_tiny: "round32 (- ex_tiny) = Finite (- ex_tiny)"
  by (rule round32_val [where m = "- 1" and k = "- 100"]) (simp_all add: pow2_def ex_tiny_def)

lemma round32_underflow: "round32 (ex_tiny * ex_tiny) = Finite 0"
  by (rule round32_near [where e = "- 126" and n = 0]) (simp_all add: pow2_def ex_tiny_def)

lemma ex2_vv:
  "view_vector (ex_trackball (0, 0, ex_tiny) (0, 0, 0)) = (Finite 0, Finite 0, Finite (- ex_tiny))"
  by (simp add: view_vector_def ex_trackball_def ieee_sub_def round32_tiny)

lemma ex2_len: "view_length (ex_trackball (0, 0, ex_tiny) (0, 0, 0)) = Finite 0"
  by (simp add: view_length_def ex2_vv glm_length_def round32_underflow)

lemma round32_minus_eps:
  "round32 (- (13743895 / 137438953472)) = Finite (- (13743895 / 137438953472))"
  by (rule round32_val [where m = "- 13743895" and k = "- 37"]) (simp_all add: pow2_def)

text \<open>
  The eye at \<open>(0, 0, 2^-14)\<close>, nearer to the center than \<open>1e-4\<close>: the clamp is negative,
  and the zoom-in moves the eye back to the distance \<open>1e-4f\<close>.
\<close>

lemma sqrt_2_m28: "sqrt (1 / 268435456) = 1 / 16384"
  by (rule real_sqrt_unique) (simp_all add: power2_eq_square)

lemma round32_2_m14: "round32 (1 / 16384) = Finite (1 / 16384)"
  by (rule round32_val [where m = 1 and k = "- 14"]) (simp_all add: pow2_def)

lemma round32_minus_2_m14: "round32 (- (1 / 16384)) = Finite (- (1 / 16384))"
  by (rule round32_val [where m = "- 1" and k = "- 14"]) (simp_all add: pow2_def)

lemma round32_2_m28: "round32 (1 / 268435456) = Finite (1 / 268435456)"
  by (rule round32_val [where m = 1 and k = "- 28"]) (simp_all add: pow2_def)

lemma ex3_vv:
  "view_vector (ex_trackball (0, 0, 1 / 16384) (0, 0, 0)) = (Finite 0, Finite 0, Finite (- (1 / 16384)))"
  by (simp add: view_vector_def ex_trackball_def ieee_sub_def round32_minus_2_m14)

lemma ex3_len: "view_length (ex_trackball (0, 0, 1 / 16384) (0, 0, 0)) = Finite (1 / 16384)"
  by (simp add: view_length_def ex3_vv glm_length_def round32_2_m28 sqrt_2_m28 round32_2_m14)

lemma ex3_limit:
  "ieee_sub round32 (Finite (1 / 16384)) f_1e_4 = Finite (- (5355287 / 137438953472))"
  unfolding f_1e_4_val ieee_sub_def ieee_neg.simps ieee_add.simps
  by (rule round32_val [where m = "- 5355287" and k = "- 37"]) (simp_all add: pow2_def)

lemma ex3_move: "round32 (5355287 / 137438953472) = Finite (5355287 / 137438953472)"
  by (rule round32_val [where m = 5355287 and k = "- 37"]) (simp_all add: pow2_def)

lemma ex3_step: "round32 (13743895 / 137438953472) = Finite (13743895 / 137438953472)"
  by (rule round32_val [where m = 13743895 and k = "- 37"]) (simp_all add: pow2_def)

text \<open>The eye at \<open>(0, 0, 2^24)\<close>: a step of 1 is half the distance between two floats.\<close>

lemma round32_2_24: "round32 16777216 = Finite 16777216"
  by (rule round32_val [where m = 1 and k = 24]) (simp_all add: pow2_def)

lemma round32_minus_2_24: "round32 (- 16777216) = Finite (- 16777216)"
  by (rule round32_val [where m = "- 1" and k = 24]) (simp_all add: pow2_def)

lemma round32_2_48: "round32 281474976710656 = Finite 281474976710656"
  by (rule round32_val [where m = 1 and k = 48]) (simp_all add: pow2_def)

lemma sqrt_2_48: "sqrt 281474976710656 = 16777216"
  by (rule real_sqrt_unique) (simp_all add: power2_eq_square)

lemma ex4_vv:
  "view_vector (ex_trackball (0, 0, 16777216) (0, 0, 0)) = (Finite 0, Finite 0, Finite (- 16777216))"
  by (simp add: view_vector_def ex_trackball_def ieee_sub_def round32_minus_2_24)

lemma ex4_len: "view_length (ex_trackball (0, 0, 16777216) (0, 0, 0)) = Finite 16777216"
  by (simp add: view_length_def ex4_vv glm_length_def round32_2_48 sqrt_2_48 round32_2_24)

lemma ex4_step: "round32 16777217 = Finite 16777216"
  by (rule round32_tie [where e = 24 and n = 8388608]) (simp_all add: pow2_def)

lemma ex4_h: "tb_horizontalMovement (drag_window (- 100, 0) keys) (ex_trackball e c) = Finite (- 1)"
  by (simp add: tb_horizontalMovement_def tb_delta_ex_trackball movement_minus_100)

lemma ex4_h2:
  "tb_horizontalMovement (drag_window (- 200, 0) keys)
     ((ex_trackball e c)\<lparr>m_LastCursorPosition := (- 100, 0)\<rparr>) = Finite (- 1)"
  by (simp add: tb_horizontalMovement_def tb_delta_def tb_cursorDelta_def tb_edge_def
      drag_window_def ex_trackball_def movement_minus_100)

lemma ex4_polled2:
  "tb_polled (drag_window (- 200, 0) keys) ((ex_trackball e c)\<lparr>m_LastCursorPosition := (- 100, 0)\<rparr>)
   = (ex_trackball e c)\<lparr>m_LastCursorPosition := (- 200, 0)\<rparr>"
  by (simp add: tb_polled_def tb_cursorDelta_def tb_edge_def drag_window_def ex_trackball_def)

text \<open>
  The eye at the distance \<open>1e-4f\<close> from the center: the view length is \<open>1e-4f\<close>, the clamp
  reduces a zoom-in to the movement zero, and the camera is rebuilt as it was.
\<close>

lemma sqrt_between:
  assumes "0 \<le> lo" and "lo\<^sup>2 < d" and "0 \<le> hi" and "d < hi\<^sup>2"
  shows "lo < sqrt d" and "sqrt d < hi"
  using assms by (simp_all add: real_less_rsqrt real_less_lsqrt)

lemma ex5_sqrt:
  "round32 (sqrt (5629499 / 562949953421312)) = Finite (13743895 / 137438953472)"
proof -
  let ?d = "5629499 / 562949953421312 :: real"
  have b: "27487789 / 274877906944 < sqrt ?d" "sqrt ?d < 27487791 / 274877906944"
    by (rule sqrt_between [where lo = "27487789 / 274877906944" and hi = "27487791 / 274877906944"];
        simp add: power2_eq_square)+
  show ?thesis
    using b by (intro round32_near [where e = "- 14" and n = 13743895]) (simp_all add: pow2_def abs_if)
qed

lemma ex5_vv:
  "view_vector (ex_trackball (0, 0, 13743895 / 137438953472) (0, 0, 0))
   = (Finite 0, Finite 0, Finite (- (13743895 / 137438953472)))"
  by (simp add: view_vector_def ex_trackball_def ieee_sub_def round32_minus_eps)

lemma ex5_square:
  "ieee_mul round32 (Finite (- (13743895 / 137438953472))) (Finite (- (13743895 / 137438953472)))
   = Finite (5629499 / 562949953421312)"
  unfolding ieee_mul.simps
  by (rule round32_near [where e = "- 27" and n = 11258998]) (simp_all add: pow2_def)

lemma ex5_sum: "round32 (5629499 / 562949953421312) = Finite (5629499 / 562949953421312)"
  by (rule round32_val [where m = 5629499 and k = "- 49"]) (simp_all add: pow2_def)

lemma ex5_len:
  "view_length (ex_trackball (0, 0, 13743895 / 137438953472) (0, 0, 0))
   = Finite (13743895 / 137438953472)"
  unfolding view_length_def ex5_vv glm_length_def dot.simps ex5_square
  by (simp add: ex5_sum ex5_sqrt)

lemma ex5_frame:
  "Trackball_update ex_rotation (drag_window (100, 0) (\<lambda>k. k = GLFW_KEY_LEFT_CONTROL)) (Finite 0)
     (ex_trackball (0, 0, 13743895 / 137438953472) (0, 0, 0))
   = (True, (ex_trackball (0, 0, 13743895 / 137438953472) (0, 0, 0))
              \<lparr>m_LastCursorPosition := (100, 0)\<rparr>)"
  apply (simp add: zoom_frame_update [OF zoom_frame_ctrl] ex1_h ex5_vv ex5_len f_1e_4_val
      ieee_sub_def glm_min_def tb_polled_ex_trackball)
  apply (simp add: ex_trackball_def mkCamera_def ex3_step)
  done

section \<open>Claims about the camera controllers\<close>

text \<open>
  C1 does not hold of the code, which computes in single precision. The camera is at
  \<open>(2048.5, 0, 0)\<close> and looks at \<open>(2048, 0, 0)\<close>: the view length is \<open>0.5\<close>. A drag of 100
  pixels to the right with CTRL held asks for a movement of \<open>1\<close>, which the clamp reduces
  to \<open>0.5 - 1e-4f = 16773861 * 2^-25\<close>. The floats next to \<open>2048\<close> are \<open>2^-12\<close> apart, more
  than \<open>1e-4\<close>, and the sum \<open>2048.5 - 0.4999...\<close> rounds to \<open>2048\<close>: the eye is on the center and
  the view length is zero. The next zoom frame divides zero by zero and stores an eye of
  NaN components.
\<close>

theorem zoom_in_reaches_center:
  "view_length (ex_trackball (4097 / 2, 0, 0) (2048, 0, 0)) = Finite (1 / 2)
   \<and> Trackball_update ex_rotation (drag_window (100, 0) (\<lambda>k. k = GLFW_KEY_LEFT_CONTROL)) (Finite 0)
        (ex_trackball (4097 / 2, 0, 0) (2048, 0, 0))
      = (True, (ex_trackball (2048, 0, 0) (2048, 0, 0))\<lparr>m_LastCursorPosition := (100, 0)\<rparr>)
   \<and> m_eye (m_camera ((ex_trackball (2048, 0, 0) (2048, 0, 0))\<lparr>m_LastCursorPosition := (100, 0)\<rparr>))
      = m_center (m_camera ((ex_trackball (2048, 0, 0) (2048, 0, 0))\<lparr>m_LastCursorPosition := (100, 0)\<rparr>))
   \<and> view_length ((ex_trackball (2048, 0, 0) (2048, 0, 0))\<lparr>m_LastCursorPosition := (100, 0)\<rparr>)
      = Finite 0
   \<and> m_eye (m_camera (snd (Trackball_update ex_rotation
          (drag_window (200, 0) (\<lambda>k. k = GLFW_KEY_LEFT_CONTROL)) (Finite 0)
          ((ex_trackball (2048, 0, 0) (2048, 0, 0))\<lparr>m_LastCursorPosition := (100, 0)\<rparr>))))
      = (NaN, NaN, NaN)"
proof -
  let ?ctrl = "\<lambda>k. k = GLFW_KEY_LEFT_CONTROL"
  let ?c1 = "(ex_trackball (2048, 0, 0) (2048, 0, 0))\<lparr>m_LastCursorPosition := (100, 0)\<rparr>"
  have h: "tb_horizontalMovement (drag_window (200, 0) ?ctrl) ?c1 \<noteq> Finite 0"
    by (simp add: ex1_h2)
  note z = zoom_at_center [OF zoom_frame_ctrl ex1_vv2 h]
  have "m_eye (m_camera ?c1) = m_center (m_camera ?c1)"
    by (simp add: ex_trackball_def mkCamera_def)
  moreover have "m_eye (m_camera (snd (Trackball_update ex_rotation (drag_window (200, 0) ?ctrl)
                    (Finite 0) ?c1))) = (NaN, NaN, NaN)"
    by (simp add: z(2) mkCamera_def)
  ultimately show ?thesis
    using ex1_len ex1_frame1 z(1) by simp
qed

text \<open>
  C3, as stated (the result is true if and only if the call changed the stored camera),
  fails on the pan branch: with SHIFT held and a purely vertical cursor movement the
  update applies \<open>moveLocal(0, 0, 0)\<close> and returns true, and the camera is the one it was.
  It fails on the zoom branch as well: at the distance \<open>1e-4f\<close> a zoom-in is clamped to a
  movement of zero, the camera is rebuilt from the same eye, center and world-up, and
  the update returns true.
\<close>

theorem pan_returns_true_camera_unchanged:
  "Trackball_update ex_rotation (drag_window (0, 5) (\<lambda>k. k = GLFW_KEY_LEFT_SHIFT)) (Finite 0)
     (ex_trackball (0, 0, 0) (0, 0, - 1))
   = (True, (ex_trackball (0, 0, 0) (0, 0, - 1))\<lparr>m_LastCursorPosition := (0, 5)\<rparr>)
   \<and> m_camera ((ex_trackball (0, 0, 0) (0, 0, - 1))\<lparr>m_LastCursorPosition := (0, 5)\<rparr>)
     = m_camera (ex_trackball (0, 0, 0) (0, 0, - 1))
   \<and> f_1e_4 = Finite (13743895 / 137438953472)
   \<and> Trackball_update ex_rotation (drag_window (100, 0) (\<lambda>k. k = GLFW_KEY_LEFT_CONTROL)) (Finite 0)
       (ex_trackball (0, 0, 13743895 / 137438953472) (0, 0, 0))
     = (True, (ex_trackball (0, 0, 13743895 / 137438953472) (0, 0, 0))
                \<lparr>m_LastCursorPosition := (100, 0)\<rparr>)
   \<and> m_camera ((ex_trackball (0, 0, 13743895 / 137438953472) (0, 0, 0))
                  \<lparr>m_LastCursorPosition := (100, 0)\<rparr>)
     = m_camera (ex_trackball (0, 0, 13743895 / 137438953472) (0, 0, 0))"
proof -
  let ?w = "drag_window (0, 5) (\<lambda>k. k = GLFW_KEY_LEFT_SHIFT)"
  let ?c = "ex_trackball (0, 0, 0) (0, 0, - 1)"
  have h: "tb_horizontalMovement ?w ?c = Finite 0"
    by (simp add: tb_horizontalMovement_def tb_delta_ex_trackball movement_0)
  have v: "tb_verticalMovement ?w ?c = Finite (3355443 / 67108864)"
    by (simp add: tb_verticalMovement_def tb_delta_ex_trackball movement_5)
  have m: "moveLocal (Finite 0) (Finite 0) (Finite 0) (m_camera ?c) = m_camera ?c"
    by (simp add: ex_trackball_def moveLocal_pan_example)
  have k: "glfwGetKey ?w GLFW_KEY_LEFT_SHIFT" by (simp add: drag_window_def)
  have "Trackball_update ex_rotation ?w (Finite 0) ?c
        = (True, (tb_polled ?w ?c)\<lparr>m_camera := m_camera ?c\<rparr>)"
    by (simp add: Trackball_update_unfold h v m k)
  then show ?thesis
    using ex5_frame f_1e_4_val by (simp add: tb_polled_ex_trackball)
qed

text \<open>
  C3, amended. For both controllers, an update that returns false has left the stored
  camera as it was (so an update that changed the camera returned true). The converse is
  not claimed: true means that a camera motion was applied.
\<close>

theorem update_false_camera_unchanged:
  "(fst (FirstPerson_update rotateLocal rotateWorld w elapsedTime fc) = False \<longrightarrow>
      m_camera (snd (FirstPerson_update rotateLocal rotateWorld w elapsedTime fc)) = m_camera fc)
   \<and> (\<forall>tc'. Trackball_update rotation w elapsedTime tc = (False, tc') \<longrightarrow> m_camera tc' = m_camera tc)"
proof
  show "fst (FirstPerson_update rotateLocal rotateWorld w elapsedTime fc) = False \<longrightarrow>
      m_camera (snd (FirstPerson_update rotateLocal rotateWorld w elapsedTime fc)) = m_camera fc"
    by (simp add: FirstPerson_update_unfold)
next
  show "\<forall>tc'. Trackball_update rotation w elapsedTime tc = (False, tc') \<longrightarrow> m_camera tc' = m_camera tc"
    by (auto simp: Trackball_update_unfold tb_zoom_unfold split: if_splits)
qed

theorem update_false_camera_unchanged_witness:
  "fst (FirstPerson_update (\<lambda>roll tilt pan cam. cam) (\<lambda>angle axis cam. cam)
          (keys_window (\<lambda>k. False)) (Finite 1) ex_firstperson) = False
   \<and> m_camera (snd (FirstPerson_update (\<lambda>roll tilt pan cam. cam) (\<lambda>angle axis cam. cam)
          (keys_window (\<lambda>k. False)) (Finite 1) ex_firstperson)) = m_camera ex_firstperson
   \<and> Trackball_update ex_rotation (drag_window (0, 0) (\<lambda>k. True)) (Finite 1)
        (ex_trackball (0, 0, 1) (0, 0, 0))
       = (False, ex_trackball (0, 0, 1) (0, 0, 0))
   \<and> m_camera (ex_trackball (0, 0, 1) (0, 0, 0)) = m_camera (ex_trackball (0, 0, 1) (0, 0, 0))"
proof -
  let ?u = "FirstPerson_update (\<lambda>roll tilt pan cam. cam) (\<lambda>angle axis cam. cam)
              (keys_window (\<lambda>k. False)) (Finite 1) ex_firstperson"
  have d: "fp_delta (keys_window (\<lambda>k. False)) ex_firstperson = (Finite 0, Finite 0)"
    by (rule fp_delta_released) (simp add: keys_window_def)
  have "fp_still (keys_window (\<lambda>k. False)) (Finite 1) ex_firstperson"
    by (rule fp_no_input_still [OF _ d]) (simp add: keys_window_def)
  then have f: "fst ?u = False" by (simp add: FirstPerson_update_unfold)
  have t: "Trackball_update ex_rotation (drag_window (0, 0) (\<lambda>k. True)) (Finite 1)
             (ex_trackball (0, 0, 1) (0, 0, 0))
       = (False, ex_trackball (0, 0, 1) (0, 0, 0))"
    by (simp add: Trackball_update_unfold tb_still tb_delta_ex_trackball tb_polled_ex_trackball)
       (simp add: ex_trackball_def)
  from update_false_camera_unchanged
    [of "\<lambda>roll tilt pan cam. cam" "\<lambda>angle axis cam. cam" "keys_window (\<lambda>k. False)" "Finite 1"
        ex_firstperson]
    f
  have "m_camera (snd ?u) = m_camera ex_firstperson" by blast
  with f t show ?thesis by simp
qed



text \<open>
  C5. The first-person update returns false exactly when the six accumulated quantities
  (truckLeft, pedestalUp, dollyIn, rollRightAngle, panLeftAngle, tiltDownAngle) are all
  zero, and then the camera is untouched; otherwise it returns true and the new camera is
  \<open>rotateWorld(panLeftAngle, worldUpAxis)\<close> of \<open>rotateLocal(rollRightAngle, tiltDownAngle, 0)\<close>
  of \<open>moveLocal(truckLeft, pedestalUp, dollyIn)\<close> of the old one. With no key held and
  the left button not held, or held with a zero delta, all six are zero.
\<close>

theorem FirstPerson_update_six_quantities:
  "(fst (FirstPerson_update rotateLocal rotateWorld w elapsedTime c) = False
      \<longleftrightarrow> fp_still w elapsedTime c)
   \<and> FirstPerson_update rotateLocal rotateWorld w elapsedTime c =
       (if fp_still w elapsedTime c then (False, fp_polled w c)
        else (True,
              (fp_polled w c)\<lparr>m_camera :=
                 rotateWorld (fp_panLeftAngle (fp_delta w c)) (m_worldUpAxis c)
                   (rotateLocal (fp_rollRightAngle w) (fp_tiltDownAngle (fp_delta w c)) (Finite 0)
                     (moveLocal (fp_truckLeft w (m_fSpeed c) elapsedTime)
                                (fp_pedestalUp w (m_fSpeed c) elapsedTime)
                                (fp_dollyIn w (m_fSpeed c) elapsedTime) (m_camera c)))\<rparr>))
   \<and> m_camera (fp_polled w c) = m_camera c
   \<and> ((\<forall>k. \<not> glfwGetKey w k)
        \<and> (\<not> glfwGetMouseButton w GLFW_MOUSE_BUTTON_LEFT \<or> fp_delta w c = (Finite 0, Finite 0))
      \<longrightarrow> fp_still w elapsedTime c)"
proof (intro conjI impI)
  show "fst (FirstPerson_update rotateLocal rotateWorld w elapsedTime c) = False
      \<longleftrightarrow> fp_still w elapsedTime c"
    by (simp add: FirstPerson_update_unfold)
next
  show "FirstPerson_update rotateLocal rotateWorld w elapsedTime c =
       (if fp_still w elapsedTime c then (False, fp_polled w c)
        else (True,
              (fp_polled w c)\<lparr>m_camera :=
                 rotateWorld (fp_panLeftAngle (fp_delta w c)) (m_worldUpAxis c)
                   (rotateLocal (fp_rollRightAngle w) (fp_tiltDownAngle (fp_delta w c)) (Finite 0)
                     (moveLocal (fp_truckLeft w (m_fSpeed c) elapsedTime)
                                (fp_pedestalUp w (m_fSpeed c) elapsedTime)
                                (fp_dollyIn w (m_fSpeed c) elapsedTime) (m_camera c)))\<rparr>))"
    by (rule FirstPerson_update_unfold)
next
  show "m_camera (fp_polled w c) = m_camera c" by simp
next
  assume a: "(\<forall>k. \<not> glfwGetKey w k)
        \<and> (\<not> glfwGetMouseButton w GLFW_MOUSE_BUTTON_LEFT \<or> fp_delta w c = (Finite 0, Finite 0))"
  then have "fp_delta w c = (Finite 0, Finite 0)" using fp_delta_released by blast
  with a show "fp_still w elapsedTime c" by (simp add: fp_no_input_still)
qed

theorem FirstPerson_update_six_quantities_witness:
  "fp_still (keys_window (\<lambda>k. False)) (Finite 1) ex_firstperson
   \<and> fst (FirstPerson_update (\<lambda>roll tilt pan cam. cam) (\<lambda>angle axis cam. cam)
          (keys_window (\<lambda>k. False)) (Finite 1) ex_firstperson) = False
   \<and> \<not> fp_still (keys_window (\<lambda>k. k = GLFW_KEY_W)) (Finite 1) ex_firstperson
   \<and> FirstPerson_update (\<lambda>roll tilt pan cam. cam) (\<lambda>angle axis cam. cam)
          (keys_window (\<lambda>k. k = GLFW_KEY_W)) (Finite 1) ex_firstperson
       = (True, ex_firstperson\<lparr>m_camera :=
                  mkCamera (Finite 0, Finite 0, Finite (- 1)) (Finite 0, Finite 0, Finite (- 2))
                    (Finite 0, Finite 1, Finite 0)\<rparr>)"
proof -
  let ?rl = "\<lambda>(roll::ieee) (tilt::ieee) (pan::ieee) (cam::Camera). cam"
  let ?rw = "\<lambda>(angle::ieee) (axis::vec3) (cam::Camera). cam"
  let ?w0 = "keys_window (\<lambda>k. False)"
  let ?w1 = "keys_window (\<lambda>k. k = GLFW_KEY_W)"
  note t0 = FirstPerson_update_six_quantities [of ?rl ?rw ?w0 "Finite 1" ex_firstperson]
  note t1 = FirstPerson_update_six_quantities [of ?rl ?rw ?w1 "Finite 1" ex_firstperson]
  have k0: "\<forall>k. \<not> glfwGetKey ?w0 k" "\<not> glfwGetMouseButton ?w0 GLFW_MOUSE_BUTTON_LEFT"
    by (simp_all add: keys_window_def)
  from t0 k0 have s0: "fp_still ?w0 (Finite 1) ex_firstperson" by blast
  with t0 have f0: "fst (FirstPerson_update ?rl ?rw ?w0 (Finite 1) ex_firstperson) = False" by blast
  have ns: "\<not> fp_still ?w1 (Finite 1) ex_firstperson"
    by (simp add: fp_still_def fp_dollyIn_def keys_window_def ex_firstperson_def)
  have d1: "fp_delta ?w1 ex_firstperson = (Finite 0, Finite 0)"
    by (rule fp_delta_released) (simp add: keys_window_def)
  have p1: "fp_polled ?w1 ex_firstperson = ex_firstperson"
    by (simp add: fp_polled_def fp_cursorDelta_def fp_edge_def keys_window_def ex_firstperson_def)
  have q: "fp_truckLeft ?w1 (Finite 1) (Finite 1) = Finite 0"
    "fp_pedestalUp ?w1 (Finite 1) (Finite 1) = Finite 0"
    "fp_dollyIn ?w1 (Finite 1) (Finite 1) = Finite 1"
    by (simp_all add: fp_truckLeft_def fp_pedestalUp_def fp_dollyIn_def keys_window_def)
  have sp: "m_fSpeed ex_firstperson = Finite 1" by (simp add: ex_firstperson_def)
  have cam: "m_camera ex_firstperson
             = mkCamera (Finite 0, Finite 0, Finite 0) (Finite 0, Finite 0, Finite (- 1))
                 (Finite 0, Finite 1, Finite 0)"
    by (simp add: ex_firstperson_def)
  have mv: "moveLocal (Finite 0) (Finite 0) (Finite 1) (m_camera ex_firstperson)
            = mkCamera (Finite 0, Finite 0, Finite (- 1)) (Finite 0, Finite 0, Finite (- 2))
                (Finite 0, Finite 1, Finite 0)"
    unfolding cam moveLocal_def left_example front_example
    by (simp add: mkCamera_def)
  from t1 ns have "FirstPerson_update ?rl ?rw ?w1 (Finite 1) ex_firstperson
       = (True, ex_firstperson\<lparr>m_camera :=
                  mkCamera (Finite 0, Finite 0, Finite (- 1)) (Finite 0, Finite 0, Finite (- 2))
                    (Finite 0, Finite 1, Finite 0)\<rparr>)"
    by (simp add: d1 p1 q sp mv)
  with s0 f0 ns show ?thesis by blast
qed

text \<open>
  C8. Whenever the cursor delta computed by the trackball update is \<open>(0, 0)\<close>, the update
  returns false and the camera is untouched, whatever keys are held: the keys are not
  read on that path. The delta is \<open>(0, 0)\<close> in particular while the middle button is not
  held and in the frame in which it is pressed.
\<close>

theorem Trackball_update_zero_delta:
  "(tb_delta w c = (Finite 0, Finite 0) \<longrightarrow>
      Trackball_update rotation w elapsedTime c = (False, tb_polled w c)
      \<and> m_camera (tb_polled w c) = m_camera c
      \<and> tb_polled (w\<lparr>glfwGetKey := keys\<rparr>) c = tb_polled w c
      \<and> Trackball_update rotation (w\<lparr>glfwGetKey := keys\<rparr>) elapsedTime c = (False, tb_polled w c))
   \<and> (\<not> glfwGetMouseButton w GLFW_MOUSE_BUTTON_MIDDLE \<or> \<not> m_MiddleButtonPressed c
        \<longrightarrow> tb_delta w c = (Finite 0, Finite 0))"
proof (intro conjI impI)
  assume d: "tb_delta w c = (Finite 0, Finite 0)"
  show "Trackball_update rotation w elapsedTime c = (False, tb_polled w c)"
    using tb_still [OF d] by (simp add: Trackball_update_unfold)
  show "m_camera (tb_polled w c) = m_camera c" by simp
  show p: "tb_polled (w\<lparr>glfwGetKey := keys\<rparr>) c = tb_polled w c"
    by (simp add: tb_polled_def tb_cursorDelta_def tb_edge_def)
  have "tb_delta (w\<lparr>glfwGetKey := keys\<rparr>) c = tb_delta w c"
    by (simp add: tb_delta_def tb_cursorDelta_def tb_edge_def)
  with d have "tb_delta (w\<lparr>glfwGetKey := keys\<rparr>) c = (Finite 0, Finite 0)" by simp
  from tb_still [OF this] p
  show "Trackball_update rotation (w\<lparr>glfwGetKey := keys\<rparr>) elapsedTime c = (False, tb_polled w c)"
    by (simp add: Trackball_update_unfold)
next
  assume "\<not> glfwGetMouseButton w GLFW_MOUSE_BUTTON_MIDDLE \<or> \<not> m_MiddleButtonPressed c"
  then show "tb_delta w c = (Finite 0, Finite 0)"
    by (cases "glfwGetCursorPos w") (auto simp: tb_delta_def tb_cursorDelta_def tb_edge_def)
qed

theorem Trackball_update_zero_delta_witness:
  "tb_delta (drag_window (0, 0) (\<lambda>k. True)) (ex_trackball (0, 0, 1) (0, 0, 0)) = (Finite 0, Finite 0)
   \<and> Trackball_update ex_rotation (drag_window (0, 0) (\<lambda>k. True)) (Finite 1)
        (ex_trackball (0, 0, 1) (0, 0, 0))
       = (False, ex_trackball (0, 0, 1) (0, 0, 0))
   \<and> Trackball_update ex_rotation (drag_window (0, 0) (\<lambda>k. k = GLFW_KEY_LEFT_SHIFT)) (Finite 1)
        (ex_trackball (0, 0, 1) (0, 0, 0))
       = (False, ex_trackball (0, 0, 1) (0, 0, 0))"
proof -
  let ?w = "drag_window (0, 0) (\<lambda>k. True)"
  let ?c = "ex_trackball (0, 0, 1) (0, 0, 0)"
  have d: "tb_delta ?w ?c = (Finite 0, Finite 0)" by (simp add: tb_delta_ex_trackball)
  have p: "tb_polled ?w ?c = ?c"
    by (simp add: tb_polled_def tb_cursorDelta_def tb_edge_def drag_window_def ex_trackball_def)
  have k: "?w\<lparr>glfwGetKey := (\<lambda>k. k = GLFW_KEY_LEFT_SHIFT)\<rparr>
           = drag_window (0, 0) (\<lambda>k. k = GLFW_KEY_LEFT_SHIFT)"
    by (simp add: drag_window_def)
  from Trackball_update_zero_delta [of ?w ?c ex_rotation "Finite 1" "\<lambda>k. k = GLFW_KEY_LEFT_SHIFT"] d
  have "Trackball_update ex_rotation ?w (Finite 1) ?c = (False, tb_polled ?w ?c)
        \<and> Trackball_update ex_rotation (?w\<lparr>glfwGetKey := (\<lambda>k. k = GLFW_KEY_LEFT_SHIFT)\<rparr>) (Finite 1) ?c
            = (False, tb_polled ?w ?c)"
    by blast
  with d show ?thesis by (simp add: p k)
qed

text \<open>
  C7, as stated (every camera state, the degenerate one included, is zoomed without a
  division by zero and gets a finite eye), fails where the view length is zero. With the
  eye on the center the view vector is zero and \<open>viewVector / viewLength\<close> is zero over
  zero: the new eye is NaN in every component. With the eye at \<open>(0, 0, 2^-100)\<close> and the
  center at the origin the eye is not on the center, but the square of \<open>2^-100\<close> rounds to
  zero, the view length is zero all the same, and the new eye is \<open>(NaN, NaN, +infinity)\<close>.
\<close>

theorem zoom_at_center_divides_by_zero:
  "view_length (ex_trackball (0, 0, 0) (0, 0, 0)) = Finite 0
   \<and> m_eye (m_camera (snd (Trackball_update ex_rotation
          (drag_window (100, 0) (\<lambda>k. k = GLFW_KEY_LEFT_CONTROL)) (Finite 0)
          (ex_trackball (0, 0, 0) (0, 0, 0))))) = (NaN, NaN, NaN)
   \<and> view_vector (ex_trackball (0, 0, ex_tiny) (0, 0, 0))
       = (Finite 0, Finite 0, Finite (- (ex_tiny)))
   \<and> view_length (ex_trackball (0, 0, ex_tiny) (0, 0, 0)) = Finite 0
   \<and> m_eye (m_camera (snd (Trackball_update ex_rotation
          (drag_window (100, 0) (\<lambda>k. k = GLFW_KEY_LEFT_CONTROL)) (Finite 0)
          (ex_trackball (0, 0, ex_tiny) (0, 0, 0))))) = (NaN, NaN, PInf)"
proof -
  let ?w = "drag_window (100, 0) (\<lambda>k. k = GLFW_KEY_LEFT_CONTROL)"
  let ?c = "ex_trackball (0, 0, 0) (0, 0, 0)"
  let ?d = "ex_trackball (0, 0, ex_tiny) (0, 0, 0)"
  have vv: "view_vector ?c = (Finite 0, Finite 0, Finite 0)"
    by (simp add: view_vector_def ex_trackball_def ieee_sub_def)
  have h: "tb_horizontalMovement ?w ?c \<noteq> Finite 0" by (simp add: ex1_h)
  note z = zoom_at_center [OF zoom_frame_ctrl vv h]
  have a: "m_eye (m_camera (snd (Trackball_update ex_rotation ?w (Finite 0) ?c))) = (NaN, NaN, NaN)"
    by (simp add: z(2))
  have b: "m_eye (m_camera (snd (Trackball_update ex_rotation ?w (Finite 0) ?d))) = (NaN, NaN, PInf)"
    apply (simp add: zoom_frame_update [OF zoom_frame_ctrl] ex1_h ex2_vv ex2_len tb_polled_ex_trackball)
    apply (simp add: ex_trackball_def ieee_sub_def f_1e_4_val round32_minus_eps glm_min_def
        ieee_inf_def ex_tiny_pos less_imp_le [OF ex_tiny_pos] not_less)
    done
  from z(1) a ex2_vv ex2_len b show ?thesis by simp
qed

text \<open>
  C7, amended. Where the view length that the update computes is a number other than
  zero, however small, a zoom frame divides by no zero: the view length is positive, the
  view vector is finite and each of its components is divided by the view length. The
  movement of a zoom-in is the smaller of the horizontal movement and
  \<open>viewLength - 1e-4f\<close>, so it is never greater than \<open>viewLength - 1e-4f\<close>; the eye moves by
  the movement times the quotient, the center stays, and the result is true (false, with
  the camera untouched, when the horizontal movement is zero). The new eye is a finite
  vector when the horizontal movement is at most \<open>2^30\<close> and the coordinates of the eye are
  at most \<open>2^100\<close> in absolute value.
\<close>

theorem zoom_step_divides_by_view_length:
  assumes "zoom_frame w" and "view_length c = Finite L" and "L \<noteq> 0"
  shows "0 < L
    \<and> (\<exists>x y z. view_vector c = (Finite x, Finite y, Finite z)
          \<and> vec3_div round32 (view_vector c) (view_length c)
              = (round32 (x / L), round32 (y / L), round32 (z / L)))
    \<and> Trackball_update rotation w elapsedTime c =
        (if tb_horizontalMovement w c = Finite 0 then (False, tb_polled w c)
         else (True,
               (tb_polled w c)\<lparr>m_camera :=
                  mkCamera
                    (vec3_add round32 (m_eye (m_camera c))
                       (vec3_scale round32
                          (if ieee_less (Finite 0) (tb_horizontalMovement w c)
                           then glm_min (tb_horizontalMovement w c)
                                  (ieee_sub round32 (Finite L) f_1e_4)
                           else tb_horizontalMovement w c)
                          (vec3_div round32 (view_vector c) (Finite L))))
                    (m_center (m_camera c)) (m_worldUpAxis c)\<rparr>))
    \<and> \<not> ieee_less (ieee_sub round32 (Finite L) f_1e_4)
          (glm_min (tb_horizontalMovement w c) (ieee_sub round32 (Finite L) f_1e_4))
    \<and> m_center (m_camera (snd (Trackball_update rotation w elapsedTime c))) = m_center (m_camera c)
    \<and> (\<forall>hv ex ey ez.
          tb_horizontalMovement w c = Finite hv \<and> \<bar>hv\<bar> \<le> 2 ^ 30
          \<and> m_eye (m_camera c) = (Finite ex, Finite ey, Finite ez)
          \<and> \<bar>ex\<bar> \<le> 2 ^ 100 \<and> \<bar>ey\<bar> \<le> 2 ^ 100 \<and> \<bar>ez\<bar> \<le> 2 ^ 100
          \<longrightarrow> (\<exists>x y z. m_eye (m_camera (snd (Trackball_update rotation w elapsedTime c)))
                          = (Finite x, Finite y, Finite z)))"
proof (intro conjI allI impI)
  from glm_length_nonneg [of "view_vector c" L] assms(2,3) show Lpos: "0 < L"
    by (simp add: view_length_def)
  from glm_length_Finite [of round32 "view_vector c" L] assms(2) obtain x y z where
    v: "view_vector c = (Finite x, Finite y, Finite z)" by (auto simp: view_length_def)
  with assms(2,3) show "\<exists>x y z. view_vector c = (Finite x, Finite y, Finite z)
          \<and> vec3_div round32 (view_vector c) (view_length c)
              = (round32 (x / L), round32 (y / L), round32 (z / L))"
    by simp
  show u: "Trackball_update rotation w elapsedTime c =
        (if tb_horizontalMovement w c = Finite 0 then (False, tb_polled w c)
         else (True,
               (tb_polled w c)\<lparr>m_camera :=
                  mkCamera
                    (vec3_add round32 (m_eye (m_camera c))
                       (vec3_scale round32
                          (if ieee_less (Finite 0) (tb_horizontalMovement w c)
                           then glm_min (tb_horizontalMovement w c)
                                  (ieee_sub round32 (Finite L) f_1e_4)
                           else tb_horizontalMovement w c)
                          (vec3_div round32 (view_vector c) (Finite L))))
                    (m_center (m_camera c)) (m_worldUpAxis c)\<rparr>))"
    by (simp add: zoom_frame_update [OF assms(1)] assms(2))
  show "\<not> ieee_less (ieee_sub round32 (Finite L) f_1e_4)
          (glm_min (tb_horizontalMovement w c) (ieee_sub round32 (Finite L) f_1e_4))"
    by (rule glm_min_bound)
  show "m_center (m_camera (snd (Trackball_update rotation w elapsedTime c))) = m_center (m_camera c)"
    unfolding u by simp
  fix hv ex ey ez
  assume a: "tb_horizontalMovement w c = Finite hv \<and> \<bar>hv\<bar> \<le> 2 ^ 30
          \<and> m_eye (m_camera c) = (Finite ex, Finite ey, Finite ez)
          \<and> \<bar>ex\<bar> \<le> 2 ^ 100 \<and> \<bar>ey\<bar> \<le> 2 ^ 100 \<and> \<bar>ez\<bar> \<le> 2 ^ 100"
  from clamp_bounded [OF Lpos, of hv] obtain mv where
    mv: "(if ieee_less (Finite 0) (Finite hv)
          then glm_min (Finite hv) (ieee_sub round32 (Finite L) f_1e_4) else Finite hv) = Finite mv"
    and "\<bar>mv\<bar> \<le> max \<bar>hv\<bar> 1" by blast
  with a have m: "\<bar>mv\<bar> \<le> pow2 30" by (auto simp: pow2_def)
  from assms(2) v have len: "glm_length round32 (Finite x, Finite y, Finite z) = Finite L"
    by (simp add: view_length_def)
  from a have e: "\<bar>ex\<bar> \<le> pow2 100" "\<bar>ey\<bar> \<le> pow2 100" "\<bar>ez\<bar> \<le> pow2 100"
    by (simp_all add: pow2_def)
  from zoom_eye_finite [OF len assms(3) m e] obtain x' y' z' where
    F: "vec3_add round32 (Finite ex, Finite ey, Finite ez)
          (vec3_scale round32 (Finite mv)
             (vec3_div round32 (Finite x, Finite y, Finite z) (Finite L)))
        = (Finite x', Finite y', Finite z')" by blast
  from a have h: "tb_horizontalMovement w c = Finite hv"
    and eye: "m_eye (m_camera c) = (Finite ex, Finite ey, Finite ez)" by simp_all
  show "\<exists>x y z. m_eye (m_camera (snd (Trackball_update rotation w elapsedTime c)))
                 = (Finite x, Finite y, Finite z)"
  proof (cases "hv = 0")
    case True
    with h have "snd (Trackball_update rotation w elapsedTime c) = tb_polled w c"
      unfolding u by simp
    with eye show ?thesis by simp
  next
    case False
    with h have "m_eye (m_camera (snd (Trackball_update rotation w elapsedTime c)))
        = vec3_add round32 (m_eye (m_camera c))
            (vec3_scale round32
               (if ieee_less (Finite 0) (tb_horizontalMovement w c)
                then glm_min (tb_horizontalMovement w c) (ieee_sub round32 (Finite L) f_1e_4)
                else tb_horizontalMovement w c)
               (vec3_div round32 (view_vector c) (Finite L)))"
      unfolding u by simp
    also have "\<dots> = vec3_add round32 (Finite ex, Finite ey, Finite ez)
          (vec3_scale round32 (Finite mv)
             (vec3_div round32 (Finite x, Finite y, Finite z) (Finite L)))"
      by (simp only: h eye v mv)
    also note F
    finally show ?thesis by blast
  qed
qed

theorem zoom_step_divides_by_view_length_witness:
  "zoom_frame (drag_window (100, 0) (\<lambda>k. k = GLFW_KEY_LEFT_CONTROL))
   \<and> view_length (ex_trackball (0, 0, 1 / 16384) (0, 0, 0)) = Finite (1 / 16384)
   \<and> tb_horizontalMovement (drag_window (100, 0) (\<lambda>k. k = GLFW_KEY_LEFT_CONTROL))
        (ex_trackball (0, 0, 1 / 16384) (0, 0, 0)) = Finite 1
   \<and> m_eye (m_camera (ex_trackball (0, 0, 1 / 16384) (0, 0, 0)))
      = (Finite 0, Finite 0, Finite (1 / 16384))
   \<and> \<bar>1 :: real\<bar> \<le> 2 ^ 30 \<and> \<bar>1 / 16384 :: real\<bar> \<le> 2 ^ 100
   \<and> glm_min (Finite 1) (ieee_sub round32 (Finite (1 / 16384)) f_1e_4)
      = Finite (- (5355287 / 137438953472))
   \<and> Trackball_update ex_rotation (drag_window (100, 0) (\<lambda>k. k = GLFW_KEY_LEFT_CONTROL)) (Finite 0)
        (ex_trackball (0, 0, 1 / 16384) (0, 0, 0))
      = (True, (ex_trackball (0, 0, 13743895 / 137438953472) (0, 0, 0))
                 \<lparr>m_LastCursorPosition := (100, 0)\<rparr>)
   \<and> f_1e_4 = Finite (13743895 / 137438953472)"
proof -
  let ?w = "drag_window (100, 0) (\<lambda>k. k = GLFW_KEY_LEFT_CONTROL)"
  let ?c = "ex_trackball (0, 0, 1 / 16384) (0, 0, 0)"
  have l: "view_length ?c = Finite (1 / 16384)" by (rule ex3_len)
  have nz: "(1 / 16384 :: real) \<noteq> 0" by simp
  have h: "tb_horizontalMovement ?w ?c = Finite 1" by (rule ex1_h)
  have m: "glm_min (Finite 1) (ieee_sub round32 (Finite (1 / 16384)) f_1e_4)
           = Finite (- (5355287 / 137438953472))"
    by (simp add: ex3_limit glm_min_def)
  from zoom_step_divides_by_view_length
    [OF zoom_frame_ctrl l nz, where rotation = ex_rotation and elapsedTime = "Finite 0"]
  have "Trackball_update ex_rotation ?w (Finite 0) ?c =
        (if tb_horizontalMovement ?w ?c = Finite 0 then (False, tb_polled ?w ?c)
         else (True,
               (tb_polled ?w ?c)\<lparr>m_camera :=
                  mkCamera
                    (vec3_add round32 (m_eye (m_camera ?c))
                       (vec3_scale round32
                          (if ieee_less (Finite 0) (tb_horizontalMovement ?w ?c)
                           then glm_min (tb_horizontalMovement ?w ?c)
                                  (ieee_sub round32 (Finite (1 / 16384)) f_1e_4)
                           else tb_horizontalMovement ?w ?c)
                          (vec3_div round32 (view_vector ?c) (Finite (1 / 16384)))))
                    (m_center (m_camera ?c)) (m_worldUpAxis ?c)\<rparr>))"
    by blast
  then have u: "Trackball_update ex_rotation ?w (Finite 0) ?c
      = (True, (ex_trackball (0, 0, 13743895 / 137438953472) (0, 0, 0))
                 \<lparr>m_LastCursorPosition := (100, 0)\<rparr>)"
    apply (simp add: h m ex3_vv tb_polled_ex_trackball)
    apply (simp add: ex_trackball_def mkCamera_def ex3_move ex3_step)
    done
  have e: "m_eye (m_camera ?c) = (Finite 0, Finite 0, Finite (1 / 16384))"
    by (simp add: ex_trackball_def)
  from zoom_frame_ctrl l h m u f_1e_4_val e show ?thesis by simp
qed

text \<open>
  C10, as stated (the distance from the eye to the center grows by \<open>|horizontalMovement|\<close>
  in every zoom-out and without bound), fails in single precision. At the distance \<open>2^24\<close>
  the floats are 2 apart: a zoom-out by 1 computes \<open>16777216 + 1\<close>, which rounds back to
  \<open>16777216\<close>, and the eye stays where it is, in this frame and in the next. And with the eye on the
  center there is no direction to move along: the zoom-out divides zero by zero and the
  new eye is NaN in every component.
\<close>

theorem zoom_out_stalls:
  "view_length (ex_trackball (0, 0, 16777216) (0, 0, 0)) = Finite 16777216
   \<and> tb_horizontalMovement (drag_window (- 100, 0) (\<lambda>k. k = GLFW_KEY_LEFT_CONTROL))
        (ex_trackball (0, 0, 16777216) (0, 0, 0)) = Finite (- 1)
   \<and> Trackball_update ex_rotation (drag_window (- 100, 0) (\<lambda>k. k = GLFW_KEY_LEFT_CONTROL)) (Finite 0)
        (ex_trackball (0, 0, 16777216) (0, 0, 0))
      = (True, (ex_trackball (0, 0, 16777216) (0, 0, 0))\<lparr>m_LastCursorPosition := (- 100, 0)\<rparr>)
   \<and> Trackball_update ex_rotation (drag_window (- 200, 0) (\<lambda>k. k = GLFW_KEY_LEFT_CONTROL)) (Finite 0)
        ((ex_trackball (0, 0, 16777216) (0, 0, 0))\<lparr>m_LastCursorPosition := (- 100, 0)\<rparr>)
      = (True, (ex_trackball (0, 0, 16777216) (0, 0, 0))\<lparr>m_LastCursorPosition := (- 200, 0)\<rparr>)
   \<and> view_length (ex_trackball (1, 2, 3) (1, 2, 3)) = Finite 0
   \<and> m_eye (m_camera (snd (Trackball_update ex_rotation
          (drag_window (- 100, 0) (\<lambda>k. k = GLFW_KEY_LEFT_CONTROL)) (Finite 0)
          (ex_trackball (1, 2, 3) (1, 2, 3))))) = (NaN, NaN, NaN)"
proof -
  let ?w = "drag_window (- 100, 0) (\<lambda>k. k = GLFW_KEY_LEFT_CONTROL)"
  let ?c = "ex_trackball (0, 0, 16777216) (0, 0, 0)"
  let ?d = "ex_trackball (1, 2, 3) (1, 2, 3)"
  have h: "tb_horizontalMovement ?w ?c = Finite (- 1)" by (rule ex4_h)
  have u: "Trackball_update ex_rotation ?w (Finite 0) ?c
           = (True, ?c\<lparr>m_LastCursorPosition := (- 100, 0)\<rparr>)"
    apply (simp add: zoom_frame_update [OF zoom_frame_ctrl] h ex4_vv ex4_len tb_polled_ex_trackball)
    apply (simp add: ex_trackball_def mkCamera_def ex4_step)
    done
  have u2: "Trackball_update ex_rotation (drag_window (- 200, 0) (\<lambda>k. k = GLFW_KEY_LEFT_CONTROL))
              (Finite 0) (?c\<lparr>m_LastCursorPosition := (- 100, 0)\<rparr>)
            = (True, ?c\<lparr>m_LastCursorPosition := (- 200, 0)\<rparr>)"
    apply (simp add: zoom_frame_update [OF zoom_frame_ctrl] ex4_h2 ex4_vv ex4_len ex4_polled2)
    apply (simp add: ex_trackball_def mkCamera_def ex4_step)
    done
  have vv: "view_vector ?d = (Finite 0, Finite 0, Finite 0)"
    by (simp add: view_vector_def ex_trackball_def ieee_sub_def)
  have hd: "tb_horizontalMovement ?w ?d \<noteq> Finite 0" by (simp add: ex4_h)
  note z = zoom_at_center [OF zoom_frame_ctrl vv hd]
  have "m_eye (m_camera (snd (Trackball_update ex_rotation ?w (Finite 0) ?d))) = (NaN, NaN, NaN)"
    by (simp add: z(2))
  with ex4_len h u u2 z(1) show ?thesis by simp
qed

text \<open>
  C10, amended. In every zoom-out frame (CTRL held, SHIFT not, a negative horizontal
  movement), from every camera, no clamp is applied: the movement is the horizontal
  movement itself, the eye moves by the movement times \<open>viewVector / viewLength\<close>, the
  center stays, and the result is true. How far the eye then is from the center is what
  the rounded sum makes of it.
\<close>

theorem zoom_out_unclamped:
  assumes "zoom_frame w" and "ieee_less (tb_horizontalMovement w c) (Finite 0)"
  shows "Trackball_update rotation w elapsedTime c =
           (True,
            (tb_polled w c)\<lparr>m_camera :=
               mkCamera
                 (vec3_add round32 (m_eye (m_camera c))
                    (vec3_scale round32 (tb_horizontalMovement w c)
                       (vec3_div round32 (view_vector c) (view_length c))))
                 (m_center (m_camera c)) (m_worldUpAxis c)\<rparr>)
         \<and> m_center (m_camera (snd (Trackball_update rotation w elapsedTime c)))
             = m_center (m_camera c)"
proof -
  from assms(2) have "tb_horizontalMovement w c \<noteq> Finite 0"
    and "\<not> ieee_less (Finite 0) (tb_horizontalMovement w c)"
    by (cases "tb_horizontalMovement w c"; simp)+
  then show ?thesis
    by (simp add: zoom_frame_update [OF assms(1)])
qed

theorem zoom_out_unclamped_witness:
  "zoom_frame (drag_window (- 300, 0) (\<lambda>k. k = GLFW_KEY_LEFT_CONTROL))
   \<and> tb_horizontalMovement (drag_window (- 300, 0) (\<lambda>k. k = GLFW_KEY_LEFT_CONTROL))
        (ex_trackball (0, 0, 1) (0, 0, 0)) = Finite (- 3)
   \<and> ieee_less (Finite (- 3)) (Finite 0)
   \<and> view_length (ex_trackball (0, 0, 1) (0, 0, 0)) = Finite 1
   \<and> Trackball_update ex_rotation (drag_window (- 300, 0) (\<lambda>k. k = GLFW_KEY_LEFT_CONTROL)) (Finite 0)
        (ex_trackball (0, 0, 1) (0, 0, 0))
      = (True, (ex_trackball (0, 0, 4) (0, 0, 0))\<lparr>m_LastCursorPosition := (- 300, 0)\<rparr>)"
proof -
  let ?w = "drag_window (- 300, 0) (\<lambda>k. k = GLFW_KEY_LEFT_CONTROL)"
  let ?c = "ex_trackball (0, 0, 1) (0, 0, 0)"
  have h: "tb_horizontalMovement ?w ?c = Finite (- 3)"
    by (simp add: tb_horizontalMovement_def tb_delta_ex_trackball movement_minus_300)
  then have n: "ieee_less (tb_horizontalMovement ?w ?c) (Finite 0)" by simp
  have vv: "view_vector ?c = (Finite 0, Finite 0, Finite (- 1))"
    by (simp add: view_vector_def ex_trackball_def ieee_sub_def)
  have l: "view_length ?c = Finite 1"
    by (simp add: view_length_def vv glm_length_def)
  from zoom_out_unclamped [OF zoom_frame_ctrl n, of ex_rotation "Finite 0"]
  have "Trackball_update ex_rotation ?w (Finite 0) ?c =
           (True,
            (tb_polled ?w ?c)\<lparr>m_camera :=
               mkCamera
                 (vec3_add round32 (m_eye (m_camera ?c))
                    (vec3_scale round32 (tb_horizontalMovement ?w ?c)
                       (vec3_div round32 (view_vector ?c) (view_length ?c))))
                 (m_center (m_camera ?c)) (m_worldUpAxis ?c)\<rparr>)"
    by blast
  then have u: "Trackball_update ex_rotation ?w (Finite 0) ?c
                = (True, (ex_trackball (0, 0, 4) (0, 0, 0))\<lparr>m_LastCursorPosition := (- 300, 0)\<rparr>)"
    apply (simp add: h vv l tb_polled_ex_trackball)
    apply (simp add: ex_trackball_def mkCamera_def)
    done
  from zoom_frame_ctrl h l u show ?thesis by simp
qed

section \<open>Claims about the draw calls and the light uniform\<close>

lemma at_index_Inr:
  "at_index xs i = Inr x \<longleftrightarrow> 0 \<le> i \<and> i < int (length xs) \<and> x = xs ! nat i"
  by (auto simp: at_index_def)

lemma uint_small:
  assumes "unat (w :: 64 word) < 2 ^ 31"
  shows "uint w < 2 ^ 31"
  using assms by (metis of_nat_less_iff of_nat_numeral of_nat_power uint_nat)

lemma sint_ucast_64_32: "sint (ucast (w :: 64 word) :: 32 word) = signed_take_bit 31 (uint w)"
  using signed_ucast_eq [of w, where ?'c = 32 and ?'a = int] by simp

text \<open>The cast \<open>GLsizei(count)\<close> of a \<open>size_t\<close> keeps every count below \<open>2^31\<close>.\<close>

lemma GLsizei_small:
  assumes "unat (w :: 64 word) < 2 ^ 31"
  shows "sint (ucast w :: 32 word) = int (unat w)"
proof -
  have "uint w < 2 ^ 31" using assms by (rule uint_small)
  moreover have "- (2 ^ 31) \<le> uint w"
    by (rule order_trans [of _ 0]) simp_all
  ultimately have "signed_take_bit 31 (uint w) = uint w"
    by (rule signed_take_bit_int_eq_self [rotated])
  then show ?thesis by (simp only: sint_ucast_64_32 uint_nat)
qed

lemma drawPrimitives_per_primitive:
  "drawPrimitives ctx model vaoRange k ps = Inr cs \<Longrightarrow>
     \<exists>css. cs = concat css \<and> length css = length ps
       \<and> (\<forall>j < length ps. drawPrimitive ctx model vaoRange (k + j) (ps ! j) = Inr (css ! j))"
proof (induction ps arbitrary: k cs)
  case Nil
  then show ?case by simp
next
  case (Cons p ps)
  from Cons.prems obtain c1 c2 where
    p: "drawPrimitive ctx model vaoRange k p = Inr c1"
    and r: "drawPrimitives ctx model vaoRange (Suc k) ps = Inr c2"
    and cs: "cs = c1 @ c2"
    by (auto split: sum.splits)
  from Cons.IH [OF r] obtain css where
    c: "c2 = concat css" "length css = length ps"
    and a: "\<forall>j < length ps. drawPrimitive ctx model vaoRange (Suc k + j) (ps ! j) = Inr (css ! j)"
    by blast
  have "\<forall>j < length (p # ps). drawPrimitive ctx model vaoRange (k + j) ((p # ps) ! j) = Inr ((c1 # css) ! j)"
  proof (intro allI impI)
    fix j assume "j < length (p # ps)"
    then show "drawPrimitive ctx model vaoRange (k + j) ((p # ps) ! j) = Inr ((c1 # css) ! j)"
      using p a by (cases j) auto
  qed
  with cs c show ?case
    by (intro exI [of _ "c1 # css"]) simp
qed

text \<open>
  C6. A primitive with an index accessor (\<open>indices >= 0\<close>) is drawn by one
  \<open>glDrawElements\<close> whose count and component type are those of that accessor and whose
  byte offset is the accessor's byte offset plus that of its buffer view; a primitive
  without one is drawn by one \<open>glDrawArrays\<close> from vertex 0 whose count is that of the
  accessor of its first attribute. The count is passed as a \<open>GLsizei\<close> and is the
  accessor's count whenever that is below \<open>2^31\<close>. The primitives of a mesh are drawn one
  by one in their order.
\<close>

theorem drawPrimitive_draw_call:
  "(0 \<le> indices p
      \<and> at_index (vertexArrayObjects ctx) (vao_begin vaoRange + int pIdx) = Inr vao
      \<and> at_index (accessors model) (indices p) = Inr a
      \<and> at_index (bufferViews model) (acc_bufferView a) = Inr b
    \<longrightarrow> drawPrimitive ctx model vaoRange pIdx p =
          Inr [glBindVertexArray vao,
               glDrawElements (mode p) (ucast (acc_count a)) (acc_componentType a)
                 (acc_byteOffset a + bv_byteOffset b)])
   \<and> (indices p < 0
      \<and> at_index (vertexArrayObjects ctx) (vao_begin vaoRange + int pIdx) = Inr vao
      \<and> attributes p = (name, accessorIdx) # rest
      \<and> at_index (accessors model) accessorIdx = Inr a
    \<longrightarrow> drawPrimitive ctx model vaoRange pIdx p =
          Inr [glBindVertexArray vao, glDrawArrays (mode p) 0 (ucast (acc_count a))])
   \<and> (unat (acc_count a) < 2 ^ 31
    \<longrightarrow> sint (ucast (acc_count a) :: 32 word) = int (unat (acc_count a)))
   \<and> (drawPrimitives ctx model vaoRange 0 ps = Inr cs
    \<longrightarrow> (\<exists>css. cs = concat css \<and> length css = length ps
          \<and> (\<forall>j < length ps. drawPrimitive ctx model vaoRange j (ps ! j) = Inr (css ! j))))"
proof (intro conjI impI)
  assume "0 \<le> indices p
      \<and> at_index (vertexArrayObjects ctx) (vao_begin vaoRange + int pIdx) = Inr vao
      \<and> at_index (accessors model) (indices p) = Inr a
      \<and> at_index (bufferViews model) (acc_bufferView a) = Inr b"
  then show "drawPrimitive ctx model vaoRange pIdx p =
          Inr [glBindVertexArray vao,
               glDrawElements (mode p) (ucast (acc_count a)) (acc_componentType a)
                 (acc_byteOffset a + bv_byteOffset b)]"
    by (simp add: drawPrimitive_def)
next
  assume "indices p < 0
      \<and> at_index (vertexArrayObjects ctx) (vao_begin vaoRange + int pIdx) = Inr vao
      \<and> attributes p = (name, accessorIdx) # rest
      \<and> at_index (accessors model) accessorIdx = Inr a"
  then show "drawPrimitive ctx model vaoRange pIdx p =
          Inr [glBindVertexArray vao, glDrawArrays (mode p) 0 (ucast (acc_count a))]"
    by (simp add: drawPrimitive_def)
next
  assume "unat (acc_count a) < 2 ^ 31"
  then show "sint (ucast (acc_count a) :: 32 word) = int (unat (acc_count a))"
    by (rule GLsizei_small)
next
  assume "drawPrimitives ctx model vaoRange 0 ps = Inr cs"
  from drawPrimitives_per_primitive [OF this]
  show "\<exists>css. cs = concat css \<and> length css = length ps
          \<and> (\<forall>j < length ps. drawPrimitive ctx model vaoRange j (ps ! j) = Inr (css ! j))"
    by simp
qed

theorem drawPrimitive_draw_call_witness:
  "drawPrimitive ex_ctx (ex_model [] []) \<lparr>vao_begin = 0, vao_count = 2\<rparr> 0 ex_indexed
     = Inr [glBindVertexArray 7, glDrawElements 4 36 5123 1032]
   \<and> drawPrimitive ex_ctx (ex_model [] []) \<lparr>vao_begin = 0, vao_count = 2\<rparr> 1 ex_plain
     = Inr [glBindVertexArray 8, glDrawArrays 4 0 24]
   \<and> sint (ucast (36 :: 64 word) :: 32 word) = 36
   \<and> drawPrimitives ex_ctx (ex_model [] []) \<lparr>vao_begin = 0, vao_count = 2\<rparr> 0 [ex_indexed, ex_plain]
     = Inr [glBindVertexArray 7, glDrawElements 4 36 5123 1032,
            glBindVertexArray 8, glDrawArrays 4 0 24]"
proof -
  let ?r = "\<lparr>vao_begin = 0, vao_count = 2\<rparr>"
  let ?m = "ex_model [] []"
  let ?a1 = "\<lparr>acc_bufferView = 1, acc_byteOffset = 8, acc_componentType = 5123, acc_count = 36\<rparr>"
  let ?a2 = "\<lparr>acc_bufferView = 0, acc_byteOffset = 288, acc_componentType = 5126, acc_count = 24\<rparr>"
  let ?b1 = "\<lparr>bv_byteOffset = 1024\<rparr>"
  have i: "0 \<le> indices ex_indexed
      \<and> at_index (vertexArrayObjects ex_ctx) (vao_begin ?r + int 0) = Inr 7
      \<and> at_index (accessors ?m) (indices ex_indexed) = Inr ?a1
      \<and> at_index (bufferViews ?m) (acc_bufferView ?a1) = Inr ?b1"
    by (simp add: at_index_def ex_indexed_def ex_ctx_def ex_model_def)
  have n: "indices ex_plain < 0
      \<and> at_index (vertexArrayObjects ex_ctx) (vao_begin ?r + int 1) = Inr 8
      \<and> attributes ex_plain = (''NORMAL'', 2) # [(''POSITION'', 0)]
      \<and> at_index (accessors ?m) 2 = Inr ?a2"
    by (simp add: at_index_def ex_plain_def ex_ctx_def ex_model_def)
  have s: "unat (acc_count ?a1) < 2 ^ 31" by simp
  from drawPrimitive_draw_call
    [where p = ex_indexed and ctx = ex_ctx and vaoRange = ?r and pIdx = 0 and vao = 7
       and model = ?m and a = ?a1 and b = ?b1] i s
  have d1: "drawPrimitive ex_ctx ?m ?r 0 ex_indexed
              = Inr [glBindVertexArray 7, glDrawElements 4 36 5123 1032]"
    and c: "sint (ucast (36 :: 64 word) :: 32 word) = 36"
    by (simp_all add: ex_indexed_def)
  from drawPrimitive_draw_call
    [where p = ex_plain and ctx = ex_ctx and vaoRange = ?r and pIdx = 1 and vao = 8
       and model = ?m and a = ?a2 and name = "''NORMAL''" and accessorIdx = 2
       and rest = "[(''POSITION'', 0)]"] n
  have d2: "drawPrimitive ex_ctx ?m ?r 1 ex_plain = Inr [glBindVertexArray 8, glDrawArrays 4 0 24]"
    by (simp add: ex_plain_def)
  from d1 d2 have "drawPrimitives ex_ctx ?m ?r 0 [ex_indexed, ex_plain]
     = Inr [glBindVertexArray 7, glDrawElements 4 36 5123 1032,
            glBindVertexArray 8, glDrawArrays 4 0 24]"
    by simp
  with d1 d2 c show ?thesis by blast
qed

text \<open>
  C9. When the shader has a light-direction uniform (location \<open>>= 0\<close>), a frame writes it
  once, before the traversal: with the light not attached to the camera the value is
  \<open>normalize((viewMatrix * vec4(lightDirection, 0)).xyz)\<close>; with the light attached it
  is \<open>(0, 0, 1)\<close>, whatever the view matrix and the world light direction are. Without
  such a uniform (location \<open>< 0\<close>) nothing is written for the light direction. The
  normalisation is that of the library: where the transformed direction is the zero
  vector, the three components written are NaN.
\<close>

theorem light_direction_uniform:
  "(0 \<le> lightDirectionLocation ctx \<and> \<not> lightFromCamera ctx \<longrightarrow>
      lightDirectionCalls ctx viewMatrix =
        (case glm_normalize Finite
                (vec3_of (vec4_xyz (mat4_mul_vec4 viewMatrix (mk_vec4 (lightDirection ctx) 0)))) of
           (x, y, z) \<Rightarrow> [glUniform3f (lightDirectionLocation ctx) x y z]))
   \<and> (0 \<le> lightDirectionLocation ctx \<and> lightFromCamera ctx \<longrightarrow>
      lightDirectionCalls ctx viewMatrix
        = [glUniform3f (lightDirectionLocation ctx) (Finite 0) (Finite 0) (Finite 1)]
      \<and> lightDirectionCalls (ctx\<lparr>lightDirection := otherDirection\<rparr>) otherViewMatrix
          = [glUniform3f (lightDirectionLocation ctx) (Finite 0) (Finite 0) (Finite 1)])
   \<and> (lightDirectionLocation ctx < 0 \<longrightarrow> lightDirectionCalls ctx viewMatrix = [])
   \<and> (0 \<le> lightDirectionLocation ctx \<and> \<not> lightFromCamera ctx
        \<and> vec4_xyz (mat4_mul_vec4 viewMatrix (mk_vec4 (lightDirection ctx) 0)) = (0, 0, 0) \<longrightarrow>
      lightDirectionCalls ctx viewMatrix = [glUniform3f (lightDirectionLocation ctx) NaN NaN NaN])
   \<and> (drawScene depth ctx model viewMatrix = Inr frame \<longrightarrow>
      prologue frame =
        [glViewport 0 0 (m_nWindowWidth ctx) (m_nWindowHeight ctx), glClear]
          @ lightDirectionCalls ctx viewMatrix @ lightIntensityCalls ctx
      \<and> gl_trace frame = prologue frame @ concat (map calls (visits frame)) @ [glBindVertexArray 0])"
proof (intro conjI impI)
  assume "0 \<le> lightDirectionLocation ctx \<and> \<not> lightFromCamera ctx"
  then show "lightDirectionCalls ctx viewMatrix =
        (case glm_normalize Finite
                (vec3_of (vec4_xyz (mat4_mul_vec4 viewMatrix (mk_vec4 (lightDirection ctx) 0)))) of
           (x, y, z) \<Rightarrow> [glUniform3f (lightDirectionLocation ctx) x y z])"
    by (simp add: lightDirectionCalls_def Let_def split_beta)
next
  assume a: "0 \<le> lightDirectionLocation ctx \<and> lightFromCamera ctx"
  then show "lightDirectionCalls ctx viewMatrix
        = [glUniform3f (lightDirectionLocation ctx) (Finite 0) (Finite 0) (Finite 1)]"
    by (simp add: lightDirectionCalls_def)
  from a show "lightDirectionCalls (ctx\<lparr>lightDirection := otherDirection\<rparr>) otherViewMatrix
          = [glUniform3f (lightDirectionLocation ctx) (Finite 0) (Finite 0) (Finite 1)]"
    by (simp add: lightDirectionCalls_def)
next
  assume "lightDirectionLocation ctx < 0"
  then show "lightDirectionCalls ctx viewMatrix = []"
    by (simp add: lightDirectionCalls_def)
next
  assume "0 \<le> lightDirectionLocation ctx \<and> \<not> lightFromCamera ctx
        \<and> vec4_xyz (mat4_mul_vec4 viewMatrix (mk_vec4 (lightDirection ctx) 0)) = (0, 0, 0)"
  then show "lightDirectionCalls ctx viewMatrix
               = [glUniform3f (lightDirectionLocation ctx) NaN NaN NaN]"
    by (simp add: lightDirectionCalls_def glm_normalize_zero)
next
  assume d: "drawScene depth ctx model viewMatrix = Inr frame"
  then show p: "prologue frame =
        [glViewport 0 0 (m_nWindowWidth ctx) (m_nWindowHeight ctx), glClear]
          @ lightDirectionCalls ctx viewMatrix @ lightIntensityCalls ctx"
    by (auto simp: drawScene_def Let_def split: if_splits sum.splits)
  from d have "epilogue frame = [glBindVertexArray 0]"
    by (auto simp: drawScene_def Let_def split: if_splits sum.splits)
  then show "gl_trace frame = prologue frame @ concat (map calls (visits frame)) @ [glBindVertexArray 0]"
    by (simp add: gl_trace_def)
qed

theorem light_direction_uniform_witness:
  "0 \<le> lightDirectionLocation ex_ctx \<and> \<not> lightFromCamera ex_ctx
   \<and> lightDirectionCalls ex_ctx mat4_identity = [glUniform3f 3 (Finite 0) (Finite (3 / 5)) (Finite (4 / 5))]
   \<and> lightFromCamera (ex_ctx\<lparr>lightFromCamera := True\<rparr>)
   \<and> lightDirectionCalls (ex_ctx\<lparr>lightFromCamera := True\<rparr>) mat4_identity = [glUniform3f 3 (Finite 0) (Finite 0) (Finite 1)]
   \<and> lightDirectionCalls (ex_ctx\<lparr>lightFromCamera := True, lightDirection := (1, 0, 0)\<rparr>)
        (translation_matrix (1, 2, 3)) = [glUniform3f 3 (Finite 0) (Finite 0) (Finite 1)]
   \<and> lightDirectionLocation (ex_ctx\<lparr>lightDirectionLocation := - 1\<rparr>) < 0
   \<and> lightDirectionCalls (ex_ctx\<lparr>lightDirectionLocation := - 1\<rparr>) mat4_identity = []
   \<and> vec4_xyz (mat4_mul_vec4 mat4_identity
         (mk_vec4 (lightDirection (ex_ctx\<lparr>lightDirection := (0, 0, 0)\<rparr>)) 0)) = (0, 0, 0)
   \<and> lightDirectionCalls (ex_ctx\<lparr>lightDirection := (0, 0, 0)\<rparr>) mat4_identity
       = [glUniform3f 3 NaN NaN NaN]
   \<and> drawScene 0 ex_ctx (ex_model [] []) mat4_identity
       = Inr \<lparr>prologue = [glViewport 0 0 1280 720, glClear, glUniform3f 3 (Finite 0) (Finite (3 / 5)) (Finite (4 / 5)),
                           glUniform3f 4 (Finite 1) (Finite 1) (Finite 1)],
              visits = [], epilogue = [glBindVertexArray 0]\<rparr>"
proof -
  let ?on = "ex_ctx\<lparr>lightFromCamera := True\<rparr>"
  let ?off = "ex_ctx\<lparr>lightDirectionLocation := - 1\<rparr>"
  have h1: "0 \<le> lightDirectionLocation ex_ctx \<and> \<not> lightFromCamera ex_ctx"
    by (simp add: ex_ctx_def)
  have h2: "0 \<le> lightDirectionLocation ?on \<and> lightFromCamera ?on"
    by (simp add: ex_ctx_def)
  have h3: "lightDirectionLocation ?off < 0" by (simp add: ex_ctx_def)
  have n: "glm_normalize Finite
             (vec3_of (vec4_xyz (mat4_mul_vec4 mat4_identity (mk_vec4 (lightDirection ex_ctx) 0))))
           = (Finite 0, Finite (3 / 5), Finite (4 / 5))"
    by (simp add: ex_ctx_def mat4_identity_def glm_normalize_def sqrt_25)
  note t1 = light_direction_uniform [of ex_ctx mat4_identity]
  from t1 h1 have c1: "lightDirectionCalls ex_ctx mat4_identity = [glUniform3f 3 (Finite 0) (Finite (3 / 5)) (Finite (4 / 5))]"
    by (simp add: n) (simp add: ex_ctx_def)
  from light_direction_uniform [of ?on mat4_identity "(1, 0, 0)" "translation_matrix (1, 2, 3)"] h2
  have c2: "lightDirectionCalls ?on mat4_identity = [glUniform3f 3 (Finite 0) (Finite 0) (Finite 1)]"
    and c3: "lightDirectionCalls (?on\<lparr>lightDirection := (1, 0, 0)\<rparr>) (translation_matrix (1, 2, 3))
              = [glUniform3f 3 (Finite 0) (Finite 0) (Finite 1)]"
    by (simp_all add: ex_ctx_def)
  from light_direction_uniform [of ?off mat4_identity] h3
  have c4: "lightDirectionCalls ?off mat4_identity = []" by blast
  have d: "drawScene 0 ex_ctx (ex_model [] []) mat4_identity
       = Inr \<lparr>prologue = [glViewport 0 0 1280 720, glClear] @ lightDirectionCalls ex_ctx mat4_identity
                           @ lightIntensityCalls ex_ctx,
              visits = [], epilogue = [glBindVertexArray 0]\<rparr>"
    by (simp add: drawScene_def ex_model_def at_index_def ex_ctx_def)
  have li: "lightIntensityCalls ex_ctx = [glUniform3f 4 (Finite 1) (Finite 1) (Finite 1)]"
    by (simp add: lightIntensityCalls_def ex_ctx_def)
  let ?dark = "ex_ctx\<lparr>lightDirection := (0, 0, 0)\<rparr>"
  have h5: "0 \<le> lightDirectionLocation ?dark \<and> \<not> lightFromCamera ?dark
        \<and> vec4_xyz (mat4_mul_vec4 mat4_identity (mk_vec4 (lightDirection ?dark) 0)) = (0, 0, 0)"
    by (simp add: ex_ctx_def mat4_identity_def)
  from light_direction_uniform [of ?dark mat4_identity] h5
  have "lightDirectionCalls ?dark mat4_identity
          = [glUniform3f (lightDirectionLocation ?dark) NaN NaN NaN]"
    by blast
  then have c5: "lightDirectionCalls ?dark mat4_identity = [glUniform3f 3 NaN NaN NaN]"
    by (simp add: ex_ctx_def)
  from h1 c1 h2 c2 c3 h3 c4 d li h5 c5 show ?thesis by simp
qed

section \<open>The traversal of the scene graph\<close>

subsection \<open>The traversal follows the unfolding\<close>

lemma fold_max_ge_init: "(a::nat) \<le> fold max xs a"
proof (induction xs arbitrary: a)
  case Nil
  then show ?case by simp
next
  case (Cons x xs)
  have "a \<le> max x a" by simp
  also have "\<dots> \<le> fold max xs (max x a)" by (rule Cons.IH)
  finally show ?case by simp
qed

lemma fold_max_ge_elem: "x \<in> set xs \<Longrightarrow> (x::nat) \<le> fold max xs a"
proof (induction xs arbitrary: a)
  case Nil
  then show ?case by simp
next
  case (Cons y ys)
  show ?case
  proof (cases "x = y")
    case True
    have "x \<le> max y a" using True by simp
    also have "\<dots> \<le> fold max ys (max y a)" by (rule fold_max_ge_init)
    finally show ?thesis by simp
  next
    case False
    with Cons.prems have "x \<in> set ys" by simp
    from Cons.IH [OF this] show ?thesis by simp
  qed
qed

lemma subtree_height:
  assumes "t \<in> set ts" and "tree_height (Tree i ts) \<le> Suc d"
  shows "tree_height t \<le> d"
proof -
  have "tree_height t \<le> fold max (map tree_height ts) 0"
    using assms(1) by (intro fold_max_ge_elem) simp
  with assms(2) show ?thesis by simp
qed

lemma drawChildren_list_all2:
  assumes "list_all2 (\<lambda>c t. \<exists>vs. drawNode d ctx model view c M = Inr vs
                              \<and> map visit_key vs = preorder model M t) cs ts"
  shows "\<exists>ws. drawChildren d ctx model view cs M = Inr ws
           \<and> map visit_key ws = concat (map (preorder model M) ts)"
  using assms
proof (induction cs ts rule: list_all2_induct)
  case Nil
  then show ?case by simp
next
  case (Cons c cs t ts)
  from Cons.hyps(1) obtain vs where
    v: "drawNode d ctx model view c M = Inr vs" "map visit_key vs = preorder model M t" by blast
  from Cons.IH obtain ws where
    w: "drawChildren d ctx model view cs M = Inr ws"
       "map visit_key ws = concat (map (preorder model M) ts)" by blast
  from v w show ?case by simp
qed

lemma drawNode_follows_unfolding:
  assumes "meshes_drawable ctx model"
  shows "unfolds_to model i t \<Longrightarrow> tree_height t \<le> d \<Longrightarrow>
         \<exists>vs. drawNode d ctx model view i P = Inr vs \<and> map visit_key vs = preorder model P t"
proof (induction t arbitrary: i d P)
  case (Tree j ts)
  from Tree.prems(1) have j: "j = i" and lo: "0 \<le> i" and hi: "i < int (length (nodes model))"
    and sub: "list_all2 (unfolds_to model) (children (nodes model ! nat i)) ts"
    by (auto elim: unfolds_to.cases)
  let ?node = "nodes model ! nat i"
  let ?M = "getLocalToWorldMatrix ?node P"
  from Tree.prems(2) obtain d' where d: "d = Suc d'" by (cases d) auto
  have idx: "at_index (nodes model) i = Inr ?node" using lo hi by (simp add: at_index_def)
  have "?node \<in> set (nodes model)" using lo hi by (simp add: nat_less_iff)
  with assms obtain own where own: "drawMesh ctx model view ?node ?M = Inr own"
    unfolding meshes_drawable_def by blast
  have "list_all2 (\<lambda>c t. \<exists>vs. drawNode d' ctx model view c ?M = Inr vs
                              \<and> map visit_key vs = preorder model ?M t)
          (children ?node) ts"
  proof (rule list.rel_mono_strong [OF sub])
    fix c t assume "t \<in> set ts" and u: "unfolds_to model c t"
    then have "tree_height t \<le> d'" using Tree.prems(2) d subtree_height by blast
    from Tree.IH [OF \<open>t \<in> set ts\<close> u this]
    show "\<exists>vs. drawNode d' ctx model view c ?M = Inr vs \<and> map visit_key vs = preorder model ?M t" .
  qed
  from drawChildren_list_all2 [OF this] obtain ws where
    ws: "drawChildren d' ctx model view (children ?node) ?M = Inr ws"
        "map visit_key ws = concat (map (preorder model ?M) ts)" by blast
  have key: "visit_key \<lparr>visited = i, modelMatrix = ?M, calls = own\<rparr>
               = (i, mat4_mul P (localTransform ?node))"
    by (simp add: visit_key_def getLocalToWorldMatrix_def)
  have M: "?M = mat4_mul P (localTransform ?node)" by (simp add: getLocalToWorldMatrix_def)
  from idx own ws show ?case
    unfolding d j by (simp add: key) (simp add: M)
qed

lemma preorder_nodes: "map fst (preorder model P t) = tree_nodes t"
proof (induction t arbitrary: P)
  case (Tree i ts)
  have "map (map fst \<circ> preorder model M) ts = map tree_nodes ts" for M
    using Tree.IH by (intro map_cong) simp_all
  then have "concat (map (map fst \<circ> preorder model M) ts) = concat (map tree_nodes ts)" for M
    by (rule arg_cong)
  then show ?case by (simp add: map_concat)
qed

lemma finite_child_edge: "finite (child_edge model)"
proof -
  have "child_edge model \<subseteq>
        (int ` {..<length (nodes model)}) \<times> (\<Union>node \<in> set (nodes model). set (children node))"
  proof
    fix e assume "e \<in> child_edge model"
    then obtain i c where e: "e = (i, c)" and lo: "0 \<le> i" and hi: "i < int (length (nodes model))"
      and c: "c \<in> set (children (nodes model ! nat i))"
      by (auto simp: child_edge_def)
    have "i = int (nat i)" using lo by simp
    moreover have "nat i < length (nodes model)" using lo hi by (simp add: nat_less_iff)
    ultimately have "i \<in> int ` {..<length (nodes model)}" by blast
    moreover have "nodes model ! nat i \<in> set (nodes model)"
      using \<open>nat i < length (nodes model)\<close> by simp
    ultimately show "e \<in> (int ` {..<length (nodes model)}) \<times> (\<Union>node \<in> set (nodes model). set (children node))"
      using e c by blast
  qed
  then show ?thesis by (rule finite_subset) simp
qed

lemma list_all2_choice:
  assumes "\<forall>c \<in> set cs. \<exists>t. R c t"
  shows "\<exists>ts. list_all2 R cs ts"
  using assms
proof (induction cs)
  case Nil
  then show ?case by simp
next
  case (Cons c cs)
  then obtain t ts where "R c t" "list_all2 R cs ts" by auto
  then have "list_all2 R (c # cs) (t # ts)" by simp
  then show ?case by blast
qed

lemma unfolding_exists:
  assumes "acyclic (child_edge model)" and "children_in_range model"
  shows "0 \<le> i \<Longrightarrow> i < int (length (nodes model)) \<Longrightarrow> \<exists>t. unfolds_to model i t"
proof -
  have wf: "wf ((child_edge model)\<inverse>)"
    using finite_child_edge assms(1) by (rule finite_acyclic_wf_converse)
  show "0 \<le> i \<Longrightarrow> i < int (length (nodes model)) \<Longrightarrow> \<exists>t. unfolds_to model i t"
  proof (induction i rule: wf_induct_rule [OF wf])
    case (1 i)
    let ?cs = "children (nodes model ! nat i)"
    have node: "nodes model ! nat i \<in> set (nodes model)"
      using 1(2,3) by (simp add: nat_less_iff)
    have "\<forall>c \<in> set ?cs. \<exists>t. unfolds_to model c t"
    proof
      fix c assume c: "c \<in> set ?cs"
      then have "(i, c) \<in> child_edge model" using 1(2,3) by (simp add: child_edge_def)
      moreover have "0 \<le> c \<and> c < int (length (nodes model))"
        using assms(2) node c unfolding children_in_range_def by blast
      ultimately show "\<exists>t. unfolds_to model c t" using 1(1) by simp
    qed
    from list_all2_choice [OF this] obtain ts where "list_all2 (unfolds_to model) ?cs ts" ..
    with 1(2,3) have "unfolds_to model i (Tree i ts)" by (rule unfolds_to_node)
    then show ?case ..
  qed
qed

subsection \<open>The nodes of the unfolding\<close>

lemma child_edge_iff:
  "(i, c) \<in> child_edge model \<longleftrightarrow>
     0 \<le> i \<and> i < int (length (nodes model)) \<and> c \<in> set (children (nodes model ! nat i))"
  by (simp add: child_edge_def)

lemma reachable_unfold:
  assumes "0 \<le> i" and "i < int (length (nodes model))"
  shows "(child_edge model)\<^sup>* `` {i}
         = {i} \<union> (\<Union>c \<in> set (children (nodes model ! nat i)). (child_edge model)\<^sup>* `` {c})"
proof (intro equalityI subsetI)
  fix x assume "x \<in> (child_edge model)\<^sup>* `` {i}"
  then have "(i, x) \<in> (child_edge model)\<^sup>*" by simp
  then show "x \<in> {i} \<union> (\<Union>c \<in> set (children (nodes model ! nat i)). (child_edge model)\<^sup>* `` {c})"
  proof (cases rule: converse_rtranclE)
    case base
    then show ?thesis by simp
  next
    case (step c)
    then have "c \<in> set (children (nodes model ! nat i))" by (simp add: child_edge_iff)
    with step(2) show ?thesis by blast
  qed
next
  fix x assume "x \<in> {i} \<union> (\<Union>c \<in> set (children (nodes model ! nat i)). (child_edge model)\<^sup>* `` {c})"
  then consider "x = i" | c where "c \<in> set (children (nodes model ! nat i))" "(c, x) \<in> (child_edge model)\<^sup>*"
    by blast
  then show "x \<in> (child_edge model)\<^sup>* `` {i}"
  proof cases
    case 1
    then show ?thesis by simp
  next
    case 2
    from 2(1) assms have "(i, c) \<in> child_edge model" by (simp add: child_edge_iff)
    then have "(i, x) \<in> (child_edge model)\<^sup>*" using 2(2) by (rule converse_rtrancl_into_rtrancl)
    then show ?thesis by simp
  qed
qed

lemma list_all2_Union:
  assumes "list_all2 (\<lambda>c t. f t = g c) cs ts"
  shows "(\<Union>t \<in> set ts. f t) = (\<Union>c \<in> set cs. g c)"
  using assms by (induction cs ts rule: list_all2_induct) simp_all

lemma tree_nodes_reachable:
  "unfolds_to model i t \<Longrightarrow> set (tree_nodes t) = (child_edge model)\<^sup>* `` {i}"
proof (induction t arbitrary: i)
  case (Tree j ts)
  from Tree.prems have j: "j = i" and lo: "0 \<le> i" and hi: "i < int (length (nodes model))"
    and sub: "list_all2 (unfolds_to model) (children (nodes model ! nat i)) ts"
    by (auto elim: unfolds_to.cases)
  have "list_all2 (\<lambda>c t. set (tree_nodes t) = (child_edge model)\<^sup>* `` {c})
          (children (nodes model ! nat i)) ts"
    by (rule list.rel_mono_strong [OF sub]) (rule Tree.IH)
  from list_all2_Union [OF this]
  have "(\<Union>t \<in> set ts. set (tree_nodes t))
        = (\<Union>c \<in> set (children (nodes model ! nat i)). (child_edge model)\<^sup>* `` {c})" .
  then show ?case
    by (simp add: j reachable_unfold [OF lo hi])
qed

lemma common_descendant:
  assumes up: "\<And>a b c. (a, c) \<in> E \<Longrightarrow> (b, c) \<in> E \<Longrightarrow> a = b"
  shows "(a, x) \<in> E\<^sup>* \<Longrightarrow> (b, x) \<in> E\<^sup>* \<Longrightarrow> (a, b) \<in> E\<^sup>* \<or> (b, a) \<in> E\<^sup>*"
proof (induction rule: rtrancl_induct)
  case base
  then show ?case by simp
next
  case (step y z)
  from step.prems show ?case
  proof (cases rule: rtranclE)
    case base
    with step.hyps have "(a, b) \<in> E\<^sup>*" by auto
    then show ?thesis ..
  next
    case (step y')
    from up [OF step(2) \<open>(y, z) \<in> E\<close>] have "y' = y" .
    with step(1) have "(b, y) \<in> E\<^sup>*" by simp
    then show ?thesis by (rule step.IH)
  qed
qed

lemma concat_distinct_index:
  "distinct (concat xss) \<Longrightarrow> a < length xss \<Longrightarrow> b < length xss \<Longrightarrow>
   x \<in> set (xss ! a) \<Longrightarrow> x \<in> set (xss ! b) \<Longrightarrow> a = b"
proof (induction xss arbitrary: a b)
  case Nil
  then show ?case by simp
next
  case (Cons xs xss)
  show ?case
  proof (cases a)
    case 0
    show ?thesis
    proof (cases b)
      case 0
      with \<open>a = 0\<close> show ?thesis by simp
    next
      case (Suc b')
      with Cons.prems have "x \<in> set (concat xss)" by auto
      moreover from 0 Cons.prems have "x \<in> set xs" by simp
      ultimately show ?thesis using Cons.prems(1) by auto
    qed
  next
    case (Suc a')
    show ?thesis
    proof (cases b)
      case 0
      from Suc Cons.prems have "x \<in> set (concat xss)" by auto
      moreover from 0 Cons.prems have "x \<in> set xs" by simp
      ultimately show ?thesis using Cons.prems(1) by auto
    next
      case (Suc b')
      from Cons.prems \<open>a = Suc a'\<close> Suc have "a' = b'"
        by (intro Cons.IH) simp_all
      with \<open>a = Suc a'\<close> Suc show ?thesis by simp
    qed
  qed
qed

lemma unique_parent:
  assumes "listed_once model roots"
    and "(a, c) \<in> child_edge model" and "(b, c) \<in> child_edge model"
  shows "a = b"
proof -
  let ?xss = "map children (nodes model)"
  from assms(1) have d: "distinct (concat ?xss)" by (simp add: listed_once_def)
  from assms(2,3) have a: "0 \<le> a" "nat a < length ?xss" "c \<in> set (?xss ! nat a)"
    and b: "0 \<le> b" "nat b < length ?xss" "c \<in> set (?xss ! nat b)"
    by (simp_all add: child_edge_iff nat_less_iff)
  from concat_distinct_index [OF d a(2) b(2) a(3) b(3)] have "nat a = nat b" .
  with a(1) b(1) show ?thesis by simp
qed

lemma root_no_parent:
  assumes "listed_once model roots" and "r \<in> set roots"
  shows "(a, r) \<notin> child_edge model"
proof
  assume "(a, r) \<in> child_edge model"
  then have "0 \<le> a" "nat a < length (nodes model)" "r \<in> set (children (nodes model ! nat a))"
    by (simp_all add: child_edge_iff nat_less_iff)
  then have "r \<in> set (concat (map children (nodes model)))" by auto
  with assms show False by (auto simp: listed_once_def)
qed

lemma children_distinct:
  assumes "listed_once model roots" and "0 \<le> i" and "i < int (length (nodes model))"
  shows "distinct (children (nodes model ! nat i))"
proof -
  from assms(1) have "distinct (concat (map children (nodes model)))" by (simp add: listed_once_def)
  moreover have "children (nodes model ! nat i) \<in> set (map children (nodes model))"
    using assms(2,3) by (simp add: nat_less_iff)
  ultimately show ?thesis by (simp add: distinct_concat_iff)
qed

lemma siblings_disjoint:
  assumes ac: "acyclic (child_edge model)" and lo: "listed_once model roots"
    and c: "(i, c) \<in> child_edge model" and c': "(i, c') \<in> child_edge model" and ne: "c \<noteq> c'"
  shows "(child_edge model)\<^sup>* `` {c} \<inter> (child_edge model)\<^sup>* `` {c'} = {}"
proof (rule ccontr)
  let ?E = "child_edge model"
  assume "?E\<^sup>* `` {c} \<inter> ?E\<^sup>* `` {c'} \<noteq> {}"
  then obtain x where "(c, x) \<in> ?E\<^sup>*" "(c', x) \<in> ?E\<^sup>*" by blast
  from common_descendant [OF unique_parent [OF lo] this]
  have "(c, c') \<in> ?E\<^sup>* \<or> (c', c) \<in> ?E\<^sup>*" .
  moreover have False if r: "(p, q) \<in> ?E\<^sup>*" and pq: "p \<noteq> q" and p: "(i, p) \<in> ?E" and q: "(i, q) \<in> ?E" for p q
  proof -
    from r pq obtain y where y: "(p, y) \<in> ?E\<^sup>*" "(y, q) \<in> ?E" by (auto elim: rtranclE)
    from unique_parent [OF lo y(2) q] have "y = i" .
    with y(1) have "(p, i) \<in> ?E\<^sup>*" by simp
    with p have "(i, i) \<in> ?E\<^sup>+" by (rule rtrancl_into_trancl2)
    with ac show False by (simp add: acyclic_def)
  qed
  ultimately show False using c c' ne by metis
qed

lemma roots_disjoint:
  assumes lo: "listed_once model roots" and r: "r \<in> set roots" and r': "r' \<in> set roots" and ne: "r \<noteq> r'"
  shows "(child_edge model)\<^sup>* `` {r} \<inter> (child_edge model)\<^sup>* `` {r'} = {}"
proof (rule ccontr)
  let ?E = "child_edge model"
  assume "?E\<^sup>* `` {r} \<inter> ?E\<^sup>* `` {r'} \<noteq> {}"
  then obtain x where "(r, x) \<in> ?E\<^sup>*" "(r', x) \<in> ?E\<^sup>*" by blast
  from common_descendant [OF unique_parent [OF lo] this]
  have "(r, r') \<in> ?E\<^sup>* \<or> (r', r) \<in> ?E\<^sup>*" .
  moreover have False if "(p, q) \<in> ?E\<^sup>*" and "p \<noteq> q" and "q \<in> set roots" for p q
  proof -
    from that(1,2) obtain y where "(y, q) \<in> ?E" by (auto elim: rtranclE)
    with root_no_parent [OF lo that(3)] show False by blast
  qed
  ultimately show False using r r' ne by metis
qed

lemma distinct_concat_disjoint:
  assumes "list_all2 (\<lambda>c t. set (f t) = R c \<and> distinct (f t)) cs ts"
    and "distinct cs" and "\<forall>a \<in> set cs. \<forall>b \<in> set cs. a \<noteq> b \<longrightarrow> R a \<inter> R b = {}"
  shows "distinct (concat (map f ts)) \<and> set (concat (map f ts)) = (\<Union>c \<in> set cs. R c)"
  using assms
proof (induction cs ts rule: list_all2_induct)
  case Nil
  then show ?case by simp
next
  case (Cons c cs t ts)
  from Cons.prems have ih: "distinct (concat (map f ts))"
      "set (concat (map f ts)) = (\<Union>c \<in> set cs. R c)"
    using Cons.IH by auto
  from Cons.prems have "\<forall>b \<in> set cs. R c \<inter> R b = {}" by auto
  then have "R c \<inter> (\<Union>b \<in> set cs. R b) = {}" by blast
  with Cons.hyps(1) ih have "set (f t) \<inter> set (concat (map f ts)) = {}" by simp
  with Cons.hyps(1) ih show ?case by auto
qed

lemma distinct_tree_nodes:
  assumes ac: "acyclic (child_edge model)" and lo: "listed_once model roots"
  shows "unfolds_to model i t \<Longrightarrow> distinct (tree_nodes t)"
proof (induction t arbitrary: i)
  case (Tree j ts)
  let ?E = "child_edge model"
  let ?cs = "children (nodes model ! nat i)"
  from Tree.prems have j: "j = i" and l: "0 \<le> i" and h: "i < int (length (nodes model))"
    and sub: "list_all2 (unfolds_to model) ?cs ts"
    by (auto elim: unfolds_to.cases)
  have each: "list_all2 (\<lambda>c t. set (tree_nodes t) = ?E\<^sup>* `` {c} \<and> distinct (tree_nodes t)) ?cs ts"
  proof (rule list.rel_mono_strong [OF sub])
    fix c t assume "t \<in> set ts" "unfolds_to model c t"
    then show "set (tree_nodes t) = ?E\<^sup>* `` {c} \<and> distinct (tree_nodes t)"
      using Tree.IH tree_nodes_reachable by blast
  qed
  have edge: "(i, c) \<in> ?E" if "c \<in> set ?cs" for c
    using that l h by (simp add: child_edge_iff)
  have dis: "\<forall>a \<in> set ?cs. \<forall>b \<in> set ?cs. a \<noteq> b \<longrightarrow> ?E\<^sup>* `` {a} \<inter> ?E\<^sup>* `` {b} = {}"
    using siblings_disjoint [OF ac lo] edge by blast
  from distinct_concat_disjoint [OF each children_distinct [OF lo l h] dis]
  have d: "distinct (concat (map tree_nodes ts))"
    and s: "set (concat (map tree_nodes ts)) = (\<Union>c \<in> set ?cs. ?E\<^sup>* `` {c})"
    by simp_all
  have "i \<notin> (\<Union>c \<in> set ?cs. ?E\<^sup>* `` {c})"
  proof
    assume "i \<in> (\<Union>c \<in> set ?cs. ?E\<^sup>* `` {c})"
    then obtain c where c: "c \<in> set ?cs" "(c, i) \<in> ?E\<^sup>*" by blast
    from edge [OF c(1)] c(2) have "(i, i) \<in> ?E\<^sup>+" by (rule rtrancl_into_trancl2)
    with ac show False by (simp add: acyclic_def)
  qed
  with d s show ?case by (simp add: j)
qed

subsection \<open>The recursion budget and the roots\<close>

lemma drawChildren_deeper:
  assumes "\<And>i vs. drawNode d ctx model view i P = Inr vs \<Longrightarrow> drawNode (Suc d) ctx model view i P = Inr vs"
  shows "drawChildren d ctx model view cs P = Inr ws \<Longrightarrow> drawChildren (Suc d) ctx model view cs P = Inr ws"
proof (induction cs arbitrary: ws)
  case Nil
  then show ?case by simp
next
  case (Cons c cs)
  from Cons.prems obtain v1 v2 where
    a: "drawNode d ctx model view c P = Inr v1"
    and b: "drawChildren d ctx model view cs P = Inr v2"
    and w: "ws = v1 @ v2"
    by (auto split: sum.splits)
  from assms [OF a] Cons.IH [OF b] w show ?case by simp
qed

lemma drawNode_deeper:
  "drawNode d ctx model view i P = Inr vs \<Longrightarrow> drawNode (Suc d) ctx model view i P = Inr vs"
proof (induction d arbitrary: i P vs)
  case 0
  then show ?case by simp
next
  case (Suc d)
  from Suc.prems obtain node own below where
    n: "at_index (nodes model) i = Inr node"
    and m: "drawMesh ctx model view node (getLocalToWorldMatrix node P) = Inr own"
    and c: "drawChildren d ctx model view (children node) (getLocalToWorldMatrix node P) = Inr below"
    and v: "vs = \<lparr>visited = i, modelMatrix = getLocalToWorldMatrix node P, calls = own\<rparr> # below"
    by (auto split: sum.splits)
  have "drawChildren (Suc d) ctx model view (children node) (getLocalToWorldMatrix node P) = Inr below"
    using c by (rule drawChildren_deeper [rotated]) (rule Suc.IH)
  with n m v show ?case by (simp del: drawNode.simps(2) add: drawNode.simps(2) [of "Suc d"])
qed

lemma drawChildren_budget:
  assumes "drawChildren d ctx model view cs P = Inr ws" and "d \<le> d'"
  shows "drawChildren d' ctx model view cs P = Inr ws"
  using assms(2,1)
proof (induction rule: dec_induct)
  case base
  then show ?case .
next
  case (step n)
  from step have "drawChildren n ctx model view cs P = Inr ws" by simp
  then show ?case by (rule drawChildren_deeper [rotated]) (rule drawNode_deeper)
qed

lemma drawScene_budget:
  assumes "drawScene d ctx model view = Inr frame" and "d \<le> d'"
  shows "drawScene d' ctx model view = Inr frame"
proof (cases "0 \<le> defaultScene model")
  case False
  with assms(1) show ?thesis by (simp add: drawScene_def)
next
  case True
  with assms(1) obtain scene vs where
    s: "at_index (scenes model) (defaultScene model) = Inr scene"
    and v: "drawChildren d ctx model view (scene_nodes scene) mat4_identity = Inr vs"
    by (auto simp: drawScene_def split: sum.splits)
  from drawChildren_budget [OF v assms(2)] assms(1) s v True show ?thesis
    by (simp add: drawScene_def)
qed

lemma visited_visit_key: "map visited vs = map fst (map visit_key vs)"
  by (simp add: visit_key_def comp_def)

lemma roots_traversal:
  assumes md: "meshes_drawable ctx model"
    and ts: "list_all2 (unfolds_to model) roots ts"
    and d: "fold max (map tree_height ts) 0 \<le> d"
  shows "\<exists>vs. drawChildren d ctx model view roots P = Inr vs
           \<and> map visit_key vs = concat (map (preorder model P) ts)"
proof (rule drawChildren_list_all2, rule list.rel_mono_strong [OF ts])
  fix r t assume t: "t \<in> set ts" and u: "unfolds_to model r t"
  have "tree_height t \<le> fold max (map tree_height ts) 0"
    using t by (intro fold_max_ge_elem) simp
  with d have "tree_height t \<le> d" by simp
  from drawNode_follows_unfolding [OF md u this]
  show "\<exists>vs. drawNode d ctx model view r P = Inr vs \<and> map visit_key vs = preorder model P t" .
qed

lemma forest_nodes:
  assumes ts: "list_all2 (unfolds_to model) roots ts"
  shows "set (concat (map tree_nodes ts)) = (child_edge model)\<^sup>* `` set roots"
proof -
  have "list_all2 (\<lambda>r t. set (tree_nodes t) = (child_edge model)\<^sup>* `` {r}) roots ts"
    by (rule list.rel_mono_strong [OF ts]) (rule tree_nodes_reachable)
  from list_all2_Union [OF this] show ?thesis by auto
qed

lemma forest_distinct:
  assumes ac: "acyclic (child_edge model)" and lo: "listed_once model roots"
    and ts: "list_all2 (unfolds_to model) roots ts"
  shows "distinct (concat (map tree_nodes ts))"
proof -
  let ?E = "child_edge model"
  have each: "list_all2 (\<lambda>r t. set (tree_nodes t) = ?E\<^sup>* `` {r} \<and> distinct (tree_nodes t)) roots ts"
  proof (rule list.rel_mono_strong [OF ts])
    fix r t assume "unfolds_to model r t"
    then show "set (tree_nodes t) = ?E\<^sup>* `` {r} \<and> distinct (tree_nodes t)"
      using tree_nodes_reachable distinct_tree_nodes [OF ac lo] by blast
  qed
  have dr: "distinct roots" using lo by (simp add: listed_once_def)
  have dis: "\<forall>a \<in> set roots. \<forall>b \<in> set roots. a \<noteq> b \<longrightarrow> ?E\<^sup>* `` {a} \<inter> ?E\<^sup>* `` {b} = {}"
    using roots_disjoint [OF lo] by blast
  from distinct_concat_disjoint [OF each dr dis] show ?thesis by simp
qed

lemma concat_preorder_nodes:
  "map fst (concat (map (preorder model P) ts)) = concat (map tree_nodes ts)"
  by (simp add: map_concat comp_def preorder_nodes)

subsection \<open>Two concrete scene graphs\<close>

lemma acyclic_children_after:
  assumes "\<forall>(i, c) \<in> child_edge model. i < c"
  shows "acyclic (child_edge model)"
proof -
  have "child_edge model \<subseteq> int_ge_less_than 0"
    using assms by (auto simp: int_ge_less_than_def child_edge_def)
  then have "wf (child_edge model)" by (rule wf_subset [OF wf_int_ge_less_than])
  then show ?thesis by (rule wf_acyclic)
qed

lemma index_cases_3:
  assumes "0 \<le> (i::int)" and "i < 3"
  obtains "i = 0" | "i = 1" | "i = 2"
  using assms by linarith

lemma index_cases_4:
  assumes "0 \<le> (i::int)" and "i < 4"
  obtains "i = 0" | "i = 1" | "i = 2" | "i = 3"
  using assms by linarith

lemma ex_chain_nodes:
  "nodes ex_chain = [ex_node (1, 0, 0) [1], ex_node (0, 1, 0) [2], ex_node (0, 0, 1) []]"
  by (simp add: ex_chain_def ex_model_def)

lemma ex_diamond_nodes:
  "nodes ex_diamond = [ex_node (0, 0, 0) [1, 2], ex_node (1, 0, 0) [3], ex_node (0, 1, 0) [3],
                       ex_node (0, 0, 1) []]"
  by (simp add: ex_diamond_def ex_model_def)

lemma ex_chain_acyclic: "acyclic (child_edge ex_chain)"
proof (rule acyclic_children_after, clarify)
  fix i c assume "(i, c) \<in> child_edge ex_chain"
  then have r: "0 \<le> i" "i < 3" and c: "c \<in> set (children (nodes ex_chain ! nat i))"
    by (simp_all add: child_edge_iff ex_chain_nodes)
  from r show "i < c"
    by (cases rule: index_cases_3) (use c in \<open>simp_all add: ex_chain_nodes ex_node_def\<close>)
qed

lemma ex_diamond_acyclic: "acyclic (child_edge ex_diamond)"
proof (rule acyclic_children_after, clarify)
  fix i c assume "(i, c) \<in> child_edge ex_diamond"
  then have r: "0 \<le> i" "i < 4" and c: "c \<in> set (children (nodes ex_diamond ! nat i))"
    by (simp_all add: child_edge_iff ex_diamond_nodes)
  from r show "i < c"
    by (cases rule: index_cases_4) (use c in \<open>auto simp: ex_diamond_nodes ex_node_def\<close>)
qed

lemma drawMesh_no_mesh: "mesh node < 0 \<Longrightarrow> drawMesh ctx model view node M = Inr []"
  by (simp add: drawMesh_def)

lemma ex_node_simps [simp]:
  "mesh (ex_node t cs) = - 1" "children (ex_node t cs) = cs"
  "localTransform (ex_node t cs) = translation_matrix t"
  by (simp_all add: ex_node_def)

lemma ex_chain_drawable: "meshes_drawable ctx ex_chain"
  by (simp add: meshes_drawable_def ex_chain_nodes drawMesh_no_mesh)

lemma ex_chain_in_range: "children_in_range ex_chain"
  by (simp add: children_in_range_def ex_chain_nodes)

lemma ex_chain_listed_once: "listed_once ex_chain [0]"
  by (simp add: listed_once_def ex_chain_nodes)

lemma ex_chain_scene:
  "0 \<le> defaultScene ex_chain"
  "at_index (scenes ex_chain) (defaultScene ex_chain) = Inr \<lparr>scene_nodes = [0]\<rparr>"
  by (simp_all add: ex_chain_def ex_model_def at_index_def)

lemma ex_chain_children:
  "drawNode (Suc 0) ctx ex_chain view 2 P
     = Inr [\<lparr>visited = 2, modelMatrix = mat4_mul P (translation_matrix (0, 0, 1)), calls = []\<rparr>]"
  "drawNode (Suc (Suc 0)) ctx ex_chain view 1 P
     = Inr [\<lparr>visited = 1, modelMatrix = mat4_mul P (translation_matrix (0, 1, 0)), calls = []\<rparr>,
            \<lparr>visited = 2,
             modelMatrix = mat4_mul (mat4_mul P (translation_matrix (0, 1, 0))) (translation_matrix (0, 0, 1)),
             calls = []\<rparr>]"
  by (simp_all add: at_index_def ex_chain_nodes drawMesh_no_mesh getLocalToWorldMatrix_def)

lemma ex_chain_roots:
  "drawChildren 3 ctx ex_chain view [0] mat4_identity
     = Inr [\<lparr>visited = 0, modelMatrix = translation_matrix (1, 0, 0), calls = []\<rparr>,
            \<lparr>visited = 1, modelMatrix = translation_matrix (1, 1, 0), calls = []\<rparr>,
            \<lparr>visited = 2, modelMatrix = translation_matrix (1, 1, 1), calls = []\<rparr>]"
  by (simp add: eval_nat_numeral at_index_def ex_chain_nodes drawMesh_no_mesh
      getLocalToWorldMatrix_def mat4_identity_def)

lemma ex_chain_frame:
  "\<exists>frame. drawScene 3 ctx ex_chain mat4_identity = Inr frame
      \<and> map visit_key (visits frame) =
          [(0, translation_matrix (1, 0, 0)), (1, translation_matrix (1, 1, 0)),
           (2, translation_matrix (1, 1, 1))]"
  by (simp add: drawScene_def ex_chain_scene ex_chain_roots visit_key_def del: drawChildren.simps)

subsection \<open>The claim about the traversal\<close>

text \<open>
  C2, as stated (in every acyclic scene graph each reachable node is visited exactly
  once), fails on an acyclic graph in which a node has two parents: in the diamond, node 3
  is a child of node 1 and of node 2, and the traversal from the root 0 enters it twice.
\<close>

theorem shared_node_is_visited_twice:
  "acyclic (child_edge ex_diamond)
   \<and> map_sum id (\<lambda>frame. map visited (visits frame)) (drawScene 3 ex_ctx ex_diamond mat4_identity)
       = Inr [0, 1, 3, 2, 3]"
  by (simp add: ex_diamond_acyclic)
     (simp add: drawScene_def ex_diamond_def ex_model_def eval_nat_numeral at_index_def drawMesh_no_mesh)

text \<open>
  C2, amended. For every acyclic scene graph whose child and root indices are in range,
  a frame's traversal returns, for every recursion budget from some depth on the same
  frame. Its sequence of visits is the depth-first pre-order, children in listed order,
  of the unfolding of the graph from the roots of the active scene in their order, each
  root under the identity, each node with the world transform \<open>parentTransform *
  localTransform\<close> accumulated along its path. The nodes visited are exactly the nodes
  reachable from the roots; a node is visited once for every path that leads to it, and
  exactly once when no node is listed twice among the roots and the children.
\<close>

theorem traversal_is_preorder_of_unfolding:
  assumes "acyclic (child_edge model)" and "children_in_range model"
    and "meshes_drawable ctx model"
    and "0 \<le> defaultScene model"
    and "at_index (scenes model) (defaultScene model) = Inr scene"
    and "\<forall>r \<in> set (scene_nodes scene). 0 \<le> r \<and> r < int (length (nodes model))"
  shows "\<exists>ts depth0 frame.
           list_all2 (unfolds_to model) (scene_nodes scene) ts
           \<and> (\<forall>depth \<ge> depth0. drawScene depth ctx model viewMatrix = Inr frame)
           \<and> map visit_key (visits frame) = concat (map (preorder model mat4_identity) ts)
           \<and> set (map visited (visits frame)) = (child_edge model)\<^sup>* `` set (scene_nodes scene)
           \<and> (listed_once model (scene_nodes scene) \<longrightarrow> distinct (map visited (visits frame)))"
proof -
  let ?roots = "scene_nodes scene"
  have "\<forall>r \<in> set ?roots. \<exists>t. unfolds_to model r t"
    using unfolding_exists [OF assms(1,2)] assms(6) by blast
  from list_all2_choice [OF this] obtain ts where ts: "list_all2 (unfolds_to model) ?roots ts" ..
  let ?d0 = "fold max (map tree_height ts) 0"
  from roots_traversal [OF assms(3) ts order_refl, of viewMatrix mat4_identity] obtain vs where
    vs: "drawChildren ?d0 ctx model viewMatrix ?roots mat4_identity = Inr vs"
    and key: "map visit_key vs = concat (map (preorder model mat4_identity) ts)"
    by blast
  define frame where "frame =
     \<lparr>prologue = [glViewport 0 0 (m_nWindowWidth ctx) (m_nWindowHeight ctx), glClear]
                     @ lightDirectionCalls ctx viewMatrix @ lightIntensityCalls ctx,
      visits = vs, epilogue = [glBindVertexArray 0]\<rparr>"
  have d0: "drawScene ?d0 ctx model viewMatrix = Inr frame"
    using assms(4,5) vs by (simp add: drawScene_def frame_def)
  have all: "\<forall>depth \<ge> ?d0. drawScene depth ctx model viewMatrix = Inr frame"
    using drawScene_budget [OF d0] by blast
  have v: "visits frame = vs" by (simp add: frame_def)
  have nodes: "map visited vs = concat (map tree_nodes ts)"
    by (simp only: visited_visit_key key concat_preorder_nodes)
  have s: "set (map visited (visits frame)) = (child_edge model)\<^sup>* `` set ?roots"
    by (simp only: v nodes forest_nodes [OF ts])
  have dist: "listed_once model ?roots \<longrightarrow> distinct (map visited (visits frame))"
    using forest_distinct [OF assms(1) _ ts] by (simp only: v nodes) blast
  from ts all key v s dist show ?thesis by (intro exI [of _ ts] exI [of _ ?d0] exI [of _ frame]) simp
qed

text \<open>
  The chain of three nodes under the translations \<open>(1,0,0)\<close>, \<open>(0,1,0)\<close>, \<open>(0,0,1)\<close>: the
  innermost node is drawn under the translation by \<open>(1,1,1)\<close>.
\<close>

theorem traversal_is_preorder_of_unfolding_witness:
  "acyclic (child_edge ex_chain) \<and> children_in_range ex_chain \<and> meshes_drawable ex_ctx ex_chain
   \<and> 0 \<le> defaultScene ex_chain
   \<and> at_index (scenes ex_chain) (defaultScene ex_chain) = Inr \<lparr>scene_nodes = [0]\<rparr>
   \<and> listed_once ex_chain [0]
   \<and> (\<exists>frame. drawScene 3 ex_ctx ex_chain mat4_identity = Inr frame
         \<and> map visit_key (visits frame) =
             [(0, translation_matrix (1, 0, 0)), (1, translation_matrix (1, 1, 0)),
              (2, translation_matrix (1, 1, 1))]
         \<and> set (map visited (visits frame)) = (child_edge ex_chain)\<^sup>* `` {0}
         \<and> distinct (map visited (visits frame)))"
proof -
  have roots: "\<forall>r \<in> set (scene_nodes \<lparr>scene_nodes = [0]\<rparr>). 0 \<le> r \<and> r < int (length (nodes ex_chain))"
    by (simp add: ex_chain_nodes)
  from traversal_is_preorder_of_unfolding
    [OF ex_chain_acyclic ex_chain_in_range ex_chain_drawable ex_chain_scene roots,
     of ex_ctx mat4_identity]
  obtain depth0 frame where
    every: "\<forall>depth \<ge> depth0. drawScene depth ex_ctx ex_chain mat4_identity = Inr frame"
    and reach: "set (map visited (visits frame)) = (child_edge ex_chain)\<^sup>* `` {0}"
    and once: "listed_once ex_chain [0] \<longrightarrow> distinct (map visited (visits frame))"
    by auto
  from ex_chain_frame [of ex_ctx] obtain f3 where
    f3: "drawScene 3 ex_ctx ex_chain mat4_identity = Inr f3"
    and keys: "map visit_key (visits f3) =
             [(0, translation_matrix (1, 0, 0)), (1, translation_matrix (1, 1, 0)),
              (2, translation_matrix (1, 1, 1))]"
    by (elim exE conjE)
  have "drawScene (max depth0 3) ex_ctx ex_chain mat4_identity = Inr frame"
    using every by simp
  moreover have "drawScene (max depth0 3) ex_ctx ex_chain mat4_identity = Inr f3"
    using f3 by (rule drawScene_budget) simp
  ultimately have same: "frame = f3" by simp
  from once ex_chain_listed_once have "distinct (map visited (visits frame))" by blast
  with reach keys f3 same
  have "\<exists>frame. drawScene 3 ex_ctx ex_chain mat4_identity = Inr frame
         \<and> map visit_key (visits frame) =
             [(0, translation_matrix (1, 0, 0)), (1, translation_matrix (1, 1, 0)),
              (2, translation_matrix (1, 1, 1))]
         \<and> set (map visited (visits frame)) = (child_edge ex_chain)\<^sup>* `` {0}
         \<and> distinct (map visited (visits frame))"
    by (intro exI [of _ f3]) simp
  with ex_chain_acyclic ex_chain_in_range ex_chain_drawable ex_chain_scene ex_chain_listed_once
  show ?thesis by (intro conjI)
qed

end
